theory Spec2Isabelle
  imports Main "HOL-Library.AList"
begin

section \<open>Data model (src/types/index.ts)\<close>

text \<open>
  Strings are lists of code units below 256. Timestamps ( \<^verbatim>\<open>Date.now()\<close> and the ISO
  strings of \<^verbatim>\<open>new Date().toISOString()\<close>, which the code only compares and parses
  back) are natural numbers, milliseconds. Only the fields that the modelled code reads
  or writes are kept; a field that may be absent is an option.
\<close>

datatype ContentFormat = Linkedin_post | Youtube_script | Newsletter | X_thread

datatype IdeaStatus = Extracted | Interviewing | Drafting | Draft_ready | Published

datatype DraftStatus = Draft | Review | Approved | Draft_published

datatype SessionStatus = Active | Completed | Abandoned

datatype Role = Agent | User

record Transcript =
  t_id :: string
  t_title :: string
  t_date :: nat
  t_content :: string
  t_notionPageId :: "string option"

record ContentIdea =
  i_id :: string
  sourceTranscriptIds :: "string list"
  theme :: string
  hook :: string
  rawQuotes :: "string list"
  suggestedFormat :: ContentFormat
  i_status :: IdeaStatus
  i_createdAt :: nat
  i_notionPageId :: "string option"

record ContentDraft =
  d_id :: string
  d_ideaId :: string
  d_format :: ContentFormat
  d_title :: string
  d_body :: string
  d_version :: nat
  d_status :: DraftStatus
  d_createdAt :: nat
  d_notionPageId :: "string option"

record InterviewMessage =
  m_role :: Role
  m_content :: string
  m_timestamp :: nat

record InterviewSession =
  s_id :: string
  s_ideaId :: string
  slackThreadTs :: string
  s_messages :: "InterviewMessage list"
  s_status :: SessionStatus
  startedAt :: nat
  completedAt :: "nat option"

text \<open>The pending-rework record of \<^verbatim>\<open>SlackBot.pendingRework\<close>.\<close>

record Rework =
  r_draftId :: string
  r_ideaId :: string

section \<open>The objects' fields and the outside world\<close>

text \<open>
  The process has one \<^verbatim>\<open>ContentMiner\<close>, one \<^verbatim>\<open>TranscriptStore\<close> and one \<^verbatim>\<open>SlackBot\<close>
  (src/index.ts); their private fields are the state. A JavaScript \<^verbatim>\<open>Map\<close> whose
  iteration order is read is an association list in insertion order
  (\<^const>\<open>AList.update\<close> replaces in place and appends a new key, as \<^verbatim>\<open>Map.set\<close> does).
\<close>

record state =
  ideas :: "(string \<times> ContentIdea) list"
  pendingTranscripts :: "Transcript list"
  processing :: bool
  minedTranscriptIds :: "string set"
  knownHooks :: "string set"
  transcripts :: "(string \<times> Transcript) list"
  activeSessions :: "(string \<times> InterviewSession) list"
  pendingDrafts :: "string \<rightharpoonup> ContentDraft"
  lastShownIdeas :: "ContentIdea list"
  pendingRework :: "Rework option"
  botUserId :: "string option"

datatype exn = Error string

datatype page_status = IdeaPage IdeaStatus | DraftPage DraftStatus

text \<open>A chat message handed to \<^verbatim>\<open>webClient.chat.postMessage\<close>.\<close>

record post =
  p_channel :: string
  p_text :: string
  p_thread_ts :: "string option"

text \<open>
  Every \<^verbatim>\<open>await\<close> of an external service is a request. The drafting service's requests
  are the \<^verbatim>\<open>client.messages.create\<close> calls of \<^verbatim>\<open>AIBrain\<close>; the record store's are the
  methods of \<^verbatim>\<open>NotionService\<close>; the chat transport's are \<^verbatim>\<open>postMessage\<close> and \<^verbatim>\<open>ack\<close>.
  The conversation context that \<^verbatim>\<open>buildContext\<close> passes along is a read-only copy of
  the state and is left out of the requests.
\<close>

datatype request =
    ExtractIdeas "Transcript list"
  | OpenerText ContentIdea
  | FollowUpText ContentIdea "InterviewMessage list"
  | JudgeMaterial "InterviewMessage list"
  | DraftText ContentIdea "InterviewMessage list" ContentFormat
  | ReworkText string string ContentFormat
  | ThreadText string
  | LoadContentIdeas
  | SaveContentIdea ContentIdea
  | SaveContentDraft ContentDraft
  | LoadTranscriptContent string
  | LoadTranscripts
  | SaveTranscript Transcript
  | UpdatePageStatus string page_status
  | PostMessage post
  | Ack

text \<open>
  The world counts the interactions so far (\<open>tick\<close>) and keeps, for every request, the
  request and the state as it stood when the caller suspended on it: that is the state
  another handler sees if it runs while the request is in flight.
\<close>

record world =
  tick :: nat
  calls :: "(request \<times> state) list"

text \<open>
  What the outside answers is a parameter: each answer may depend on the moment
  (\<open>tick\<close>) and on the request, and may be an exception. An idea as the drafting
  service's JSON gives it is \<open>(theme, hook, rawQuotes, suggestedFormat)\<close>; a response
  without a parseable array is the empty list, as in \<^verbatim>\<open>AIBrain.mineContentIdeas\<close>.
\<close>

type_synonym raw_idea = "string \<times> string \<times> string list \<times> ContentFormat"

record env =
  now :: "nat \<Rightarrow> nat"
  extractIdeas :: "nat \<Rightarrow> Transcript list \<Rightarrow> exn + raw_idea list"
  openerText :: "nat \<Rightarrow> ContentIdea \<Rightarrow> exn + string"
  followUpText :: "nat \<Rightarrow> ContentIdea \<Rightarrow> InterviewMessage list \<Rightarrow> exn + string"
  judgeText :: "nat \<Rightarrow> InterviewMessage list \<Rightarrow> exn + string option"
  draftText :: "nat \<Rightarrow> ContentIdea \<Rightarrow> InterviewMessage list \<Rightarrow> exn + string"
  reworkText :: "nat \<Rightarrow> string \<Rightarrow> string \<Rightarrow> exn + string"
  threadText :: "nat \<Rightarrow> string \<Rightarrow> exn + string"
  loadContentIdeas :: "nat \<Rightarrow> exn + ContentIdea list"
  saveContentIdea :: "nat \<Rightarrow> ContentIdea \<Rightarrow> exn + string"
  saveContentDraft :: "nat \<Rightarrow> ContentDraft \<Rightarrow> exn + string"
  loadTranscriptContent :: "nat \<Rightarrow> string \<Rightarrow> exn + string"
  loadTranscripts :: "nat \<Rightarrow> exn + Transcript list"
  saveTranscript :: "nat \<Rightarrow> Transcript \<Rightarrow> exn + string"
  updatePageStatus :: "nat \<Rightarrow> string \<Rightarrow> page_status \<Rightarrow> exn + unit"
  postMessage :: "nat \<Rightarrow> post \<Rightarrow> exn + string option"
  ack :: "nat \<Rightarrow> exn + unit"
  slackUserId :: string
  stripSlackFormatting :: "string \<Rightarrow> string"

subsection \<open>Asynchronous code as state passing with exceptions\<close>

type_synonym sys = "state \<times> world"

type_synonym 'a io = "sys \<Rightarrow> (exn + 'a) \<times> sys"

definition ret :: "'a \<Rightarrow> 'a io" where
  "ret x = (\<lambda>\<sigma>. (Inr x, \<sigma>))"

definition throw :: "exn \<Rightarrow> 'a io" where
  "throw e = (\<lambda>\<sigma>. (Inl e, \<sigma>))"

definition bnd :: "'a io \<Rightarrow> ('a \<Rightarrow> 'b io) \<Rightarrow> 'b io" where
  "bnd m f = (\<lambda>\<sigma>. case m \<sigma> of (Inl e, \<sigma>') \<Rightarrow> (Inl e, \<sigma>') | (Inr x, \<sigma>') \<Rightarrow> f x \<sigma>')"

definition seq :: "unit io \<Rightarrow> 'b io \<Rightarrow> 'b io" where
  "seq m k = bnd m (\<lambda>_. k)"

text \<open>\<^verbatim>\<open>try { m } catch (error) { h error }\<close>\<close>

definition try_catch :: "'a io \<Rightarrow> (exn \<Rightarrow> 'a io) \<Rightarrow> 'a io" where
  "try_catch m h = (\<lambda>\<sigma>. case m \<sigma> of (Inl e, \<sigma>') \<Rightarrow> h e \<sigma>' | (Inr x, \<sigma>') \<Rightarrow> (Inr x, \<sigma>'))"

definition gets :: "(state \<Rightarrow> 'a) \<Rightarrow> 'a io" where
  "gets f = (\<lambda>(s, w). (Inr (f s), (s, w)))"

definition modify :: "(state \<Rightarrow> state) \<Rightarrow> unit io" where
  "modify f = (\<lambda>(s, w). (Inr (), (f s, w)))"

text \<open>An awaited request: it is logged with the state visible at the suspension.\<close>

definition call :: "request \<Rightarrow> (nat \<Rightarrow> exn + 'a) \<Rightarrow> 'a io" where
  "call rq answer =
     (\<lambda>(s, w). (answer (tick w), (s, w\<lparr>tick := Suc (tick w), calls := calls w @ [(rq, s)]\<rparr>)))"

text \<open>Reading the clock: no suspension, but time passes.\<close>

definition clock :: "env \<Rightarrow> nat io" where
  "clock E = (\<lambda>(s, w). (Inr (now E (tick w)), (s, w\<lparr>tick := Suc (tick w)\<rparr>)))"

text \<open>\<^verbatim>\<open>for (const x of xs) { f x }\<close>\<close>

fun forEach :: "('a \<Rightarrow> unit io) \<Rightarrow> 'a list \<Rightarrow> unit io" where
  "forEach f [] = ret ()"
| "forEach f (x # xs) = seq (f x) (forEach f xs)"

text \<open>The computations applied to a state.\<close>

lemma io_simps:
  "ret x \<sigma> = (Inr x, \<sigma>)"
  "throw e \<sigma> = (Inl e, \<sigma>)"
  "bnd m f \<sigma> = (case m \<sigma> of (Inl e, \<sigma>') \<Rightarrow> (Inl e, \<sigma>') | (Inr y, \<sigma>') \<Rightarrow> f y \<sigma>')"
  "seq m' k \<sigma> = (case m' \<sigma> of (Inl e, \<sigma>') \<Rightarrow> (Inl e, \<sigma>') | (Inr y, \<sigma>') \<Rightarrow> k \<sigma>')"
  "try_catch m h \<sigma> = (case m \<sigma> of (Inl e, \<sigma>') \<Rightarrow> h e \<sigma>' | (Inr y, \<sigma>') \<Rightarrow> (Inr y, \<sigma>'))"
  "gets g (s, w) = (Inr (g s), (s, w))"
  "modify u (s, w) = (Inr (), (u s, w))"
  "call rq a (s, w) = (a (tick w), (s, w\<lparr>tick := Suc (tick w), calls := calls w @ [(rq, s)]\<rparr>))"
  "clock E (s, w) = (Inr (now E (tick w)), (s, w\<lparr>tick := Suc (tick w)\<rparr>))"
  by (simp_all add: ret_def throw_def bnd_def seq_def try_catch_def gets_def modify_def
      call_def clock_def)

section \<open>Strings\<close>

text \<open>\<^verbatim>\<open>String(n)\<close> for a natural number.\<close>

definition digit :: "nat \<Rightarrow> char" where
  "digit n = ''0123456789'' ! n"

fun dec :: "nat \<Rightarrow> string" where
  "dec n = (if n < 10 then [digit n] else dec (n div 10) @ [digit (n mod 10)])"

declare dec.simps [simp del]

text \<open>
  \<^verbatim>\<open>toLowerCase\<close>: only the letters A to Z have a lower-case form in \<^verbatim>\<open>[a-z0-9\s]\<close>.
  Every caller either deletes the characters outside that class next or looks for the
  word \<^verbatim>\<open>yes\<close>, so the other letters are left alone here.
\<close>

definition lowerChar :: "char \<Rightarrow> char" where
  "lowerChar c =
     (case map_of (zip ''ABCDEFGHIJKLMNOPQRSTUVWXYZ'' ''abcdefghijklmnopqrstuvwxyz'') c of
        Some d \<Rightarrow> d | None \<Rightarrow> c)"

definition toLowerCase :: "string \<Rightarrow> string" where
  "toLowerCase s = map lowerChar s"

text \<open>The classes \<^verbatim>\<open>\s\<close> (among the code units below 256) and \<^verbatim>\<open>[a-z0-9]\<close>.\<close>

definition isSpace :: "char \<Rightarrow> bool" where
  "isSpace c = (c \<in> set [CHR 0x09, CHR 0x0A, CHR 0x0B, CHR 0x0C, CHR 0x0D, CHR 0x20, CHR 0xA0])"

definition isLowerAlnum :: "char \<Rightarrow> bool" where
  "isLowerAlnum c = (c \<in> set ''abcdefghijklmnopqrstuvwxyz0123456789'')"

text \<open>\<^verbatim>\<open>.replace(/\s+/g, ' ')\<close>: every maximal run of white space becomes one space (a white
  space followed by another is dropped, the last of a run becomes the space).\<close>

fun collapseSpaces :: "string \<Rightarrow> string" where
  "collapseSpaces [] = []"
| "collapseSpaces [c] = [if isSpace c then CHR '' '' else c]"
| "collapseSpaces (c # d # cs) =
     (if isSpace c then
        (if isSpace d then collapseSpaces (d # cs) else CHR '' '' # collapseSpaces (d # cs))
      else c # collapseSpaces (d # cs))"

definition trim :: "string \<Rightarrow> string" where
  "trim s = rev (dropWhile isSpace (rev (dropWhile isSpace s)))"

text \<open>
  \<^verbatim>\<open>x.toLowerCase().replace(/[^a-z0-9\s]/g, '').replace(/\s+/g, ' ').trim()\<close>, the
  normalisation of \<^verbatim>\<open>ContentMiner.normalizeHook\<close>, which the chat handlers repeat for
  commands.
\<close>

definition normalizeHook :: "string \<Rightarrow> string" where
  "normalizeHook h =
     trim (collapseSpaces (filter (\<lambda>c. isLowerAlnum c \<or> isSpace c) (toLowerCase h)))"

text \<open>\<^verbatim>\<open>s.includes(t)\<close>\<close>

fun includesStr :: "string \<Rightarrow> string \<Rightarrow> bool" where
  "includesStr [] t = (t = [])"
| "includesStr (c # cs) t = (take (length t) (c # cs) = t \<or> includesStr cs t)"

text \<open>A string in a condition: the empty string is falsy.\<close>

definition truthy :: "string option \<Rightarrow> bool" where
  "truthy x = (case x of None \<Rightarrow> False | Some v \<Rightarrow> v \<noteq> [])"

text \<open>\<^verbatim>\<open>for (const x of xs) { ... out.push(...) }\<close>: a loop that collects what each round pushes.\<close>

fun collect :: "('a \<Rightarrow> 'b list io) \<Rightarrow> 'a list \<Rightarrow> 'b list io" where
  "collect f [] = ret []"
| "collect f (x # xs) = bnd (f x) (\<lambda>ys. bnd (collect f xs) (\<lambda>zs. ret (ys @ zs)))"

text \<open>\<^verbatim>\<open>for (let i = 0; i < xs.length; i += k) { xs.slice(i, i + k) }\<close>\<close>

fun slices :: "nat \<Rightarrow> 'a list \<Rightarrow> 'a list list" where
  "slices k xs = (if xs = [] \<or> k = 0 then [] else take k xs # slices k (drop k xs))"

declare slices.simps [simp del]

subsection \<open>Invariants of a computation\<close>

text \<open>\<open>preserves P m\<close>: whatever \<open>m\<close> does and answers, it leaves \<open>P\<close> true.\<close>

definition preserves :: "(sys \<Rightarrow> bool) \<Rightarrow> 'a io \<Rightarrow> bool" where
  "preserves P m = (\<forall>\<sigma>. P \<sigma> \<longrightarrow> P (snd (m \<sigma>)))"

lemma preservesD: "preserves P m \<Longrightarrow> P \<sigma> \<Longrightarrow> P (snd (m \<sigma>))"
  unfolding preserves_def by blast

lemma preservesE: "preserves P m \<Longrightarrow> m \<sigma> = (r, \<sigma>') \<Longrightarrow> P \<sigma> \<Longrightarrow> P \<sigma>'"
  unfolding preserves_def by (metis snd_conv)

lemma preserves_ret [intro!, simp]: "preserves P (ret x)"
  by (simp add: preserves_def ret_def)

lemma preserves_throw [intro!, simp]: "preserves P (throw e)"
  by (simp add: preserves_def throw_def)

lemma preserves_bnd [intro!]:
  "preserves P m \<Longrightarrow> (\<And>x. preserves P (f x)) \<Longrightarrow> preserves P (bnd m f)"
  unfolding preserves_def bnd_def
  by (metis (mono_tags, lifting) case_prod_conv old.sum.simps(5) old.sum.simps(6) snd_conv sumE surj_pair) 

lemma preserves_seq [intro!]:
  "preserves P m \<Longrightarrow> preserves P k \<Longrightarrow> preserves P (seq m k)"
  by (simp add: seq_def preserves_bnd)

lemma preserves_try [intro!]:
  "preserves P m \<Longrightarrow> (\<And>e. preserves P (h e)) \<Longrightarrow> preserves P (try_catch m h)"
  unfolding preserves_def try_catch_def
  by (metis (mono_tags, lifting) case_prod_conv old.sum.simps(5) old.sum.simps(6) snd_conv sumE surj_pair) 

lemma preserves_gets [intro!, simp]: "preserves P (gets f)"
  by (simp add: preserves_def gets_def split: prod.splits)

lemma preserves_if [intro!]:
  "(b \<Longrightarrow> preserves P m) \<Longrightarrow> (\<not> b \<Longrightarrow> preserves P k) \<Longrightarrow> preserves P (if b then m else k)"
  by simp

lemma preserves_forEach [intro!]: "(\<And>x. preserves P (f x)) \<Longrightarrow> preserves P (forEach f xs)"
  by (induction xs) auto

lemma preserves_collect [intro!]: "(\<And>x. preserves P (f x)) \<Longrightarrow> preserves P (collect f xs)"
  by (induction xs) auto

text \<open>A property of the state alone.\<close>

lemma preserves_call_state [intro!, simp]: "preserves (\<lambda>\<sigma>. Q (fst \<sigma>)) (call rq a)"
  by (simp add: preserves_def call_def split: prod.splits)

lemma preserves_clock_state [intro!, simp]: "preserves (\<lambda>\<sigma>. Q (fst \<sigma>)) (clock E)"
  by (simp add: preserves_def clock_def split: prod.splits)

lemma preserves_modify_state:
  "(\<And>s. Q s \<Longrightarrow> Q (f s)) \<Longrightarrow> preserves (\<lambda>\<sigma>. Q (fst \<sigma>)) (modify f)"
  by (simp add: preserves_def modify_def split: prod.splits)

lemma preserves_call:
  "(\<And>s w. P (s, w) \<Longrightarrow> P (s, w\<lparr>tick := Suc (tick w), calls := calls w @ [(rq, s)]\<rparr>))
   \<Longrightarrow> preserves P (call rq a)"
  by (auto simp: preserves_def call_def)

lemma preserves_clock:
  "(\<And>s w. P (s, w) \<Longrightarrow> P (s, w\<lparr>tick := Suc (tick w)\<rparr>)) \<Longrightarrow> preserves P (clock E)"
  by (auto simp: preserves_def clock_def)

lemma preserves_modify:
  "(\<And>s w. P (s, w) \<Longrightarrow> P (f s, w)) \<Longrightarrow> preserves P (modify f)"
  by (auto simp: preserves_def modify_def)

lemma preserves_case_option [intro!]:
  "(x = None \<Longrightarrow> preserves P m) \<Longrightarrow> (\<And>v. x = Some v \<Longrightarrow> preserves P (k v))
   \<Longrightarrow> preserves P (case x of None \<Rightarrow> m | Some v \<Rightarrow> k v)"
  by (cases x) auto

lemma preserves_case_prod [intro!]:
  "(\<And>a b. p = (a, b) \<Longrightarrow> preserves P (f a b)) \<Longrightarrow> preserves P (case p of (a, b) \<Rightarrow> f a b)"
  by (cases p) auto

lemma preserves_case_list:
  "(xs = [] \<Longrightarrow> preserves P m) \<Longrightarrow> (\<And>y ys. xs = y # ys \<Longrightarrow> preserves P (k y ys))
   \<Longrightarrow> preserves P (case xs of [] \<Rightarrow> m | y # ys \<Rightarrow> k y ys)"
  by (cases xs) auto

lemmas control_rules = preserves_bnd preserves_seq preserves_try preserves_forEach
  preserves_collect preserves_if preserves_ret preserves_throw preserves_gets
  preserves_case_option preserves_case_prod preserves_case_list

text \<open>
  What a computation returns can be used after it: a fact about the value alone, or a
  fact about the value and the state that the rest keeps.
\<close>

lemma preserves_bnd_pure:
  assumes "preserves P m" and "\<And>\<sigma> x \<sigma>'. m \<sigma> = (Inr x, \<sigma>') \<Longrightarrow> G x"
    and "\<And>x. G x \<Longrightarrow> preserves P (f x)"
  shows "preserves P (bnd m f)"
  unfolding preserves_def
proof (intro allI impI)
  fix \<sigma> assume p: "P \<sigma>"
  obtain r \<sigma>' where run: "m \<sigma> = (r, \<sigma>')" by (cases "m \<sigma>")
  from preservesE [OF assms(1) run p] have p': "P \<sigma>'" .
  show "P (snd (bnd m f \<sigma>))"
  proof (cases r)
    case (Inl e)
    with run p' show ?thesis by (simp add: bnd_def)
  next
    case (Inr x)
    with run assms(2) have "G x" by blast
    from preservesD [OF assms(3) [OF this] p'] run Inr show ?thesis by (simp add: bnd_def)
  qed
qed

lemma preserves_bnd_fact:
  assumes "preserves P m" and "\<And>\<sigma> x \<sigma>'. P \<sigma> \<Longrightarrow> m \<sigma> = (Inr x, \<sigma>') \<Longrightarrow> G x \<sigma>'"
    and "\<And>x. preserves (\<lambda>\<sigma>. P \<sigma> \<and> G x \<sigma>) (f x)"
  shows "preserves P (bnd m f)"
  unfolding preserves_def
proof (intro allI impI)
  fix \<sigma> assume p: "P \<sigma>"
  obtain r \<sigma>' where run: "m \<sigma> = (r, \<sigma>')" by (cases "m \<sigma>")
  from preservesE [OF assms(1) run p] have p': "P \<sigma>'" .
  show "P (snd (bnd m f \<sigma>))"
  proof (cases r)
    case (Inl e)
    with run p' show ?thesis by (simp add: bnd_def)
  next
    case (Inr x)
    with run assms(2) [OF p] have "G x \<sigma>'" by blast
    with p' have both: "P \<sigma>' \<and> G x \<sigma>'" by blast
    have "preserves (\<lambda>\<sigma>. P \<sigma> \<and> G x \<sigma>) (f x)" by (rule assms(3))
    from preservesD [OF this both] run Inr show ?thesis by (simp add: bnd_def)
  qed
qed

lemma preserves_gets_option:
  assumes "preserves P none" and "\<And>x. preserves (\<lambda>\<sigma>. P \<sigma> \<and> G x \<sigma>) (some x)"
    and "\<And>s w x. P (s, w) \<Longrightarrow> f s = Some x \<Longrightarrow> G x (s, w)"
  shows "preserves P (bnd (gets f) (\<lambda>r. case r of None \<Rightarrow> none | Some x \<Rightarrow> some x))"
  unfolding preserves_def
proof (intro allI impI)
  fix \<sigma> assume p: "P \<sigma>"
  obtain s w where \<sigma>: "\<sigma> = (s, w)" by (cases \<sigma>)
  show "P (snd (bnd (gets f) (\<lambda>r. case r of None \<Rightarrow> none | Some x \<Rightarrow> some x) \<sigma>))"
  proof (cases "f s")
    case None
    with preservesD [OF assms(1) p] \<sigma> show ?thesis by (simp add: io_simps)
  next
    case (Some x)
    from assms(3) p \<sigma> Some have "P \<sigma> \<and> G x \<sigma>" by blast
    moreover have "preserves (\<lambda>\<sigma>. P \<sigma> \<and> G x \<sigma>) (some x)" by (rule assms(2))
    ultimately have "P (snd (some x \<sigma>))" by (blast dest: preservesD)
    with \<sigma> Some show ?thesis by (simp add: io_simps)
  qed
qed

text \<open>\<open>reaches P m Q\<close>: from a state where \<open>P\<close> holds, \<open>m\<close> ends in a state where \<open>Q\<close> holds.\<close>

definition reaches :: "(sys \<Rightarrow> bool) \<Rightarrow> 'a io \<Rightarrow> (sys \<Rightarrow> bool) \<Rightarrow> bool" where
  "reaches P m Q = (\<forall>\<sigma>. P \<sigma> \<longrightarrow> Q (snd (m \<sigma>)))"


text \<open>Computations that never throw.\<close>

definition total :: "'a io \<Rightarrow> bool" where
  "total m = (\<forall>\<sigma>. \<exists>x. fst (m \<sigma>) = Inr x)"

lemma totalE: "total m \<Longrightarrow> m \<sigma> = (r, \<sigma>') \<Longrightarrow> \<exists>x. r = Inr x"
  unfolding total_def by (metis fst_conv)

lemma totalD: "total m \<Longrightarrow> \<exists>x. fst (m \<sigma>) = Inr x"
  unfolding total_def by blast

lemma total_ret [intro!, simp]: "total (ret x)"
  by (simp add: total_def ret_def)

lemma total_gets [intro!, simp]: "total (gets f)"
  by (simp add: total_def gets_def split: prod.splits)

lemma total_modify [intro!, simp]: "total (modify f)"
  by (simp add: total_def modify_def split: prod.splits)

lemma total_clock [intro!, simp]: "total (clock E)"
  by (simp add: total_def clock_def split: prod.splits)

lemma total_bnd [intro!]: "total m \<Longrightarrow> (\<And>x. total (f x)) \<Longrightarrow> total (bnd m f)"
proof -
  assume m: "total m" and f: "\<And>x. total (f x)"
  show ?thesis
    unfolding total_def
  proof
    fix \<sigma>
    obtain r \<sigma>' where run: "m \<sigma> = (r, \<sigma>')" by (cases "m \<sigma>")
    from totalE [OF m run] obtain x where "r = Inr x" by blast
    with run totalD [OF f, of x \<sigma>'] show "\<exists>y. fst (bnd m f \<sigma>) = Inr y"
      by (simp add: bnd_def)
  qed
qed

lemma total_seq [intro!]: "total m \<Longrightarrow> total k \<Longrightarrow> total (seq m k)"
  by (simp add: seq_def total_bnd)

lemma total_try [intro!]: "(\<And>e. total (h e)) \<Longrightarrow> total (try_catch m h)"
proof -
  assume h: "\<And>e. total (h e)"
  show ?thesis
    unfolding total_def
  proof
    fix \<sigma>
    obtain r \<sigma>' where run: "m \<sigma> = (r, \<sigma>')" by (cases "m \<sigma>")
    show "\<exists>y. fst (try_catch m h \<sigma>) = Inr y"
    proof (cases r)
      case (Inl e)
      with run totalD [OF h, of e \<sigma>'] show ?thesis by (simp add: try_catch_def)
    next
      case (Inr y)
      with run show ?thesis by (simp add: try_catch_def)
    qed
  qed
qed

lemma total_if [intro!]: "(b \<Longrightarrow> total m) \<Longrightarrow> (\<not> b \<Longrightarrow> total k) \<Longrightarrow> total (if b then m else k)"
  by simp

lemma total_case_option [intro!]:
  "(x = None \<Longrightarrow> total m) \<Longrightarrow> (\<And>v. x = Some v \<Longrightarrow> total (k v))
   \<Longrightarrow> total (case x of None \<Rightarrow> m | Some v \<Rightarrow> k v)"
  by (cases x) auto

lemma total_forEach [intro!]: "(\<And>x. total (f x)) \<Longrightarrow> total (forEach f xs)"
  by (induction xs) auto

lemma total_collect [intro!]: "(\<And>x. total (f x)) \<Longrightarrow> total (collect f xs)"
  by (induction xs) auto

section \<open>Idea extraction (AIBrain.mineContentIdeas)\<close>

text \<open>
  One request to the drafting service for a non-empty batch; an exception of the request
  is not caught here. The callback of \<^verbatim>\<open>ideas.map\<close> runs without suspension, so the
  clock is read once for the batch.
\<close>

definition ideaOf :: "nat \<Rightarrow> string list \<Rightarrow> nat \<times> raw_idea \<Rightarrow> ContentIdea" where
  "ideaOf t srcs = (\<lambda>(i, (th, hk, qs, fmt)).
     \<lparr>i_id = ''idea-'' @ dec t @ ''-'' @ dec i, sourceTranscriptIds = srcs, theme = th,
      hook = hk, rawQuotes = qs, suggestedFormat = fmt, i_status = Extracted,
      i_createdAt = t, i_notionPageId = None\<rparr>)"

definition mineContentIdeas :: "env \<Rightarrow> Transcript list \<Rightarrow> ContentIdea list io" where
  "mineContentIdeas E ts =
     (if ts = [] then ret []
      else bnd (call (ExtractIdeas ts) (\<lambda>n. extractIdeas E n ts)) (\<lambda>raw.
           bnd (clock E) (\<lambda>t.
           ret (map (ideaOf t (map t_id ts)) (enumerate 0 raw)))))"

section \<open>The idea registry and the mining queue (ContentMiner)\<close>

definition isDuplicate :: "state \<Rightarrow> string \<Rightarrow> bool" where
  "isDuplicate s h = (normalizeHook h \<in> knownHooks s)"

text \<open>\<^verbatim>\<open>idea.notionPageId = notionPageId\<close> on the object just stored under \<^verbatim>\<open>idea.id\<close>.\<close>

definition setIdeaPage :: "ContentIdea \<Rightarrow> string \<Rightarrow> state \<Rightarrow> state" where
  "setIdeaPage idea pageId s =
     s\<lparr>ideas := AList.update (i_id idea) (idea\<lparr>i_notionPageId := Some pageId\<rparr>) (ideas s)\<rparr>"

subsection \<open>loadFromNotion\<close>

text \<open>One round of the loop over the loaded ideas; the flag is \<^verbatim>\<open>hasOrphanedIdeas\<close>.\<close>

definition loadIdea :: "state \<times> bool \<Rightarrow> ContentIdea \<Rightarrow> state \<times> bool" where
  "loadIdea = (\<lambda>(s, hasOrphanedIdeas) idea.
     (s\<lparr>ideas := AList.update (i_id idea) idea (ideas s),
        knownHooks := insert (normalizeHook (hook idea)) (knownHooks s),
        minedTranscriptIds :=
          (if sourceTranscriptIds idea \<noteq> []
           then minedTranscriptIds s \<union> set (sourceTranscriptIds idea)
           else minedTranscriptIds s)\<rparr>,
      hasOrphanedIdeas \<or> sourceTranscriptIds idea = []))"

definition loadFromNotion :: "env \<Rightarrow> string list option \<Rightarrow> unit io" where
  "loadFromNotion E allTranscriptIds =
     try_catch
       (bnd (call LoadContentIdeas (loadContentIdeas E)) (\<lambda>loaded.
          modify (\<lambda>s.
            case foldl loadIdea (s, False) loaded of (s', hasOrphanedIdeas) \<Rightarrow>
              (case allTranscriptIds of
                 Some tids \<Rightarrow>
                   if hasOrphanedIdeas
                   then s'\<lparr>minedTranscriptIds := minedTranscriptIds s' \<union> set tids\<rparr>
                   else s'
               | None \<Rightarrow> s'))))
       (\<lambda>error. ret ())"

subsection \<open>queueTranscript and processQueue\<close>

text \<open>One round of the loop over a drained batch's ideas.\<close>

definition recordQueuedIdea :: "env \<Rightarrow> ContentIdea \<Rightarrow> unit io" where
  "recordQueuedIdea E idea =
     seq (modify (\<lambda>s. s\<lparr>ideas := AList.update (i_id idea) idea (ideas s)\<rparr>))
       (try_catch
          (bnd (call (SaveContentIdea idea) (\<lambda>n. saveContentIdea E n idea)) (\<lambda>pageId.
             modify (setIdeaPage idea pageId)))
          (\<lambda>error. ret ()))"

text \<open>
  The body of \<^verbatim>\<open>processQueue\<close> after its guard, up to the recursive call: the
  \<^verbatim>\<open>try\<close>, its \<^verbatim>\<open>catch\<close>, and the reset of \<^verbatim>\<open>processing\<close> in \<^verbatim>\<open>finally\<close>.
\<close>

definition drainBatch :: "env \<Rightarrow> unit io" where
  "drainBatch E =
     seq (modify (\<lambda>s. s\<lparr>processing := True\<rparr>))
    (seq (try_catch
            (bnd (gets (\<lambda>s. take 5 (pendingTranscripts s))) (\<lambda>batch.
             seq (modify (\<lambda>s. s\<lparr>pendingTranscripts := drop 5 (pendingTranscripts s)\<rparr>))
            (bnd (mineContentIdeas E batch) (\<lambda>newIdeas.
             forEach (recordQueuedIdea E) newIdeas))))
            (\<lambda>error. ret ()))
         (modify (\<lambda>s. s\<lparr>processing := False\<rparr>)))"

text \<open>A drained batch leaves the pending list five shorter: the recursion ends.\<close>

lemma mineContentIdeas_state: "preserves (\<lambda>\<sigma>. Q (fst \<sigma>)) (mineContentIdeas E ts)"
  unfolding mineContentIdeas_def by auto

lemma recordQueuedIdea_pending:
  "preserves (\<lambda>\<sigma>. pendingTranscripts (fst \<sigma>) = v) (recordQueuedIdea E idea)"
  unfolding recordQueuedIdea_def
  by (auto intro!: preserves_modify_state simp: setIdeaPage_def)

lemma drainBatch_pending:
  "pendingTranscripts (fst (snd (drainBatch E \<sigma>))) = drop 5 (pendingTranscripts (fst \<sigma>))"
proof -
  obtain s w where \<sigma>: "\<sigma> = (s, w)" by (cases \<sigma>)
  have A: "\<And>b \<sigma> r s' w'. mineContentIdeas E b \<sigma> = (r, s', w') \<Longrightarrow>
             pendingTranscripts s' = pendingTranscripts (fst \<sigma>)"
    using preservesE [OF mineContentIdeas_state [where Q = "\<lambda>s. pendingTranscripts s = v" for v]]
    by fastforce
  have B: "\<And>xs \<sigma> r s' w'. forEach (recordQueuedIdea E) xs \<sigma> = (r, s', w') \<Longrightarrow>
             pendingTranscripts s' = pendingTranscripts (fst \<sigma>)"
    using preservesE [OF preserves_forEach [OF recordQueuedIdea_pending]]
    by fastforce
  show ?thesis
    by (auto simp add: \<sigma> drainBatch_def seq_def bnd_def modify_def gets_def try_catch_def ret_def
        split: prod.splits sum.splits dest!: A B)
qed

function processQueue :: "env \<Rightarrow> unit io" where
  "processQueue E \<sigma> =
     (if processing (fst \<sigma>) \<or> pendingTranscripts (fst \<sigma>) = [] then (Inr (), \<sigma>)
      else case drainBatch E \<sigma> of (r, \<sigma>') \<Rightarrow>
        if pendingTranscripts (fst \<sigma>') \<noteq> [] then processQueue E \<sigma>' else (r, \<sigma>'))"
  by pat_completeness auto

termination processQueue
  apply (relation "measure (\<lambda>(E, \<sigma>). length (pendingTranscripts (fst \<sigma>)))")
   apply simp
  apply (metis (no_types, lifting) drainBatch_pending snd_conv in_measure case_prod_conv
      length_drop diff_less length_greater_0_conv zero_less_numeral)
  done

declare processQueue.simps [simp del]

definition queueTranscript :: "env \<Rightarrow> Transcript \<Rightarrow> unit io" where
  "queueTranscript E t =
     seq (modify (\<lambda>s. s\<lparr>pendingTranscripts := pendingTranscripts s @ [t]\<rparr>))
       (bnd (gets processing) (\<lambda>busy. if \<not> busy then processQueue E else ret ()))"

subsection \<open>mineFromTranscripts\<close>

text \<open>
  One round of the loop over the unmined transcripts: what it pushes on \<^verbatim>\<open>withContent\<close>.
  The transcripts are passed by value: a content loaded or truncated here is not written
  back to the transcript cache. Every transcript the loop touches is marked as mined in the
  same round, so a later call filters it out before it reads its content.
\<close>

definition fetchContent :: "env \<Rightarrow> Transcript \<Rightarrow> Transcript list io" where
  "fetchContent E t =
     bnd (if length (t_content t) > 50 then ret [t]
          else if truthy (t_notionPageId t) then
            (case t_notionPageId t of
               None \<Rightarrow> ret []
             | Some pageId \<Rightarrow>
                 try_catch
                   (bnd (call (LoadTranscriptContent pageId) (\<lambda>n. loadTranscriptContent E n pageId))
                      (\<lambda>c. ret (if length c > 50 then [t\<lparr>t_content := c\<rparr>] else [])))
                   (\<lambda>error. ret []))
          else ret [])
       (\<lambda>kept. seq (modify (\<lambda>s. s\<lparr>minedTranscriptIds := insert (t_id t) (minedTranscriptIds s)\<rparr>))
                  (ret kept))"

definition truncationNote :: string where
  "truncationNote = [CHR 0x0A, CHR 0x0A] @ ''[... transcript truncated for processing]''"

definition truncateContent :: "Transcript \<Rightarrow> Transcript" where
  "truncateContent t =
     (if length (t_content t) > 4000
      then t\<lparr>t_content := take 4000 (t_content t) @ truncationNote\<rparr>
      else t)"

text \<open>One round of the loop over a mined batch's ideas: what it pushes on \<^verbatim>\<open>allIdeas\<close>.\<close>

definition recordMinedIdea :: "env \<Rightarrow> ContentIdea \<Rightarrow> ContentIdea list io" where
  "recordMinedIdea E idea =
     bnd (gets (\<lambda>s. isDuplicate s (hook idea))) (\<lambda>dup.
       if dup then ret []
       else
         seq (modify (\<lambda>s. s\<lparr>ideas := AList.update (i_id idea) idea (ideas s),
                             knownHooks := insert (normalizeHook (hook idea)) (knownHooks s)\<rparr>))
           (try_catch
              (bnd (call (SaveContentIdea idea) (\<lambda>n. saveContentIdea E n idea)) (\<lambda>pageId.
                 seq (modify (setIdeaPage idea pageId))
                   (ret [idea\<lparr>i_notionPageId := Some pageId\<rparr>])))
              (\<lambda>error. ret [idea])))"

text \<open>One round of the loop over the batches, with its \<^verbatim>\<open>try\<close> and \<^verbatim>\<open>catch\<close>.\<close>

definition mineBatch :: "env \<Rightarrow> Transcript list \<Rightarrow> ContentIdea list io" where
  "mineBatch E batch =
     try_catch
       (bnd (mineContentIdeas E batch) (\<lambda>newIdeas. collect (recordMinedIdea E) newIdeas))
       (\<lambda>error. ret [])"

definition mineFromTranscripts :: "env \<Rightarrow> Transcript list \<Rightarrow> ContentIdea list io" where
  "mineFromTranscripts E ts =
     (if ts = [] then ret []
      else
        bnd (gets (\<lambda>s. filter (\<lambda>t. t_id t \<notin> minedTranscriptIds s) ts)) (\<lambda>unmined.
          if unmined = [] then ret []
          else
            bnd (collect (fetchContent E) unmined) (\<lambda>withContent.
              if withContent = [] then ret []
              else collect (mineBatch E) (slices 10 (map truncateContent withContent)))))"

subsection \<open>Calls that overlap\<close>

text \<open>
  A call that is suspended on a request shares the miner's fields with the tasks that run
  meanwhile. \<open>others n\<close> is what those tasks do to the fields during the suspension that
  starts at moment \<open>n\<close>; the log keeps the requests of the call itself. The rounds of
  \<^verbatim>\<open>mineFromTranscripts\<close> are repeated with such a suspension at each \<^verbatim>\<open>await\<close>; its
  local variables (\<^verbatim>\<open>unmined\<close>, \<^verbatim>\<open>withContent\<close>, \<^verbatim>\<open>allIdeas\<close>) are out of the others' reach.
\<close>

type_synonym interference = "nat \<Rightarrow> state \<Rightarrow> state"

definition await :: "interference \<Rightarrow> request \<Rightarrow> (nat \<Rightarrow> exn + 'a) \<Rightarrow> 'a io" where
  "await others rq answer =
     (\<lambda>(s, w). (answer (tick w),
        (others (tick w) s, w\<lparr>tick := Suc (tick w), calls := calls w @ [(rq, s)]\<rparr>)))"

definition fetchContent_among :: "interference \<Rightarrow> env \<Rightarrow> Transcript \<Rightarrow> Transcript list io" where
  "fetchContent_among others E t =
     bnd (if length (t_content t) > 50 then ret [t]
          else if truthy (t_notionPageId t) then
            (case t_notionPageId t of
               None \<Rightarrow> ret []
             | Some pageId \<Rightarrow>
                 try_catch
                   (bnd (await others (LoadTranscriptContent pageId)
                           (\<lambda>n. loadTranscriptContent E n pageId))
                      (\<lambda>c. ret (if length c > 50 then [t\<lparr>t_content := c\<rparr>] else [])))
                   (\<lambda>error. ret []))
          else ret [])
       (\<lambda>kept. seq (modify (\<lambda>s. s\<lparr>minedTranscriptIds := insert (t_id t) (minedTranscriptIds s)\<rparr>))
                  (ret kept))"

definition mineContentIdeas_among ::
    "interference \<Rightarrow> env \<Rightarrow> Transcript list \<Rightarrow> ContentIdea list io" where
  "mineContentIdeas_among others E ts =
     (if ts = [] then ret []
      else bnd (await others (ExtractIdeas ts) (\<lambda>n. extractIdeas E n ts)) (\<lambda>raw.
           bnd (clock E) (\<lambda>t.
           ret (map (ideaOf t (map t_id ts)) (enumerate 0 raw)))))"

definition recordMinedIdea_among ::
    "interference \<Rightarrow> env \<Rightarrow> ContentIdea \<Rightarrow> ContentIdea list io" where
  "recordMinedIdea_among others E idea =
     bnd (gets (\<lambda>s. isDuplicate s (hook idea))) (\<lambda>dup.
       if dup then ret []
       else
         seq (modify (\<lambda>s. s\<lparr>ideas := AList.update (i_id idea) idea (ideas s),
                             knownHooks := insert (normalizeHook (hook idea)) (knownHooks s)\<rparr>))
           (try_catch
              (bnd (await others (SaveContentIdea idea) (\<lambda>n. saveContentIdea E n idea)) (\<lambda>pageId.
                 seq (modify (setIdeaPage idea pageId))
                   (ret [idea\<lparr>i_notionPageId := Some pageId\<rparr>])))
              (\<lambda>error. ret [idea])))"

definition mineBatch_among ::
    "interference \<Rightarrow> env \<Rightarrow> Transcript list \<Rightarrow> ContentIdea list io" where
  "mineBatch_among others E batch =
     try_catch
       (bnd (mineContentIdeas_among others E batch) (\<lambda>newIdeas.
          collect (recordMinedIdea_among others E) newIdeas))
       (\<lambda>error. ret [])"

definition mineFromTranscripts_among ::
    "interference \<Rightarrow> env \<Rightarrow> Transcript list \<Rightarrow> ContentIdea list io" where
  "mineFromTranscripts_among others E ts =
     (if ts = [] then ret []
      else
        bnd (gets (\<lambda>s. filter (\<lambda>t. t_id t \<notin> minedTranscriptIds s) ts)) (\<lambda>unmined.
          if unmined = [] then ret []
          else
            bnd (collect (fetchContent_among others E) unmined) (\<lambda>withContent.
              if withContent = [] then ret []
              else collect (mineBatch_among others E)
                     (slices 10 (map truncateContent withContent)))))"

subsection \<open>Reading and updating the registry\<close>

definition getUnprocessedIdeas :: "state \<Rightarrow> ContentIdea list" where
  "getUnprocessedIdeas s = filter (\<lambda>idea. i_status idea = Extracted) (map snd (ideas s))"

definition getIdea :: "state \<Rightarrow> string \<Rightarrow> ContentIdea option" where
  "getIdea s ident = map_of (ideas s) ident"

text \<open>Newest first; \<^verbatim>\<open>Array.prototype.sort\<close> is stable.\<close>

definition getAllIdeas :: "state \<Rightarrow> ContentIdea list" where
  "getAllIdeas s = sort_key (\<lambda>idea. - int (i_createdAt idea)) (map snd (ideas s))"

definition updateIdeaStatus :: "env \<Rightarrow> string \<Rightarrow> IdeaStatus \<Rightarrow> unit io" where
  "updateIdeaStatus E ident st =
     bnd (gets (\<lambda>s. getIdea s ident)) (\<lambda>found.
       case found of
         None \<Rightarrow> ret ()
       | Some idea \<Rightarrow>
           seq (modify (\<lambda>s. s\<lparr>ideas := AList.update ident (idea\<lparr>i_status := st\<rparr>) (ideas s)\<rparr>))
             (case i_notionPageId idea of
                None \<Rightarrow> ret ()
              | Some pageId \<Rightarrow>
                  if pageId \<noteq> [] then
                    try_catch
                      (call (UpdatePageStatus pageId (IdeaPage st))
                         (\<lambda>n. updatePageStatus E n pageId (IdeaPage st)))
                      (\<lambda>error. ret ())
                  else ret ()))"

subsection \<open>The batches submitted to the drafting service\<close>

text \<open>The batches of the extraction requests in a log, oldest first.\<close>

definition extractBatches :: "(request \<times> state) list \<Rightarrow> Transcript list list" where
  "extractBatches cs = concat (map (\<lambda>(rq, s). case rq of ExtractIdeas b \<Rightarrow> [b] | _ \<Rightarrow> []) cs)"

lemma extractBatches_append [simp]:
  "extractBatches (xs @ ys) = extractBatches xs @ extractBatches ys"
  by (simp add: extractBatches_def)

lemma extractBatches_simps [simp]:
  "extractBatches [] = []"
  "extractBatches [(ExtractIdeas b, s)] = [b]"
  "extractBatches [(SaveContentIdea i, s)] = []"
  "extractBatches [(LoadTranscriptContent p, s)] = []"
  "extractBatches [(LoadContentIdeas, s)] = []"
  "extractBatches [(UpdatePageStatus p st, s)] = []"
  by (simp_all add: extractBatches_def)

text \<open>The ideas handed to the record store in a log, oldest first.\<close>

definition savedIdeas :: "(request \<times> state) list \<Rightarrow> ContentIdea list" where
  "savedIdeas cs = concat (map (\<lambda>(rq, s). case rq of SaveContentIdea i \<Rightarrow> [i] | _ \<Rightarrow> []) cs)"

text \<open>The batches of the extraction requests in a log, each with the state visible at its submission.\<close>

definition submissions :: "(request \<times> state) list \<Rightarrow> (Transcript list \<times> state) list" where
  "submissions cs = concat (map (\<lambda>(rq, s). case rq of ExtractIdeas b \<Rightarrow> [(b, s)] | _ \<Rightarrow> []) cs)"

subsection \<open>Sequences of calls\<close>

text \<open>
  The public methods of \<^verbatim>\<open>ContentMiner\<close> that write its fields, called one after the
  other, each running to its end; what a call returns is dropped.
\<close>

datatype miner_call =
    LoadFromNotion "string list option"
  | QueueTranscript Transcript
  | MineFromTranscripts "Transcript list"
  | UpdateIdeaStatus string IdeaStatus

fun runCall :: "env \<Rightarrow> miner_call \<Rightarrow> sys \<Rightarrow> sys" where
  "runCall E (LoadFromNotion a) \<sigma> = snd (loadFromNotion E a \<sigma>)"
| "runCall E (QueueTranscript t) \<sigma> = snd (queueTranscript E t \<sigma>)"
| "runCall E (MineFromTranscripts ts) \<sigma> = snd (mineFromTranscripts E ts \<sigma>)"
| "runCall E (UpdateIdeaStatus i st) \<sigma> = snd (updateIdeaStatus E i st \<sigma>)"

fun runCalls :: "env \<Rightarrow> miner_call list \<Rightarrow> sys \<Rightarrow> sys" where
  "runCalls E [] \<sigma> = \<sigma>"
| "runCalls E (c # cs) \<sigma> = runCalls E cs (runCall E c \<sigma>)"

text \<open>The batches submitted between two moments.\<close>

definition newBatches :: "world \<Rightarrow> world \<Rightarrow> Transcript list list" where
  "newBatches w w' = drop (length (extractBatches (calls w))) (extractBatches (calls w'))"

section \<open>The transcript cache (TranscriptStore)\<close>

text \<open>\<^verbatim>\<open>save\<close>: a transcript that is already cached is left alone.\<close>

definition save :: "env \<Rightarrow> Transcript \<Rightarrow> unit io" where
  "save E t =
     bnd (gets (\<lambda>s. map_of (transcripts s) (t_id t))) (\<lambda>cached.
       case cached of
         Some old \<Rightarrow> ret ()
       | None \<Rightarrow>
           seq (modify (\<lambda>s. s\<lparr>transcripts := AList.update (t_id t) t (transcripts s)\<rparr>))
             (try_catch
                (bnd (call (SaveTranscript t) (\<lambda>n. saveTranscript E n t)) (\<lambda>pageId.
                   modify (\<lambda>s. s\<lparr>transcripts :=
                     AList.update (t_id t) (t\<lparr>t_notionPageId := Some pageId\<rparr>) (transcripts s)\<rparr>)))
                (\<lambda>error. ret ())))"

text \<open>\<^verbatim>\<open>TranscriptStore.loadFromNotion\<close>\<close>

definition loadTranscriptsFromNotion :: "env \<Rightarrow> unit io" where
  "loadTranscriptsFromNotion E =
     try_catch
       (bnd (call LoadTranscripts (loadTranscripts E)) (\<lambda>loaded.
          modify (\<lambda>s. s\<lparr>transcripts :=
            foldl (\<lambda>al t. AList.update (t_id t) t al) (transcripts s) loaded\<rparr>)))
       (\<lambda>error. ret ())"

text \<open>
  \<^verbatim>\<open>getRecent\<close>, newest first; a day is taken as 86400000 milliseconds.
\<close>

definition getRecent :: "env \<Rightarrow> nat \<Rightarrow> Transcript list io" where
  "getRecent E days =
     bnd (clock E) (\<lambda>t.
       gets (\<lambda>s. sort_key (\<lambda>x. - int (t_date x))
                   (filter (\<lambda>x. t \<le> t_date x + days * 86400000) (map snd (transcripts s)))))"

section \<open>The drafting service's other operations (AIBrain)\<close>

definition generateInterviewOpener :: "env \<Rightarrow> ContentIdea \<Rightarrow> string io" where
  "generateInterviewOpener E idea = call (OpenerText idea) (\<lambda>n. openerText E n idea)"

definition generateFollowUp :: "env \<Rightarrow> ContentIdea \<Rightarrow> InterviewMessage list \<Rightarrow> string io" where
  "generateFollowUp E idea msgs = call (FollowUpText idea msgs) (\<lambda>n. followUpText E n idea msgs)"

text \<open>
  The answer of the judging request is the text of the first content block, or nothing
  when that block is not text (the code then takes \<^verbatim>\<open>'no'\<close>).
\<close>

definition hasEnoughMaterial :: "env \<Rightarrow> InterviewMessage list \<Rightarrow> bool io" where
  "hasEnoughMaterial E msgs =
     (if length msgs < 4 then ret False
      else if length msgs \<ge> 10 then ret True
      else bnd (call (JudgeMaterial msgs) (\<lambda>n. judgeText E n msgs)) (\<lambda>answer.
             ret (includesStr
                    (case answer of Some text \<Rightarrow> trim (toLowerCase text) | None \<Rightarrow> ''no'')
                    ''yes'')))"

definition generateDraft ::
    "env \<Rightarrow> ContentIdea \<Rightarrow> InterviewMessage list \<Rightarrow> ContentFormat \<Rightarrow> ContentDraft io" where
  "generateDraft E idea msgs fmt =
     bnd (call (DraftText idea msgs fmt) (\<lambda>n. draftText E n idea msgs)) (\<lambda>text.
     bnd (clock E) (\<lambda>t.
     ret \<lparr>d_id = ''draft-'' @ dec t, d_ideaId = i_id idea, d_format = fmt, d_title = hook idea,
          d_body = text, d_version = 1, d_status = Draft, d_createdAt = t,
          d_notionPageId = None\<rparr>))"

definition reworkDraft :: "env \<Rightarrow> string \<Rightarrow> string \<Rightarrow> ContentFormat \<Rightarrow> string io" where
  "reworkDraft E originalBody feedback fmt =
     call (ReworkText originalBody feedback fmt) (\<lambda>n. reworkText E n originalBody feedback)"

definition syndicateToXThread :: "env \<Rightarrow> string \<Rightarrow> string io" where
  "syndicateToXThread E linkedinPost = call (ThreadText linkedinPost) (\<lambda>n. threadText E n linkedinPost)"

section \<open>The session machine (SlackBot)\<close>

text \<open>
  The wording of the bot's fixed messages is abbreviated; texts that come from the
  drafting service or from a draft are passed as they are.
\<close>

definition chatPost :: "env \<Rightarrow> string \<Rightarrow> string \<Rightarrow> string option \<Rightarrow> string option io" where
  "chatPost E channel text thread =
     call (PostMessage \<lparr>p_channel = channel, p_text = text, p_thread_ts = thread\<rparr>)
       (\<lambda>n. postMessage E n \<lparr>p_channel = channel, p_text = text, p_thread_ts = thread\<rparr>)"

text \<open>The closure \<^verbatim>\<open>say\<close> of the message handler, and a post whose result is dropped.\<close>

definition say :: "env \<Rightarrow> string \<Rightarrow> string \<Rightarrow> string option \<Rightarrow> unit io" where
  "say E channel text thread = bnd (chatPost E channel text thread) (\<lambda>_. ret ())"

text \<open>
  A session object is the entry of the session table it was stored under; a write to
  the object is a write to that entry.
\<close>

definition updSession :: "string \<Rightarrow> (InterviewSession \<Rightarrow> InterviewSession) \<Rightarrow> unit io" where
  "updSession k f = modify (\<lambda>s. s\<lparr>activeSessions := AList.map_entry k f (activeSessions s)\<rparr>)"

text \<open>A chat transport that delivers every message.\<close>

definition chatNeverFails :: "env \<Rightarrow> bool" where
  "chatNeverFails E = (\<forall>n p. \<exists>ts. postMessage E n p = Inr ts)"

subsection \<open>sendContentPing\<close>

definition sendContentPing :: "env \<Rightarrow> ContentIdea \<Rightarrow> unit io" where
  "sendContentPing E idea =
     bnd (generateInterviewOpener E idea) (\<lambda>opener.
     bnd (chatPost E (slackUserId E) opener None) (\<lambda>ts.
       case ts of
         None \<Rightarrow> ret ()
       | Some threadTs \<Rightarrow>
           if threadTs = [] then ret ()
           else
             bnd (clock E) (\<lambda>t.
             seq (modify (\<lambda>s. s\<lparr>activeSessions :=
                    AList.update threadTs
                      \<lparr>s_id = ''session-'' @ dec t, s_ideaId = i_id idea,
                       slackThreadTs = threadTs,
                       s_messages = [\<lparr>m_role = Agent, m_content = opener, m_timestamp = t\<rparr>],
                       s_status = Active, startedAt = t, completedAt = None\<rparr>
                      (activeSessions s)\<rparr>))
               (updateIdeaStatus E (i_id idea) Interviewing))))"

subsection \<open>sendDraftNotification\<close>

definition newline :: char where
  "newline = CHR 0x0A"

text \<open>\<^verbatim>\<open>body.split('\n\n')\<close>; the first argument is the piece being read.\<close>

fun splitParagraphs :: "string \<Rightarrow> string \<Rightarrow> string list" where
  "splitParagraphs cur [] = [cur]"
| "splitParagraphs cur [c] = [cur @ [c]]"
| "splitParagraphs cur (c # d # cs) =
     (if c = newline \<and> d = newline then cur # splitParagraphs [] cs
      else splitParagraphs (cur @ [c]) (d # cs))"

text \<open>The loop that packs paragraphs into chunks of at most 3500; the second argument is \<^verbatim>\<open>current\<close>.\<close>

fun packParagraphs :: "string list \<Rightarrow> string \<Rightarrow> string list" where
  "packParagraphs [] current = (if trim current \<noteq> [] then [trim current] else [])"
| "packParagraphs (para # paras) current =
     (if length (current @ [newline, newline] @ para) > 3500 \<and> length current > 0
      then trim current # packParagraphs paras para
      else packParagraphs paras
             (if current \<noteq> [] then current @ [newline, newline] @ para else para))"

definition draftChunks :: "string \<Rightarrow> string list" where
  "draftChunks body =
     (if length body \<le> 3500 then [body] else packParagraphs (splitParagraphs [] body) [])"

definition sendDraftNotification :: "env \<Rightarrow> ContentDraft \<Rightarrow> ContentIdea \<Rightarrow> unit io" where
  "sendDraftNotification E draft idea =
     bnd (chatPost E (slackUserId E) (''Draft Ready: '' @ hook idea) None) (\<lambda>threadTs.
     seq (forEach (\<lambda>chunk. say E (slackUserId E) chunk threadTs) (draftChunks (d_body draft)))
    (seq (say E (slackUserId E) ''What do you want to do with this draft?'' threadTs)
         (modify (\<lambda>s. s\<lparr>pendingDrafts := (pendingDrafts s)(d_id draft \<mapsto> draft)\<rparr>))))"

text \<open>
  \<^verbatim>\<open>try { draft.notionPageId = await this.notion.saveContentDraft(draft) } catch { }\<close>: the
  draft as it is afterwards.
\<close>

definition persistDraft :: "env \<Rightarrow> ContentDraft \<Rightarrow> ContentDraft io" where
  "persistDraft E draft =
     try_catch
       (bnd (call (SaveContentDraft draft) (\<lambda>n. saveContentDraft E n draft)) (\<lambda>pageId.
          ret (draft\<lparr>d_notionPageId := Some pageId\<rparr>)))
       (\<lambda>error. ret draft)"

subsection \<open>handleInterviewReply\<close>

text \<open>The branch that drafts: \<open>msgs\<close> are the session's messages, \<open>k\<close> is its entry.\<close>

definition produceDraft ::
    "env \<Rightarrow> string \<Rightarrow> ContentIdea \<Rightarrow> InterviewMessage list \<Rightarrow> string \<Rightarrow> string \<Rightarrow> unit io" where
  "produceDraft E k idea msgs threadTs channel =
     seq (say E channel ''I think I have enough. Let me draft something up...'' (Some threadTs))
    (bnd (clock E) (\<lambda>t.
     seq (updSession k (\<lambda>x. x\<lparr>s_status := Completed, completedAt := Some t\<rparr>))
    (bnd (generateDraft E idea msgs (suggestedFormat idea)) (\<lambda>draft.
     bnd (persistDraft E draft) (\<lambda>saved.
     seq (updateIdeaStatus E (i_id idea) Draft_ready)
    (seq (sendDraftNotification E saved idea)
         (if suggestedFormat idea = Linkedin_post then
            bnd (syndicateToXThread E (d_body saved)) (\<lambda>xThread.
              say E (slackUserId E) xThread None)
          else ret ())))))))"

text \<open>The branch that asks on.\<close>

definition askFollowUp ::
    "env \<Rightarrow> string \<Rightarrow> ContentIdea \<Rightarrow> InterviewMessage list \<Rightarrow> string \<Rightarrow> string \<Rightarrow> unit io" where
  "askFollowUp E k idea msgs threadTs channel =
     bnd (generateFollowUp E idea msgs) (\<lambda>followUp.
     bnd (clock E) (\<lambda>t.
     seq (updSession k (\<lambda>x. x\<lparr>s_messages := s_messages x
            @ [\<lparr>m_role = Agent, m_content = followUp, m_timestamp = t\<rparr>]\<rparr>))
         (say E channel followUp (Some threadTs))))"

definition handleInterviewReply ::
    "env \<Rightarrow> string \<Rightarrow> InterviewSession \<Rightarrow> string \<Rightarrow> string \<Rightarrow> string \<Rightarrow> unit io" where
  "handleInterviewReply E k session userMessage threadTs channel =
     bnd (clock E) (\<lambda>t.
     seq (updSession k (\<lambda>x. x\<lparr>s_messages := s_messages x
            @ [\<lparr>m_role = User, m_content = userMessage, m_timestamp = t\<rparr>]\<rparr>))
    (bnd (gets (\<lambda>s. getIdea s (s_ideaId session))) (\<lambda>found.
       case found of
         None \<Rightarrow> ret ()
       | Some idea \<Rightarrow>
           bnd (hasEnoughMaterial E (s_messages session
                  @ [\<lparr>m_role = User, m_content = userMessage, m_timestamp = t\<rparr>])) (\<lambda>hasEnough.
             if hasEnough
             then produceDraft E k idea (s_messages session
                    @ [\<lparr>m_role = User, m_content = userMessage, m_timestamp = t\<rparr>]) threadTs channel
             else askFollowUp E k idea (s_messages session
                    @ [\<lparr>m_role = User, m_content = userMessage, m_timestamp = t\<rparr>]) threadTs channel))))"

subsection \<open>handleReworkFeedback\<close>

text \<open>The object literal \<^verbatim>\<open>{ ...draft, id, body, version: draft.version + 1, status, createdAt }\<close>.\<close>

definition reworkedDraft :: "ContentDraft \<Rightarrow> string \<Rightarrow> nat \<Rightarrow> ContentDraft" where
  "reworkedDraft draft reworkedBody t =
     draft\<lparr>d_id := ''draft-'' @ dec t, d_body := reworkedBody, d_version := d_version draft + 1,
           d_status := Draft, d_createdAt := t\<rparr>"

text \<open>The idea handed to the notification when the registry no longer has it.\<close>

definition standInIdea :: "Rework \<Rightarrow> ContentDraft \<Rightarrow> ContentIdea" where
  "standInIdea rework draft =
     \<lparr>i_id = r_ideaId rework, sourceTranscriptIds = [], theme = [], hook = d_title draft,
      rawQuotes = [], suggestedFormat = d_format draft, i_status = Draft_ready,
      i_createdAt = d_createdAt draft, i_notionPageId = None\<rparr>"

definition handleReworkFeedback :: "env \<Rightarrow> string \<Rightarrow> string \<Rightarrow> unit io" where
  "handleReworkFeedback E feedback channel =
     bnd (gets pendingRework) (\<lambda>pending.
       case pending of
         None \<Rightarrow> ret ()
       | Some rework \<Rightarrow>
           seq (modify (\<lambda>s. s\<lparr>pendingRework := None\<rparr>))
          (bnd (gets (\<lambda>s. pendingDrafts s (r_draftId rework))) (\<lambda>cached.
             case cached of
               None \<Rightarrow> say E channel ''Could not find the original draft.'' None
             | Some draft \<Rightarrow>
                 bnd (gets (\<lambda>s. getIdea s (r_ideaId rework))) (\<lambda>idea.
                 seq (say E channel ''Reworking the draft with your feedback...'' None)
                   (try_catch
                      (bnd (reworkDraft E (d_body draft) feedback (d_format draft)) (\<lambda>reworkedBody.
                       bnd (clock E) (\<lambda>t.
                       bnd (persistDraft E (reworkedDraft draft reworkedBody t)) (\<lambda>newDraft.
                       sendDraftNotification E newDraft
                         (case idea of Some i \<Rightarrow> i | None \<Rightarrow> standInIdea rework draft)))))
                      (\<lambda>error. say E channel ''Failed to rework the draft.'' None))))))"

subsection \<open>Commands\<close>

text \<open>
  \<^verbatim>\<open>getLatestActiveSession\<close>: the first of the active sessions with the greatest start
  time, with the entry it is stored under.
\<close>

definition getLatestActiveSession :: "state \<Rightarrow> (string \<times> InterviewSession) option" where
  "getLatestActiveSession s =
     foldl (\<lambda>latest (k, session).
              if s_status session \<noteq> Active then latest
              else (case latest of
                      None \<Rightarrow> Some (k, session)
                    | Some (k', l) \<Rightarrow>
                        if startedAt session > startedAt l then Some (k, session) else latest))
       None (activeSessions s)"

definition handleStatusCommand :: "env \<Rightarrow> string \<Rightarrow> unit io" where
  "handleStatusCommand E channel =
     bnd (getRecent E 7) (\<lambda>recent. say E channel ''Content Agent Status'' None)"

definition handleIdeasCommand :: "env \<Rightarrow> string \<Rightarrow> unit io" where
  "handleIdeasCommand E channel =
     bnd (gets getUnprocessedIdeas) (\<lambda>found.
       if found = [] then say E channel ''No unprocessed ideas right now.'' None
       else seq (modify (\<lambda>s. s\<lparr>lastShownIdeas := take 10 found\<rparr>))
              (say E channel ''Content Ideas Ready for Interview'' None))"

definition handleMineCommand :: "env \<Rightarrow> string \<Rightarrow> unit io" where
  "handleMineCommand E channel =
     bnd (getRecent E 90) (\<lambda>recent.
       if recent = [] then say E channel ''No recent transcripts to mine.'' None
       else
         seq (say E channel ''Mining recent transcripts for content ideas...'' None)
        (bnd (mineFromTranscripts E recent) (\<lambda>found.
           if found = [] then say E channel ''Did not find any strong content ideas this time.'' None
           else seq (modify (\<lambda>s. s\<lparr>lastShownIdeas := found\<rparr>))
                  (say E channel ''Found content ideas'' None))))"

definition handleHelpCommand :: "env \<Rightarrow> string \<Rightarrow> unit io" where
  "handleHelpCommand E channel = say E channel ''Content Agent Commands'' None"

text \<open>\<^verbatim>\<open>s.replace(pat, rep)\<close> with a string pattern: the first occurrence only.\<close>

fun replaceFirst :: "string \<Rightarrow> string \<Rightarrow> string \<Rightarrow> string" where
  "replaceFirst pat rep [] = (if pat = [] then rep else [])"
| "replaceFirst pat rep (c # cs) =
     (if take (length pat) (c # cs) = pat then rep @ drop (length pat) (c # cs)
      else c # replaceFirst pat rep cs)"

definition startsWith :: "string \<Rightarrow> string \<Rightarrow> bool" where
  "startsWith s p = (take (length p) s = p)"

definition isDigit :: "char \<Rightarrow> bool" where
  "isDigit c = (c \<in> set ''0123456789'')"

definition digitValue :: "char \<Rightarrow> nat" where
  "digitValue c =
     (case map_of (zip ''0123456789'' [0, 1, 2, 3, 4, 5, 6, 7, 8, 9]) c of
        Some v \<Rightarrow> v | None \<Rightarrow> 0)"

text \<open>\<^verbatim>\<open>/^\d{1,2}$/.test(s)\<close>\<close>

definition isNumber :: "string \<Rightarrow> bool" where
  "isNumber s = (s \<noteq> [] \<and> length s \<le> 2 \<and> list_all isDigit s)"

text \<open>
  \<^verbatim>\<open>parseInt(s, 10)\<close> on a trimmed string of \<^verbatim>\<open>[a-z0-9 ]\<close>: the leading digits, or
  \<^verbatim>\<open>NaN\<close> when there is none.
\<close>

definition parseInt :: "string \<Rightarrow> nat option" where
  "parseInt s =
     (if takeWhile isDigit s = [] then None
      else Some (foldl (\<lambda>n c. 10 * n + digitValue c) 0 (takeWhile isDigit s)))"

text \<open>\<^verbatim>\<open>list[i]\<close>, undefined out of range.\<close>

definition at :: "'a list \<Rightarrow> nat \<Rightarrow> 'a option" where
  "at xs i = (if i < length xs then Some (xs ! i) else None)"

text \<open>The end of \<^verbatim>\<open>handleDraftCommand\<close> for an input that is not a position: exact, then fuzzy.\<close>

definition startByIdentifier :: "env \<Rightarrow> string \<Rightarrow> string \<Rightarrow> unit io" where
  "startByIdentifier E input channel =
     bnd (gets (\<lambda>s. getIdea s input)) (\<lambda>found.
       case found of
         Some idea \<Rightarrow> sendContentPing E idea
       | None \<Rightarrow>
           bnd (gets getAllIdeas) (\<lambda>allIdeas.
             case List.find (\<lambda>i. includesStr (i_id i) input \<or> includesStr input (i_id i)) allIdeas of
               Some fuzzyMatch \<Rightarrow> sendContentPing E fuzzyMatch
             | None \<Rightarrow> say E channel ''Cannot find idea with that ID.'' None))"

definition handleDraftCommand :: "env \<Rightarrow> string \<Rightarrow> string \<Rightarrow> unit io" where
  "handleDraftCommand E command channel =
     (case parseInt (trim (replaceFirst ''draft '' [] command)) of
        None \<Rightarrow> startByIdentifier E (trim (replaceFirst ''draft '' [] command)) channel
      | Some num \<Rightarrow>
          if 1 \<le> num \<and> num \<le> 99 then
            bnd (gets (\<lambda>s. if lastShownIdeas s \<noteq> [] then lastShownIdeas s else getAllIdeas s))
              (\<lambda>shown.
                case at shown (num - 1) of
                  None \<Rightarrow> say E channel ''No idea at that position.'' None
                | Some idea \<Rightarrow> sendContentPing E idea)
          else startByIdentifier E (trim (replaceFirst ''draft '' [] command)) channel)"

definition handleCommand :: "env \<Rightarrow> string \<Rightarrow> string \<Rightarrow> unit io" where
  "handleCommand E text channel =
     (let command = normalizeHook text in
      if command = ''stop'' \<or> command = ''done'' then
        bnd (gets getLatestActiveSession) (\<lambda>latest.
          case latest of
            Some (k, session) \<Rightarrow>
              seq (updSession k (\<lambda>x. x\<lparr>s_status := Abandoned\<rparr>))
                (say E channel ''Interview stopped.'' None)
          | None \<Rightarrow> say E channel ''No active interview to stop.'' None)
      else if command = ''status'' \<or> command = ''what do you have'' then handleStatusCommand E channel
      else if command = ''ideas'' \<or> command = ''show ideas'' then handleIdeasCommand E channel
      else if command = ''mine'' \<or> command = ''find content'' then handleMineCommand E channel
      else if startsWith command ''draft '' \<or> isNumber command then handleDraftCommand E command channel
      else if command = ''help'' then handleHelpCommand E channel
      else say E channel ''Noted.'' None)"

subsection \<open>The message handler\<close>

record slack_message =
  sm_subtype :: "string option"
  sm_text :: "string option"
  sm_bot_id :: "string option"
  sm_user :: "string option"
  sm_thread_ts :: "string option"
  sm_ts :: string
  sm_channel :: string

text \<open>
  Where the handler sends a message, decided from the state without a suspension: the
  chain of conditions inside its \<^verbatim>\<open>try\<close>. \<open>threadTs\<close> is \<^verbatim>\<open>msg.thread_ts || msg.ts\<close> and
  \<open>threaded\<close> says whether \<^verbatim>\<open>msg.thread_ts\<close> is set.
\<close>

datatype route =
    ThreadReply string InterviewSession
  | LatestReply string InterviewSession
  | CancelRework
  | ReworkFeedback
  | CommandAfterRework
  | Command

definition routeMessage :: "state \<Rightarrow> string \<Rightarrow> bool \<Rightarrow> string \<Rightarrow> route" where
  "routeMessage s threadTs threaded userMessage =
     (let lowerMsg = normalizeHook userMessage;
          isCommand = (lowerMsg \<in> set [''stop'', ''done'', ''ideas'', ''mine'', ''status'', ''help'',
                         ''what do you have'', ''show ideas'', ''find content'']);
          isCmd = (lowerMsg \<in> set [''stop'', ''done'', ''ideas'', ''mine'', ''status'', ''help'',
                     ''cancel'']);
          inThread = (case map_of (activeSessions s) threadTs of
                        Some session \<Rightarrow> if s_status session = Active then Some session else None
                      | None \<Rightarrow> None);
          latest = (if \<not> threaded \<and> \<not> isCommand \<and> \<not> isNumber lowerMsg
                    then getLatestActiveSession s else None)
      in case inThread of
           Some session \<Rightarrow> ThreadReply threadTs session
         | None \<Rightarrow>
            (case latest of
               Some (k, session) \<Rightarrow> LatestReply k session
             | None \<Rightarrow>
                 if pendingRework s \<noteq> None then
                   (if lowerMsg = ''cancel'' then CancelRework
                    else if \<not> isCmd then ReworkFeedback
                    else CommandAfterRework)
                 else Command))"

definition dispatch :: "env \<Rightarrow> route \<Rightarrow> string \<Rightarrow> string \<Rightarrow> unit io" where
  "dispatch E r userMessage channel =
     (case r of
        ThreadReply k session \<Rightarrow> handleInterviewReply E k session userMessage k channel
      | LatestReply k session \<Rightarrow>
          handleInterviewReply E k session userMessage (slackThreadTs session) channel
      | CancelRework \<Rightarrow>
          seq (modify (\<lambda>s. s\<lparr>pendingRework := None\<rparr>))
            (say E channel ''Rework cancelled. What would you like to do?'' None)
      | ReworkFeedback \<Rightarrow> handleReworkFeedback E userMessage channel
      | CommandAfterRework \<Rightarrow>
          seq (modify (\<lambda>s. s\<lparr>pendingRework := None\<rparr>)) (handleCommand E userMessage channel)
      | Command \<Rightarrow> handleCommand E userMessage channel)"

definition threadOf :: "slack_message \<Rightarrow> string" where
  "threadOf msg = (case sm_thread_ts msg of
                     Some t \<Rightarrow> if t \<noteq> [] then t else sm_ts msg
                   | None \<Rightarrow> sm_ts msg)"

definition onMessage :: "env \<Rightarrow> slack_message option \<Rightarrow> unit io" where
  "onMessage E event =
     seq (call Ack (ack E))
       (case event of
          None \<Rightarrow> ret ()
        | Some msg \<Rightarrow>
            bnd (gets botUserId) (\<lambda>bot.
              if truthy (sm_subtype msg) then ret ()
              else if \<not> truthy (sm_text msg) then ret ()
              else if truthy (sm_bot_id msg) then ret ()
              else if truthy bot \<and> sm_user msg = bot then ret ()
              else if truthy (sm_user msg) \<and> sm_user msg \<noteq> Some (slackUserId E) then ret ()
              else
                (case sm_text msg of
                   None \<Rightarrow> ret ()
                 | Some text \<Rightarrow>
                     try_catch
                       (bnd (gets (\<lambda>s. routeMessage s (threadOf msg) (truthy (sm_thread_ts msg))
                                         (stripSlackFormatting E text))) (\<lambda>r.
                          dispatch E r (stripSlackFormatting E text) (sm_channel msg)))
                       (\<lambda>error.
                          try_catch (say E (sm_channel msg) ''Something went wrong processing that.'' None)
                            (\<lambda>sayErr. ret ())))))"

subsection \<open>The button handler\<close>

record action =
  action_id :: string
  action_value :: "string option"

record payload =
  payload_type :: string
  payload_actions :: "action list"

text \<open>One round of the loop over the clicked buttons.\<close>

definition handleAction :: "env \<Rightarrow> action \<Rightarrow> unit io" where
  "handleAction E a =
     (if action_id a = ''approve_draft'' then
        (case action_value a of
           None \<Rightarrow> ret ()
         | Some v \<Rightarrow>
             if v = [] then ret ()
             else
               bnd (gets (\<lambda>s. pendingDrafts s v)) (\<lambda>cached.
                 case cached of
                   Some draft \<Rightarrow>
                     seq (modify (\<lambda>s. s\<lparr>pendingDrafts :=
                            (pendingDrafts s)(v \<mapsto> draft\<lparr>d_status := Approved\<rparr>)\<rparr>))
                    (seq (case d_notionPageId draft of
                            None \<Rightarrow> ret ()
                          | Some pageId \<Rightarrow>
                              if pageId \<noteq> [] then
                                call (UpdatePageStatus pageId (DraftPage Approved))
                                  (\<lambda>n. updatePageStatus E n pageId (DraftPage Approved))
                              else ret ())
                         (say E (slackUserId E) ''Draft approved.'' None))
                 | None \<Rightarrow> say E (slackUserId E) ''Could not find that draft.'' None))
      else if action_id a = ''rework_draft'' then
        bnd (gets (\<lambda>s. case action_value a of
                          None \<Rightarrow> None
                        | Some v \<Rightarrow> if v = [] then None else pendingDrafts s v)) (\<lambda>cached.
          case cached of
            Some draft \<Rightarrow>
              seq (modify (\<lambda>s. s\<lparr>pendingRework :=
                     Some \<lparr>r_draftId = d_id draft, r_ideaId = d_ideaId draft\<rparr>\<rparr>))
                (say E (slackUserId E) ''Got it. Reply with your feedback.'' None)
          | None \<Rightarrow> say E (slackUserId E) ''Could not find that draft.'' None)
      else if action_id a = ''syndicate_x'' then
        (case action_value a of
           None \<Rightarrow> ret ()
         | Some v \<Rightarrow>
             if v = [] then ret ()
             else
               bnd (gets (\<lambda>s. pendingDrafts s v)) (\<lambda>cached.
                 case (case cached of
                         Some draft \<Rightarrow> if d_format draft = Linkedin_post then Some draft else None
                       | None \<Rightarrow> None) of
                   Some draft \<Rightarrow>
                     bnd (syndicateToXThread E (d_body draft)) (\<lambda>xThread.
                       say E (slackUserId E) xThread None)
                 | None \<Rightarrow> say E (slackUserId E) ''Syndication works best with LinkedIn posts.'' None))
      else ret ())"

definition onInteractive :: "env \<Rightarrow> payload option \<Rightarrow> unit io" where
  "onInteractive E event =
     seq (call Ack (ack E))
       (try_catch
          (case event of
             None \<Rightarrow> ret ()
           | Some p \<Rightarrow>
               if payload_type p \<noteq> ''block_actions'' then ret ()
               else forEach (handleAction E) (payload_actions p))
          (\<lambda>error.
             try_catch (say E (slackUserId E) ''Something went wrong with that action.'' None)
               (\<lambda>e. ret ())))"

subsection \<open>Counting sessions\<close>



text \<open>A session table whose keys are distinct and whose sessions sit under their own anchor.\<close>

definition keyed :: "(string \<times> InterviewSession) list \<Rightarrow> bool" where
  "keyed al = (distinct (map fst al) \<and> list_all (\<lambda>(k, x). slackThreadTs x = k) al)"

subsection \<open>The drafts of an idea\<close>

text \<open>The drafts handed to the record store in a log, oldest first: every draft the bot made.\<close>

definition savedDrafts :: "(request \<times> state) list \<Rightarrow> ContentDraft list" where
  "savedDrafts cs = concat (map (\<lambda>(rq, s). case rq of SaveContentDraft d \<Rightarrow> [d] | _ \<Rightarrow> []) cs)"

text \<open>
  \<open>known saved d\<close>: a draft of the same idea, format and version was saved.
  \<open>rooted saved d\<close>: \<open>d\<close> is a first version, or a draft of the same idea and format was
  saved one version below. \<open>lineal\<close>: every saved draft is rooted and every cached draft is
  known.
\<close>

definition known :: "ContentDraft list \<Rightarrow> ContentDraft \<Rightarrow> bool" where
  "known saved d = (\<exists>d0 \<in> set saved. d_ideaId d0 = d_ideaId d \<and> d_format d0 = d_format d
                       \<and> d_version d0 = d_version d)"

definition rooted :: "ContentDraft list \<Rightarrow> ContentDraft \<Rightarrow> bool" where
  "rooted saved d = (d_version d = 1
     \<or> (\<exists>d0 \<in> set saved. d_ideaId d0 = d_ideaId d \<and> d_format d0 = d_format d
                          \<and> d_version d0 + 1 = d_version d))"

definition lineal :: "(string \<rightharpoonup> ContentDraft) \<Rightarrow> ContentDraft list \<Rightarrow> bool" where
  "lineal cache saved = ((\<forall>d \<in> set saved. rooted saved d) \<and> (\<forall>d \<in> ran cache. known saved d))"

subsection \<open>What a handler lets others see\<close>

text \<open>The requests made between two moments, each with the state visible while it was in flight.\<close>

definition newCalls :: "world \<Rightarrow> world \<Rightarrow> (request \<times> state) list" where
  "newCalls w w' = drop (length (calls w)) (calls w')"

text \<open>
  \<open>quiet Q base\<close>: the present state satisfies \<open>Q\<close>, the log extends \<open>base\<close>, and so does
  every state that was visible at a request made since \<open>base\<close>.
\<close>

definition quiet :: "(state \<Rightarrow> bool) \<Rightarrow> (request \<times> state) list \<Rightarrow> sys \<Rightarrow> bool" where
  "quiet Q base \<sigma> =
     (Q (fst \<sigma>) \<and> take (length base) (calls (snd \<sigma>)) = base
      \<and> list_all (\<lambda>c. Q (snd c)) (drop (length base) (calls (snd \<sigma>))))"

section \<open>The content cycle (Scheduler.runContentCycle)\<close>

text \<open>
  The cycle after its opening poll: pick the first unprocessed idea, or mine the last
  seven days and pick the first idea found, and ping it. The poll itself
  (\<^verbatim>\<open>TldvService.pollNewMeetings\<close>) catches its own errors; what it does to the state is
  to save and to queue the transcripts it found, which are events of their own below.
\<close>

definition runContentCycle :: "env \<Rightarrow> unit io" where
  "runContentCycle E =
     try_catch
       (bnd (gets getUnprocessedIdeas) (\<lambda>unprocessed.
          case unprocessed of
            bestIdea # others \<Rightarrow> sendContentPing E bestIdea
          | [] \<Rightarrow>
              bnd (getRecent E 7) (\<lambda>recentTranscripts.
                if recentTranscripts = [] then ret ()
                else
                  bnd (mineFromTranscripts E recentTranscripts) (\<lambda>mined.
                    case mined of
                      [] \<Rightarrow> ret ()
                    | bestIdea # others \<Rightarrow> sendContentPing E bestIdea))))
       (\<lambda>error. ret ())"

section \<open>Events\<close>

text \<open>
  What happens to the process: a chat message, a button click, a firing of the content
  cycle, a call of \<^verbatim>\<open>sendContentPing\<close> by another component, a call of a method of the
  miner (from the scheduler, the transcript poller or the start-up code), or a call of a
  method of the transcript cache. Each handler runs to its end before the next event.
\<close>

datatype store_call = Save Transcript | LoadTranscriptsFromNotion

datatype event =
    Message "slack_message option"
  | Interactive "payload option"
  | ContentCycle
  | ContentPing ContentIdea
  | Miner miner_call
  | Store store_call

fun step :: "env \<Rightarrow> event \<Rightarrow> sys \<Rightarrow> sys" where
  "step E (Message m) \<sigma> = snd (onMessage E m \<sigma>)"
| "step E (Interactive p) \<sigma> = snd (onInteractive E p \<sigma>)"
| "step E ContentCycle \<sigma> = snd (runContentCycle E \<sigma>)"
| "step E (ContentPing idea) \<sigma> = snd (try_catch (sendContentPing E idea) (\<lambda>error. ret ()) \<sigma>)"
| "step E (Miner c) \<sigma> = runCall E c \<sigma>"
| "step E (Store (Save t)) \<sigma> = snd (save E t \<sigma>)"
| "step E (Store LoadTranscriptsFromNotion) \<sigma> = snd (loadTranscriptsFromNotion E \<sigma>)"

fun run :: "env \<Rightarrow> event list \<Rightarrow> sys \<Rightarrow> sys" where
  "run E [] \<sigma> = \<sigma>"
| "run E (e # es) \<sigma> = run E es (step E e \<sigma>)"

subsection \<open>Sessions and the ideas they target\<close>


definition targets :: "(string \<times> InterviewSession) list \<Rightarrow> string set" where
  "targets tab = s_ideaId ` {x \<in> snd ` set tab. s_status x = Active}"













section \<open>A process that has just started\<close>

text \<open>The fields as the constructors leave them, and an outside that always answers.\<close>

definition state0 :: state where
  "state0 = \<lparr>ideas = [], pendingTranscripts = [], processing = False, minedTranscriptIds = {},
     knownHooks = {}, transcripts = [], activeSessions = [], pendingDrafts = Map.empty,
     lastShownIdeas = [], pendingRework = None, botUserId = None\<rparr>"

definition world0 :: world where
  "world0 = \<lparr>tick = 0, calls = []\<rparr>"

definition env0 :: env where
  "env0 = \<lparr>now = (\<lambda>n. n), extractIdeas = (\<lambda>n ts. Inr []), openerText = (\<lambda>n i. Inr ''opener''),
     followUpText = (\<lambda>n i ms. Inr ''more''), judgeText = (\<lambda>n ms. Inr (Some ''no'')),
     draftText = (\<lambda>n i ms. Inr ''body''), reworkText = (\<lambda>n b f. Inr ''reworked''),
     threadText = (\<lambda>n b. Inr ''thread''), loadContentIdeas = (\<lambda>n. Inr []),
     saveContentIdea = (\<lambda>n i. Inr ''page''), saveContentDraft = (\<lambda>n d. Inr ''page''),
     loadTranscriptContent = (\<lambda>n p. Inr []), loadTranscripts = (\<lambda>n. Inr []),
     saveTranscript = (\<lambda>n t. Inr ''page''), updatePageStatus = (\<lambda>n p st. Inr ()),
     postMessage = (\<lambda>n p. Inr (Some (dec n))), ack = (\<lambda>n. Inr ()),
     slackUserId = ''U1'', stripSlackFormatting = (\<lambda>t. t)\<rparr>"

section \<open>Example data\<close>

definition legacyIdea :: ContentIdea where
  "legacyIdea = \<lparr>i_id = ''a'', sourceTranscriptIds = [], theme = ''pricing'',
     hook = ''Hello,   World!'', rawQuotes = [], suggestedFormat = Linkedin_post,
     i_status = Extracted, i_createdAt = 0, i_notionPageId = Some ''p''\<rparr>"

definition sample :: "nat \<Rightarrow> Transcript" where
  "sample n = \<lparr>t_id = dec n, t_title = ''call'', t_date = 0,
     t_content = replicate 51 (CHR ''x''), t_notionPageId = None\<rparr>"

text \<open>A drafting service whose first answer is an error.\<close>

definition failFirst :: env where
  "failFirst = env0\<lparr>extractIdeas :=
     (\<lambda>n ts. if n = 0 then Inl (Error ''overloaded'')
             else Inr [(''pricing'', ''Hello, World!'', [], Linkedin_post)])\<rparr>"

text \<open>A drafting service that finds the same hook in every batch.\<close>

definition sameHook :: env where
  "sameHook = env0\<lparr>extractIdeas :=
     (\<lambda>n ts. Inr [(''pricing'', ''Hello, World!'', [], Linkedin_post)])\<rparr>"

text \<open>
  A transcript as \<^verbatim>\<open>NotionService.loadTranscripts\<close> returns it: no content, to be loaded on
  demand from its page; and a record store that has 51 characters of content for it.
\<close>

definition lazy :: Transcript where
  "lazy = \<lparr>t_id = ''1'', t_title = ''call'', t_date = 0, t_content = [],
     t_notionPageId = Some ''p1''\<rparr>"

definition stored :: env where
  "stored = env0\<lparr>loadTranscriptContent := (\<lambda>n p. Inr (replicate 51 (CHR ''x'')))\<rparr>"

text \<open>
  The owner's \<^verbatim>\<open>mine\<close> command while another call is suspended on its first request (moment
  0): its own call of \<^verbatim>\<open>mineFromTranscripts\<close> for the same transcript runs to its end.
\<close>

definition mineCommand :: interference where
  "mineCommand n s =
     (if n = 0 then fst (snd (mineFromTranscripts stored [lazy] (s, \<lparr>tick = 1, calls = []\<rparr>)))
      else s)"

text \<open>A direct message of the owner, outside any thread.\<close>

definition dm :: "string \<Rightarrow> string \<Rightarrow> event" where
  "dm ts text = Message (Some \<lparr>sm_subtype = None, sm_text = Some text, sm_bot_id = None,
     sm_user = Some ''U1'', sm_thread_ts = None, sm_ts = ts, sm_channel = ''D1''\<rparr>)"

text \<open>A registry with one idea.\<close>

definition withIdea :: state where
  "withIdea = state0\<lparr>ideas := [(''a'', legacyIdea)]\<rparr>"

text \<open>An interview that has nine messages and gets its tenth.\<close>

definition aMessage :: InterviewMessage where
  "aMessage = \<lparr>m_role = User, m_content = ''and then we changed the pricing'', m_timestamp = 5\<rparr>"

definition longSession :: InterviewSession where
  "longSession = \<lparr>s_id = ''session-3'', s_ideaId = ''a'', slackThreadTs = ''2'',
     s_messages = replicate 9 aMessage, s_status = Active, startedAt = 3, completedAt = None\<rparr>"

text \<open>A delivered draft whose Rework button was clicked.\<close>

definition firstDraft :: ContentDraft where
  "firstDraft = \<lparr>d_id = ''draft-5'', d_ideaId = ''a'', d_format = Linkedin_post,
     d_title = ''Hello,   World!'', d_body = ''first version'', d_version = 1, d_status = Draft,
     d_createdAt = 5, d_notionPageId = None\<rparr>"

definition awaitingFeedback :: state where
  "awaitingFeedback = withIdea\<lparr>pendingDrafts := [''draft-5'' \<mapsto> firstDraft],
     pendingRework := Some \<lparr>r_draftId = ''draft-5'', r_ideaId = ''a''\<rparr>\<rparr>"

text \<open>A reply in a thread, a click on a button of a draft notification.\<close>

definition reply :: "string \<Rightarrow> string \<Rightarrow> string \<Rightarrow> event" where
  "reply thread ts text = Message (Some \<lparr>sm_subtype = None, sm_text = Some text, sm_bot_id = None,
     sm_user = Some ''U1'', sm_thread_ts = Some thread, sm_ts = ts, sm_channel = ''D1''\<rparr>)"

definition click :: "string \<Rightarrow> string \<Rightarrow> event" where
  "click button draftId = Interactive (Some \<lparr>payload_type = ''block_actions'',
     payload_actions = [\<lparr>action_id = button, action_value = Some draftId\<rparr>]\<rparr>)"

text \<open>
  The interview gets its tenth message and is drafted (draft 5); the owner clicks Rework
  on draft 5 and sends feedback, then clicks Rework on draft 5 again and sends feedback.
\<close>

definition interviewing :: state where
  "interviewing = withIdea\<lparr>activeSessions := [(''2'', longSession)]\<rparr>"

definition twice :: "event list" where
  "twice = [reply ''2'' ''100'' ''that is all'', click ''rework_draft'' ''draft-5'',
     dm ''101'' ''make it shorter'', click ''rework_draft'' ''draft-5'',
     dm ''102'' ''make it punchier'']"

text \<open>A clock that reads 5 at every moment.\<close>

definition stuck :: env where
  "stuck = env0\<lparr>now := (\<lambda>n. 5)\<rparr>"



text \<open>
  The content cycle fires and pings the idea, the owner answers, the cycle fires again;
  then the owner stops the interview and the cycle fires once more.
\<close>

definition served :: "event list" where
  "served = [ContentCycle, dm ''100'' ''tell me more'', ContentCycle]"

definition stopped :: "event list" where
  "stopped = served @ [dm ''101'' ''stop'', ContentCycle]"

text \<open>A drafting service whose rework request raises.\<close>

definition reworkFails :: env where
  "reworkFails = env0\<lparr>reworkText := (\<lambda>n b f. Inl (Error ''overloaded''))\<rparr>"

lemma normalizeHook_example:
  "normalizeHook ''Hello,   World!'' = ''hello world''"
  "normalizeHook ''hello world'' = ''hello world''"
  by (simp_all add: normalizeHook_def toLowerCase_def lowerChar_def isLowerAlnum_def
      isSpace_def trim_def)

text \<open>The equations that run the miner on concrete data.\<close>

lemmas eval_defs = queueTranscript_def processQueue.simps drainBatch_def
  mineContentIdeas_def recordQueuedIdea_def io_simps setIdeaPage_def
  ideaOf_def sample_def env0_def state0_def world0_def dec.simps digit_def
  mineFromTranscripts_def fetchContent_def mineBatch_def recordMinedIdea_def
  slices.simps truncateContent_def isDuplicate_def extractBatches_def newBatches_def

text \<open>The equations that run the chat handlers on concrete data.\<close>

lemmas bot_eval_defs = onMessage_def routeMessage_def dispatch_def threadOf_def handleCommand_def
  handleDraftCommand_def startByIdentifier_def sendContentPing_def generateInterviewOpener_def
  chatPost_def say_def updateIdeaStatus_def getIdea_def getAllIdeas_def
  getLatestActiveSession_def parseInt_def at_def isNumber_def isDigit_def digitValue_def
  startsWith_def truthy_def trim_def normalizeHook_def toLowerCase_def lowerChar_def
  isLowerAlnum_def isSpace_def io_simps Let_def dm_def withIdea_def legacyIdea_def
  state0_def world0_def env0_def dec.simps digit_def

text \<open>The equations that run an interview, a draft and its reworks.\<close>

lemmas rework_eval_defs = bot_eval_defs handleInterviewReply_def hasEnoughMaterial_def
  produceDraft_def updSession_def generateDraft_def persistDraft_def sendDraftNotification_def
  draftChunks_def syndicateToXThread_def onInteractive_def handleAction_def
  handleReworkFeedback_def reworkDraft_def reworkedDraft_def standInIdea_def
  reply_def click_def interviewing_def longSession_def aMessage_def savedDrafts_def twice_def
  awaitingFeedback_def firstDraft_def stuck_def



section \<open>The methods of the miner never throw\<close>

lemma total_fetchContent: "total (fetchContent E t)"
  unfolding fetchContent_def by auto


lemma total_mineBatch: "total (mineBatch E b)"
  unfolding mineBatch_def by auto

lemma total_mineFromTranscripts: "total (mineFromTranscripts E ts)"
  unfolding mineFromTranscripts_def
  by (auto intro!: total_fetchContent total_mineBatch)

lemma total_updateIdeaStatus: "total (updateIdeaStatus E i st)"
  unfolding updateIdeaStatus_def by auto

lemma total_loadFromNotion: "total (loadFromNotion E a)"
  unfolding loadFromNotion_def by auto

section \<open>The registry: duplicates, loading, status updates\<close>

lemma recordMinedIdea_knownHooks:
  "recordMinedIdea E idea (s, w) = (r, s', w') \<Longrightarrow>
     knownHooks s' = insert (normalizeHook (hook idea)) (knownHooks s)"
  by (auto simp: recordMinedIdea_def io_simps isDuplicate_def setIdeaPage_def
      split: if_splits sum.splits prod.splits)

text \<open>
  C9. Two hooks with the same normal form are duplicates of each other: once an idea with
  hook \<open>h1\<close> went through the recording round of \<^verbatim>\<open>mineFromTranscripts\<close>, or through
  the loading round of \<^verbatim>\<open>loadFromNotion\<close>, \<^verbatim>\<open>isDuplicate\<close> answers true for every
  \<open>h2\<close> that normalises to the same string.
\<close>

theorem recorded_hook_isDuplicate:
  assumes "normalizeHook h1 = normalizeHook h2" and "hook idea = h1"
  shows "isDuplicate (fst (snd (recordMinedIdea E idea (s, w)))) h2
       \<and> isDuplicate (fst (loadIdea (s, b) idea)) h2"
proof
  obtain r s' w' where run: "recordMinedIdea E idea (s, w) = (r, s', w')"
    by (cases "recordMinedIdea E idea (s, w)") auto
  from recordMinedIdea_knownHooks [OF run] assms
  show "isDuplicate (fst (snd (recordMinedIdea E idea (s, w)))) h2"
    by (simp add: run isDuplicate_def)
  from assms show "isDuplicate (fst (loadIdea (s, b) idea)) h2"
    by (simp add: loadIdea_def isDuplicate_def)
qed

theorem recorded_hook_isDuplicate_witness:
  "normalizeHook ''Hello,   World!'' = normalizeHook ''hello world''
   \<and> isDuplicate (fst (snd (recordMinedIdea env0 legacyIdea (state0, world0)))) ''hello world''
   \<and> isDuplicate (fst (loadIdea (state0, False) legacyIdea)) ''hello world''"
  using recorded_hook_isDuplicate [of "''Hello,   World!''" "''hello world''" legacyIdea
      env0 state0 world0 False]
  by (simp add: normalizeHook_example legacyIdea_def)

lemma foldl_loadIdea_flag:
  "snd (foldl loadIdea (s, b) loaded)
     = (b \<or> (\<exists>idea \<in> set loaded. sourceTranscriptIds idea = []))"
  by (induction loaded arbitrary: s b) (auto simp: loadIdea_def)

text \<open>
  C8. When the record store answers \<^verbatim>\<open>loadContentIdeas\<close> with a list in which some idea
  has no source-transcript identifiers, and the list of all transcript identifiers is
  supplied, \<^verbatim>\<open>loadFromNotion\<close> returns normally and every supplied identifier is marked
  mined.
\<close>

theorem loadFromNotion_legacy_marks_all:
  assumes "loadContentIdeas E (tick w) = Inr loaded"
    and "\<exists>idea \<in> set loaded. sourceTranscriptIds idea = []"
    and "loadFromNotion E (Some tids) (s, w) = (r, s', w')"
  shows "r = Inr () \<and> set tids \<subseteq> minedTranscriptIds s'"
proof -
  obtain s1 flag where f: "foldl loadIdea (s, False) loaded = (s1, flag)"
    by (cases "foldl loadIdea (s, False) loaded")
  have "flag"
    using foldl_loadIdea_flag [of s False loaded] assms(2) f by simp
  then show ?thesis
    using assms(1,3) f by (auto simp: loadFromNotion_def io_simps)
qed

text \<open>One legacy idea and five known transcripts: all five end up mined.\<close>

theorem loadFromNotion_legacy_marks_all_witness:
  "set [''t1'', ''t2'', ''t3'', ''t4'', ''t5'']
     \<subseteq> minedTranscriptIds (fst (snd (loadFromNotion
           (env0\<lparr>loadContentIdeas := (\<lambda>n. Inr [legacyIdea])\<rparr>)
           (Some [''t1'', ''t2'', ''t3'', ''t4'', ''t5'']) (state0, world0))))"
proof -
  let ?E = "env0\<lparr>loadContentIdeas := (\<lambda>n. Inr [legacyIdea])\<rparr>"
  obtain r s' w' where run:
    "loadFromNotion ?E (Some [''t1'', ''t2'', ''t3'', ''t4'', ''t5'']) (state0, world0) = (r, s', w')"
    by (cases "loadFromNotion ?E (Some [''t1'', ''t2'', ''t3'', ''t4'', ''t5'']) (state0, world0)") auto
  have "loadContentIdeas ?E (tick world0) = Inr [legacyIdea]"
    by simp
  moreover have "\<exists>idea \<in> set [legacyIdea]. sourceTranscriptIds idea = []"
    by (simp add: legacyIdea_def)
  ultimately show ?thesis
    using loadFromNotion_legacy_marks_all [OF _ _ run] by (simp add: run)
qed

text \<open>
  C10. For an identifier that is not in the registry, \<^verbatim>\<open>updateIdeaStatus\<close> returns
  normally and changes nothing: the state is the same (so no idea's status moved) and so
  is the world (no request was made).
\<close>

theorem updateIdeaStatus_unknown:
  "getIdea s ident = None \<Longrightarrow> updateIdeaStatus E ident st (s, w) = (Inr (), (s, w))"
  by (simp add: updateIdeaStatus_def io_simps)

theorem updateIdeaStatus_unknown_witness:
  "getIdea (state0\<lparr>ideas := [(''a'', legacyIdea)]\<rparr>) ''b'' = None
   \<and> updateIdeaStatus env0 ''b'' Published (state0\<lparr>ideas := [(''a'', legacyIdea)]\<rparr>, world0)
       = (Inr (), (state0\<lparr>ideas := [(''a'', legacyIdea)]\<rparr>, world0))"
  using updateIdeaStatus_unknown [of "state0\<lparr>ideas := [(''a'', legacyIdea)]\<rparr>" "''b''" env0
      Published world0]
  by (simp add: getIdea_def state0_def)

section \<open>Mining on demand\<close>

lemma fetchContent_inline:
  "length (t_content t) > 50 \<Longrightarrow>
   fetchContent E t (s, w)
     = (Inr [t], (s\<lparr>minedTranscriptIds := insert (t_id t) (minedTranscriptIds s)\<rparr>, w))"
  by (simp add: fetchContent_def io_simps)

lemma collect_fetchContent_inline:
  "\<forall>t \<in> set ts. length (t_content t) > 50 \<Longrightarrow>
   collect (fetchContent E) ts (s, w)
     = (Inr ts, (s\<lparr>minedTranscriptIds := minedTranscriptIds s \<union> t_id ` set ts\<rparr>, w))"
proof (induction ts arbitrary: s)
  case Nil
  then show ?case by (simp add: io_simps)
next
  case (Cons t ts)
  then show ?case
    by (simp add: io_simps fetchContent_inline Un_commute insert_commute)
qed

lemma slices_12: "length xs = 12 \<Longrightarrow> slices 10 xs = [take 10 xs, drop 10 xs]"
proof -
  assume len: "length xs = 12"
  then have a: "xs \<noteq> []" and b: "drop 10 xs \<noteq> []" and c: "drop 10 (drop 10 xs) = []"
    by auto
  show ?thesis
    using a b c len
    by (subst slices.simps, simp, subst slices.simps, simp, subst slices.simps, simp)
qed

lemma slices_nonempty: "b \<in> set (slices k xs) \<Longrightarrow> b \<noteq> []"
proof (induction k xs rule: slices.induct)
  case (1 k xs)
  show ?case
  proof (cases "xs = [] \<or> k = 0")
    case True
    with "1.prems" show ?thesis by (simp add: slices.simps)
  next
    case False
    with "1.prems" have "b = take k xs \<or> b \<in> set (slices k (drop k xs))"
      by (subst (asm) slices.simps) simp
    with False "1.IH" show ?thesis by auto
  qed
qed

lemma slices_subset: "b \<in> set (slices k xs) \<Longrightarrow> set b \<subseteq> set xs"
proof (induction k xs rule: slices.induct)
  case (1 k xs)
  show ?case
  proof (cases "xs = [] \<or> k = 0")
    case True
    with "1.prems" show ?thesis by (simp add: slices.simps)
  next
    case False
    with "1.prems" have "b = take k xs \<or> b \<in> set (slices k (drop k xs))"
      by (subst (asm) slices.simps) simp
    with False "1.IH" show ?thesis
      by (meson in_set_dropD in_set_takeD subsetD subsetI)
  qed
qed

lemma recordMinedIdea_batches:
  "preserves (\<lambda>\<sigma>. extractBatches (calls (snd \<sigma>)) = v) (recordMinedIdea E idea)"
  unfolding recordMinedIdea_def
  by (intro preserves_bnd preserves_gets preserves_if preserves_ret preserves_seq preserves_try
      preserves_modify preserves_call) simp_all

lemma collect_recordMinedIdea_batches:
  assumes "collect (recordMinedIdea E) xs \<sigma> = (r, \<sigma>')"
  shows "extractBatches (calls (snd \<sigma>')) = extractBatches (calls (snd \<sigma>))"
proof -
  have "preserves (\<lambda>\<tau>. extractBatches (calls (snd \<tau>)) = extractBatches (calls (snd \<sigma>)))
          (collect (recordMinedIdea E) xs)"
    by (rule preserves_collect) (rule recordMinedIdea_batches)
  from preservesE [OF this assms] show ?thesis by simp
qed

lemma mineBatch_batches:
  assumes "mineBatch E b (s, w) = (r, s', w')"
  shows "extractBatches (calls w') = extractBatches (calls w) @ (if b = [] then [] else [b])"
proof (cases "b = []")
  case True
  with assms show ?thesis
    by (simp add: mineBatch_def mineContentIdeas_def io_simps)
next
  case False
  let ?w1 = "w\<lparr>tick := Suc (tick w), calls := calls w @ [(ExtractIdeas b, s)]\<rparr>"
  note rest = collect_recordMinedIdea_batches
  show ?thesis
  proof (cases "extractIdeas E (tick w) b")
    case (Inl e)
    with assms False show ?thesis
      by (auto simp: mineBatch_def mineContentIdeas_def io_simps)
  next
    case (Inr raw)
    with assms False show ?thesis
      by (auto simp: mineBatch_def mineContentIdeas_def io_simps
          split: prod.splits sum.splits dest!: rest)
  qed
qed

lemma collect_mineBatch_batches:
  "collect (mineBatch E) bs (s, w) = (r, s', w') \<Longrightarrow>
   extractBatches (calls w') = extractBatches (calls w) @ filter (\<lambda>b. b \<noteq> []) bs"
proof (induction bs arbitrary: s w r s' w')
  case Nil
  then show ?case by (simp add: io_simps)
next
  case (Cons b bs)
  obtain r1 s1 w1 where one: "mineBatch E b (s, w) = (r1, s1, w1)"
    by (cases "mineBatch E b (s, w)") auto
  from totalE [OF total_mineBatch one] obtain xs where r1: "r1 = Inr xs" by blast
  obtain r2 s2 w2 where more: "collect (mineBatch E) bs (s1, w1) = (r2, s2, w2)"
    by (cases "collect (mineBatch E) bs (s1, w1)") auto
  have "w' = w2"
    using Cons.prems one r1 more by (auto simp: io_simps split: sum.splits)
  with mineBatch_batches [OF one] Cons.IH [OF more] show ?case
    by auto
qed

text \<open>
  C7. Twelve unmined transcripts with inline content: \<^verbatim>\<open>mineFromTranscripts\<close> returns
  normally and adds exactly two extraction requests to the log, the first with the first
  ten transcripts and the second with the last two, whatever the drafting service
  answers, an exception on the first request included.
\<close>

theorem mineFromTranscripts_twelve:
  assumes "length ts = 12"
    and "\<forall>t \<in> set ts. t_id t \<notin> minedTranscriptIds s \<and> length (t_content t) > 50"
    and "mineFromTranscripts E ts (s, w) = (r, s', w')"
  shows "(\<exists>found. r = Inr found)
       \<and> extractBatches (calls w')
           = extractBatches (calls w)
             @ [map truncateContent (take 10 ts), map truncateContent (drop 10 ts)]
       \<and> map length [map truncateContent (take 10 ts), map truncateContent (drop 10 ts)] = [10, 2]"
proof -
  let ?s1 = "s\<lparr>minedTranscriptIds := minedTranscriptIds s \<union> t_id ` set ts\<rparr>"
  let ?bs = "[map truncateContent (take 10 ts), map truncateContent (drop 10 ts)]"
  from assms(1) have ne: "ts \<noteq> []" by auto
  from assms(2) have unmined: "filter (\<lambda>t. t_id t \<notin> minedTranscriptIds s) ts = ts"
    by (simp add: filter_id_conv)
  from assms(2) have fetched: "collect (fetchContent E) ts (s, w) = (Inr ts, (?s1, w))"
    by (simp add: collect_fetchContent_inline)
  from assms(1) have sl: "slices 10 (map truncateContent ts) = ?bs"
    by (simp add: slices_12 take_map drop_map)
  have run: "collect (mineBatch E) ?bs (?s1, w) = (r, s', w')"
    using assms(3) ne unmined fetched sl by (simp add: mineFromTranscripts_def io_simps)
  from assms(1) have full: "filter (\<lambda>b. b \<noteq> []) ?bs = ?bs"
    by auto
  have "total (collect (mineBatch E) ?bs)"
    by (rule total_collect) (rule total_mineBatch)
  from totalE [OF this run] have "\<exists>found. r = Inr found" .
  moreover from collect_mineBatch_batches [OF run] full
  have "extractBatches (calls w') = extractBatches (calls w) @ ?bs"
    by simp
  moreover from assms(1) have "map length ?bs = [10, 2]"
    by simp
  ultimately show ?thesis by blast
qed

text \<open>The first request raises; the second is made all the same.\<close>

theorem mineFromTranscripts_twelve_witness:
  "extractIdeas failFirst (tick world0) (map truncateContent (take 10 (map sample [0..<12])))
     = Inl (Error ''overloaded'')
   \<and> map length (extractBatches (calls (snd (snd
        (mineFromTranscripts failFirst (map sample [0..<12]) (state0, world0)))))) = [10, 2]"
proof -
  obtain r s' w' where run:
    "mineFromTranscripts failFirst (map sample [0..<12]) (state0, world0) = (r, s', w')"
    by (cases "mineFromTranscripts failFirst (map sample [0..<12]) (state0, world0)") auto
  have len: "length (map sample [0..<12]) = 12"
    by simp
  have ok: "\<forall>t \<in> set (map sample [0..<12]).
      t_id t \<notin> minedTranscriptIds state0 \<and> length (t_content t) > 50"
    by (simp add: sample_def state0_def)
  from mineFromTranscripts_twelve [OF len ok run]
  have "map length (extractBatches (calls w')) = [10, 2]"
    by (simp add: world0_def)
  then have "map length (extractBatches (calls (snd (snd
        (mineFromTranscripts failFirst (map sample [0..<12]) (state0, world0)))))) = [10, 2]"
    by (simp add: run)
  moreover have "extractIdeas failFirst (tick world0)
      (map truncateContent (take 10 (map sample [0..<12]))) = Inl (Error ''overloaded'')"
    by (simp add: failFirst_def world0_def)
  ultimately show ?thesis by blast
qed

lemma processQueue_invariant:
  "preserves P (drainBatch E) \<Longrightarrow> P \<sigma> \<Longrightarrow> P (snd (processQueue E \<sigma>))"
proof (induction E \<sigma> rule: processQueue.induct)
  case (1 E \<sigma>)
  show ?case
  proof (cases "processing (fst \<sigma>) \<or> pendingTranscripts (fst \<sigma>) = []")
    case True
    with "1.prems" show ?thesis by (simp add: processQueue.simps)
  next
    case False
    obtain r \<sigma>' where d: "drainBatch E \<sigma> = (r, \<sigma>')" by (cases "drainBatch E \<sigma>")
    from preservesE [OF "1.prems"(1) d "1.prems"(2)] have p': "P \<sigma>'" .
    show ?thesis
    proof (cases "pendingTranscripts (fst \<sigma>') \<noteq> []")
      case True
      from "1.IH" [OF False d [symmetric] True "1.prems"(1) p'] False d True
      show ?thesis by (simp add: processQueue.simps)
    next
      case False': False
      with False d p' show ?thesis by (simp add: processQueue.simps)
    qed
  qed
qed

lemma preserves_processQueue:
  "preserves P (drainBatch E) \<Longrightarrow> preserves P (processQueue E)"
  unfolding preserves_def [of P "processQueue E"] by (blast intro: processQueue_invariant)

lemma fetchContent_effect:
  assumes "fetchContent E t (s, w) = (r, s', w')"
  shows "(\<exists>kept. r = Inr kept \<and> (\<forall>k \<in> set kept. t_id k = t_id t))
       \<and> minedTranscriptIds s' = insert (t_id t) (minedTranscriptIds s)
       \<and> extractBatches (calls w') = extractBatches (calls w)"
  using assms
  by (auto simp: fetchContent_def io_simps truthy_def
      split: if_splits option.splits sum.splits prod.splits)

lemma collect_fetchContent_effect:
  "collect (fetchContent E) us (s, w) = (r, s', w') \<Longrightarrow>
   (\<exists>kept. r = Inr kept \<and> t_id ` set kept \<subseteq> t_id ` set us)
   \<and> minedTranscriptIds s' = minedTranscriptIds s \<union> t_id ` set us
   \<and> extractBatches (calls w') = extractBatches (calls w)"
proof (induction us arbitrary: s w r s' w')
  case Nil
  then show ?case by (auto simp: io_simps)
next
  case (Cons t us)
  obtain r1 s1 w1 where one: "fetchContent E t (s, w) = (r1, s1, w1)"
    by (cases "fetchContent E t (s, w)") auto
  from fetchContent_effect [OF one] obtain k1 where
    r1: "r1 = Inr k1" and k1: "\<forall>k \<in> set k1. t_id k = t_id t"
    and m1: "minedTranscriptIds s1 = insert (t_id t) (minedTranscriptIds s)"
    and b1: "extractBatches (calls w1) = extractBatches (calls w)"
    by blast
  obtain r2 s2 w2 where more: "collect (fetchContent E) us (s1, w1) = (r2, s2, w2)"
    by (cases "collect (fetchContent E) us (s1, w1)") auto
  from Cons.IH [OF more] obtain k2 where
    r2: "r2 = Inr k2" and k2: "t_id ` set k2 \<subseteq> t_id ` set us"
    and m2: "minedTranscriptIds s2 = minedTranscriptIds s1 \<union> t_id ` set us"
    and b2: "extractBatches (calls w2) = extractBatches (calls w1)"
    by blast
  have res: "r = Inr (k1 @ k2)" "s' = s2" "w' = w2"
    using Cons.prems one r1 more r2 by (auto simp: io_simps)
  have "t_id ` set (k1 @ k2) \<subseteq> t_id ` set (t # us)"
    using k1 k2 by auto
  with res m1 m2 b1 b2 show ?case by auto
qed

lemma mineBatch_mined: "preserves (\<lambda>\<sigma>. Q (minedTranscriptIds (fst \<sigma>))) (mineBatch E b)"
  unfolding mineBatch_def recordMinedIdea_def mineContentIdeas_def
  by (intro preserves_seq preserves_try preserves_bnd preserves_collect preserves_if
      preserves_ret preserves_gets preserves_call_state preserves_clock_state
      preserves_modify_state) (simp_all add: setIdeaPage_def)

lemma collect_mineBatch_mined:
  assumes "collect (mineBatch E) bs (s, w) = (r, s', w')"
  shows "minedTranscriptIds s' = minedTranscriptIds s"
proof -
  have "preserves (\<lambda>\<tau>. minedTranscriptIds (fst \<tau>) = minedTranscriptIds s)
          (collect (mineBatch E) bs)"
    by (rule preserves_collect) (rule mineBatch_mined)
  from preservesE [OF this assms] show ?thesis by simp
qed

lemma truncateContent_id [simp]: "t_id (truncateContent t) = t_id t"
  by (simp add: truncateContent_def)

text \<open>What a call of \<^verbatim>\<open>mineFromTranscripts\<close> that runs alone submits and marks.\<close>

lemma mineFromTranscripts_effect:
  assumes "mineFromTranscripts E ts (s, w) = (r, s', w')"
  shows "extractBatches (calls w') = extractBatches (calls w) @ newBatches w w'"
    and "\<forall>b \<in> set (newBatches w w'). \<forall>t \<in> set b. t_id t \<notin> minedTranscriptIds s"
    and "minedTranscriptIds s' = minedTranscriptIds s \<union> t_id ` set ts"
proof -
  let ?un = "filter (\<lambda>t. t_id t \<notin> minedTranscriptIds s) ts"
  have "extractBatches (calls w') = extractBatches (calls w) @ newBatches w w'
      \<and> (\<forall>b \<in> set (newBatches w w'). \<forall>t \<in> set b. t_id t \<notin> minedTranscriptIds s)
      \<and> minedTranscriptIds s' = minedTranscriptIds s \<union> t_id ` set ts"
  proof (cases "ts = [] \<or> ?un = []")
    case True
    then have same: "s' = s" "w' = w"
      using assms by (auto simp: mineFromTranscripts_def io_simps split: if_splits)
    from True have "t_id ` set ts \<subseteq> minedTranscriptIds s"
      by (auto simp: filter_empty_conv)
    with same show ?thesis by (auto simp: newBatches_def)
  next
    case False
    obtain r1 s1 w1 where fetch: "collect (fetchContent E) ?un (s, w) = (r1, s1, w1)"
      by (cases "collect (fetchContent E) ?un (s, w)") auto
    from collect_fetchContent_effect [OF fetch] obtain kept where
      r1: "r1 = Inr kept" and kept: "t_id ` set kept \<subseteq> t_id ` set ?un"
      and m1: "minedTranscriptIds s1 = minedTranscriptIds s \<union> t_id ` set ?un"
      and b1: "extractBatches (calls w1) = extractBatches (calls w)"
      by blast
    have marked: "minedTranscriptIds s \<union> t_id ` set ?un = minedTranscriptIds s \<union> t_id ` set ts"
      by auto
    show ?thesis
    proof (cases "kept = []")
      case True
      then have "s' = s1" "w' = w1"
        using assms False fetch r1 by (auto simp: mineFromTranscripts_def io_simps split: if_splits)
      with m1 b1 marked show ?thesis by (simp add: newBatches_def)
    next
      case kept_ne: False
      let ?bs = "slices 10 (map truncateContent kept)"
      have run: "collect (mineBatch E) ?bs (s1, w1) = (r, s', w')"
        using assms False fetch r1 kept_ne
        by (auto simp: mineFromTranscripts_def io_simps split: if_splits)
      have "filter (\<lambda>b. b \<noteq> []) ?bs = ?bs"
        by (simp add: filter_id_conv slices_nonempty)
      with collect_mineBatch_batches [OF run] b1
      have log: "extractBatches (calls w') = extractBatches (calls w) @ ?bs"
        by simp
      then have new: "newBatches w w' = ?bs"
        by (simp add: newBatches_def)
      have "t_id t \<notin> minedTranscriptIds s" if "b \<in> set ?bs" and "t \<in> set b" for b t
      proof -
        from slices_subset [OF that(1)] that(2) have "t \<in> set (map truncateContent kept)"
          by blast
        then have "t_id t \<in> t_id ` set kept"
          by auto
        with kept show ?thesis by auto
      qed
      with log new collect_mineBatch_mined [OF run] m1 marked show ?thesis
        by auto
    qed
  qed
  then show "extractBatches (calls w') = extractBatches (calls w) @ newBatches w w'"
    and "\<forall>b \<in> set (newBatches w w'). \<forall>t \<in> set b. t_id t \<notin> minedTranscriptIds s"
    and "minedTranscriptIds s' = minedTranscriptIds s \<union> t_id ` set ts"
    by blast+
qed

text \<open>Without interference the rounds are the ones above.\<close>

lemma await_idle: "await (\<lambda>n s. s) rq a = call rq a"
  by (simp add: await_def call_def)

lemma fetchContent_idle: "fetchContent_among (\<lambda>n s. s) E = fetchContent E"
  unfolding fetchContent_among_def fetchContent_def await_idle ..

lemma recordMinedIdea_idle: "recordMinedIdea_among (\<lambda>n s. s) E = recordMinedIdea E"
  unfolding recordMinedIdea_among_def recordMinedIdea_def await_idle ..

lemma mineBatch_idle: "mineBatch_among (\<lambda>n s. s) E = mineBatch E"
  unfolding mineBatch_among_def mineBatch_def mineContentIdeas_among_def mineContentIdeas_def
    await_idle recordMinedIdea_idle ..

lemma mineFromTranscripts_idle:
  "mineFromTranscripts_among (\<lambda>n s. s) E ts = mineFromTranscripts E ts"
  unfolding mineFromTranscripts_among_def mineFromTranscripts_def fetchContent_idle
    mineBatch_idle ..

text \<open>
  C5. A call of \<^verbatim>\<open>mineFromTranscripts\<close> that runs alone submits nothing that was marked
  mined when it started and marks all it was given (the lemma above). The claim, which
  speaks of every call of the process lifetime, fails when two calls overlap. The
  scheduler's call is given transcript 1, which has no content yet: it filters on the
  mined set, suspends on the request for the content, and would mark the transcript after
  it. During that suspension the \<^verbatim>\<open>mine\<close> command's call finds transcript 1 unmarked, loads,
  marks and submits it. The scheduler's call then resumes and submits transcript 1 again:
  in the state visible at its extraction request the transcript is already marked mined.
\<close>

theorem overlapping_calls_resubmit:
  "map (\<lambda>(b, s). map t_id b)
     (submissions (calls (snd (snd (mineFromTranscripts stored [lazy]
        (state0, \<lparr>tick = 1, calls = []\<rparr>))))))
     = [[''1'']]
   \<and> map (\<lambda>(b, s). (map t_id b, ''1'' \<in> minedTranscriptIds s))
       (submissions (calls (snd (snd (mineFromTranscripts_among mineCommand stored [lazy]
          (state0, world0))))))
     = [([''1''], True)]"
  by (simp add: eval_defs stored_def lazy_def submissions_def truthy_def mineCommand_def
      mineFromTranscripts_among_def fetchContent_among_def mineBatch_among_def
      mineContentIdeas_among_def recordMinedIdea_among_def await_def)

section \<open>The live-ingestion drain\<close>

text \<open>
  C1. The drain of \<^verbatim>\<open>processQueue\<close> does not consult \<^verbatim>\<open>isDuplicate\<close>: two queued
  transcripts whose batches both yield the hook ``Hello, World!'' leave two ideas in the
  registry, both handed to the record store, and the set of known hooks stays empty.
\<close>

theorem processQueue_records_duplicate:
  "map fst (ideas (fst (runCalls sameHook
       [QueueTranscript (sample 0), QueueTranscript (sample 1)] (state0, world0))))
     = [''idea-1-0'', ''idea-4-0'']
   \<and> map (normalizeHook \<circ> hook \<circ> snd) (ideas (fst (runCalls sameHook
       [QueueTranscript (sample 0), QueueTranscript (sample 1)] (state0, world0))))
     = [''hello world'', ''hello world'']
   \<and> map hook (savedIdeas (calls (snd (runCalls sameHook
       [QueueTranscript (sample 0), QueueTranscript (sample 1)] (state0, world0)))))
     = [''Hello, World!'', ''Hello, World!'']
   \<and> knownHooks (fst (runCalls sameHook
       [QueueTranscript (sample 0), QueueTranscript (sample 1)] (state0, world0))) = {}"
proof -
  have "normalizeHook ''Hello, World!'' = ''hello world''"
    by (simp add: normalizeHook_def toLowerCase_def lowerChar_def isLowerAlnum_def
        isSpace_def trim_def)
  then show ?thesis
    by (simp add: eval_defs sameHook_def savedIdeas_def)
qed

section \<open>Enough material\<close>

lemma chatPost_ok:
  "chatNeverFails E \<Longrightarrow> \<exists>ts w'. chatPost E c t th (s, w) = (Inr ts, s, w')"
  unfolding chatNeverFails_def chatPost_def
  by (simp add: io_simps)

lemma say_ok: "chatNeverFails E \<Longrightarrow> \<exists>w'. say E c t th (s, w) = (Inr (), s, w')"
  using chatPost_ok [of E c t th s w] by (auto simp: say_def io_simps)

lemma forEach_say_ok:
  "chatNeverFails E \<Longrightarrow> \<exists>w'. forEach (\<lambda>chunk. say E c chunk th) chunks (s, w) = (Inr (), s, w')"
proof (induction chunks arbitrary: w)
  case Nil
  then show ?case by (simp add: io_simps)
next
  case (Cons chunk chunks)
  from say_ok [OF Cons.prems, of c chunk th s w] obtain w1 where
    "say E c chunk th (s, w) = (Inr (), s, w1)" by blast
  moreover from Cons.IH [OF Cons.prems, of w1] obtain w2 where
    "forEach (\<lambda>chunk. say E c chunk th) chunks (s, w1) = (Inr (), s, w2)" by blast
  ultimately show ?case by (simp add: io_simps)
qed

lemma sendDraftNotification_ok:
  assumes "chatNeverFails E"
  shows "\<exists>w'. sendDraftNotification E d i (s, w)
               = (Inr (), s\<lparr>pendingDrafts := (pendingDrafts s)(d_id d \<mapsto> d)\<rparr>, w')"
proof -
  from chatPost_ok [OF assms] obtain ts w1 where
    a: "chatPost E (slackUserId E) (''Draft Ready: '' @ hook i) None (s, w) = (Inr ts, s, w1)"
    by blast
  from forEach_say_ok [OF assms] obtain w2 where
    b: "forEach (\<lambda>chunk. say E (slackUserId E) chunk ts) (draftChunks (d_body d)) (s, w1)
          = (Inr (), s, w2)"
    by blast
  from say_ok [OF assms] obtain w3 where
    c: "say E (slackUserId E) ''What do you want to do with this draft?'' ts (s, w2)
          = (Inr (), s, w3)"
    by blast
  show ?thesis
    using a b c by (simp add: sendDraftNotification_def io_simps)
qed

lemma updateIdeaStatus_drafts:
  "updateIdeaStatus E i st (s, w) = (r, s', w') \<Longrightarrow>
     r = Inr () \<and> pendingDrafts s' = pendingDrafts s"
  by (auto simp: updateIdeaStatus_def io_simps split: option.splits if_splits sum.splits)

lemma hasEnoughMaterial_few:
  "length msgs < 4 \<Longrightarrow> hasEnoughMaterial E msgs \<sigma> = (Inr False, \<sigma>)"
  by (simp add: hasEnoughMaterial_def io_simps)

lemma hasEnoughMaterial_cap:
  "10 \<le> length msgs \<Longrightarrow> hasEnoughMaterial E msgs \<sigma> = (Inr True, \<sigma>)"
  by (simp add: hasEnoughMaterial_def io_simps)

lemma syndicate_drafts:
  "bnd (syndicateToXThread E b) (\<lambda>x. say E c x None) (s, w) = (r, s', w') \<Longrightarrow> s' = s"
  by (auto simp: syndicateToXThread_def say_def chatPost_def io_simps split: sum.splits)

lemma produceDraft_ok:
  assumes chat: "chatNeverFails E"
    and answers: "\<forall>n. \<exists>body. draftText E n idea msgs = Inr body"
    and run: "produceDraft E k idea msgs threadTs channel (s, w) = (r, s', w')"
  shows "\<exists>d. pendingDrafts s' (d_id d) = Some d \<and> d_version d = 1 \<and> d_ideaId d = i_id idea
            \<and> d_format d = suggestedFormat idea"
proof -
  from say_ok [OF chat] obtain w1 where
    a: "say E channel ''I think I have enough. Let me draft something up...'' (Some threadTs) (s, w)
          = (Inr (), s, w1)"
    by blast
  let ?t = "now E (tick w1)"
  let ?s1 = "s\<lparr>activeSessions := AList.map_entry k
               (\<lambda>x. x\<lparr>s_status := Completed, completedAt := Some ?t\<rparr>) (activeSessions s)\<rparr>"
  let ?w2 = "w1\<lparr>tick := Suc (tick w1)\<rparr>"
  from answers obtain body where b: "draftText E (tick ?w2) idea msgs = Inr body"
    by blast
  let ?w3 = "?w2\<lparr>tick := Suc (tick ?w2),
                  calls := calls ?w2 @ [(DraftText idea msgs (suggestedFormat idea), ?s1)]\<rparr>"
  let ?d = "\<lparr>d_id = ''draft-'' @ dec (now E (tick ?w3)), d_ideaId = i_id idea,
             d_format = suggestedFormat idea, d_title = hook idea, d_body = body,
             d_version = 1, d_status = Draft, d_createdAt = now E (tick ?w3),
             d_notionPageId = None\<rparr>"
  let ?w4 = "?w3\<lparr>tick := Suc (tick ?w3)\<rparr>"
  have gen: "generateDraft E idea msgs (suggestedFormat idea) (?s1, ?w2) = (Inr ?d, ?s1, ?w4)"
    using b by (simp add: generateDraft_def io_simps)
  obtain saved w5 where
    p: "persistDraft E ?d (?s1, ?w4) = (Inr saved, ?s1, w5)"
    and saved: "d_id saved = d_id ?d" "d_version saved = 1" "d_ideaId saved = i_id idea"
      "d_format saved = suggestedFormat idea"
    by (cases "saveContentDraft E (tick ?w4) ?d") (auto simp: persistDraft_def io_simps)
  obtain r6 s6 w6 where u: "updateIdeaStatus E (i_id idea) Draft_ready (?s1, w5) = (r6, s6, w6)"
    by (cases "updateIdeaStatus E (i_id idea) Draft_ready (?s1, w5)") auto
  from updateIdeaStatus_drafts [OF u] have r6: "r6 = Inr ()" by simp
  from sendDraftNotification_ok [OF chat, of saved idea s6 w6] obtain w7 where
    n: "sendDraftNotification E saved idea (s6, w6)
          = (Inr (), s6\<lparr>pendingDrafts := (pendingDrafts s6)(d_id saved \<mapsto> saved)\<rparr>, w7)"
    by blast
  let ?s7 = "s6\<lparr>pendingDrafts := (pendingDrafts s6)(d_id saved \<mapsto> saved)\<rparr>"
  have "s' = ?s7"
  proof (cases "suggestedFormat idea = Linkedin_post")
    case True
    then have "bnd (syndicateToXThread E (d_body saved)) (\<lambda>x. say E (slackUserId E) x None) (?s7, w7)
        = (r, s', w')"
      using run a gen p u r6 n
      by (simp add: produceDraft_def io_simps updSession_def)
    from syndicate_drafts [OF this] show ?thesis .
  next
    case False
    then show ?thesis
      using run a gen p u r6 n
      by (simp add: produceDraft_def io_simps updSession_def)
  qed
  with saved have "pendingDrafts s' (d_id saved) = Some saved" by simp
  with saved show ?thesis by blast
qed

text \<open>
  C4. \<^verbatim>\<open>hasEnoughMaterial\<close> answers false below four messages and true from ten messages
  on, in both cases without asking the drafting service (the world is unchanged). So a
  reply that brings a session to ten messages or more, for an idea the registry knows,
  is drafted: when the chat transport delivers and the draft request answers, the cache
  of pending drafts ends with a version-1 draft of that idea in the idea's format.
\<close>

theorem enough_material_bounds:
  "(length msgs < 4 \<longrightarrow> hasEnoughMaterial E msgs \<sigma> = (Inr False, \<sigma>))
   \<and> (10 \<le> length msgs \<longrightarrow> hasEnoughMaterial E msgs \<sigma> = (Inr True, \<sigma>))
   \<and> (10 \<le> Suc (length (s_messages session)) \<and> getIdea s (s_ideaId session) = Some idea
        \<and> chatNeverFails E \<and> (\<forall>n m. \<exists>body. draftText E n idea m = Inr body)
       \<longrightarrow> (\<exists>d. pendingDrafts (fst (snd
                   (handleInterviewReply E k session userMessage threadTs channel (s, w))))
                 (d_id d) = Some d
               \<and> d_version d = 1 \<and> d_ideaId d = i_id idea
               \<and> d_format d = suggestedFormat idea))"
proof (intro conjI impI)
  assume "length msgs < 4"
  then show "hasEnoughMaterial E msgs \<sigma> = (Inr False, \<sigma>)"
    by (rule hasEnoughMaterial_few)
next
  assume "10 \<le> length msgs"
  then show "hasEnoughMaterial E msgs \<sigma> = (Inr True, \<sigma>)"
    by (rule hasEnoughMaterial_cap)
next
  assume h: "10 \<le> Suc (length (s_messages session)) \<and> getIdea s (s_ideaId session) = Some idea
        \<and> chatNeverFails E \<and> (\<forall>n m. \<exists>body. draftText E n idea m = Inr body)"
  let ?msgs = "s_messages session
      @ [\<lparr>m_role = User, m_content = userMessage, m_timestamp = now E (tick w)\<rparr>]"
  let ?s1 = "s\<lparr>activeSessions := AList.map_entry k (\<lambda>x. x\<lparr>s_messages := s_messages x
      @ [\<lparr>m_role = User, m_content = userMessage, m_timestamp = now E (tick w)\<rparr>]\<rparr>)
      (activeSessions s)\<rparr>"
  let ?w1 = "w\<lparr>tick := Suc (tick w)\<rparr>"
  from h have cap: "hasEnoughMaterial E ?msgs (?s1, ?w1) = (Inr True, (?s1, ?w1))"
    by (intro hasEnoughMaterial_cap) simp
  obtain r s' w' where run: "produceDraft E k idea ?msgs threadTs channel (?s1, ?w1) = (r, s', w')"
    by (cases "produceDraft E k idea ?msgs threadTs channel (?s1, ?w1)") auto
  from h have whole: "handleInterviewReply E k session userMessage threadTs channel (s, w)
      = (r, s', w')"
    using cap run by (simp add: handleInterviewReply_def io_simps updSession_def getIdea_def)
  from h have "\<forall>n. \<exists>body. draftText E n idea ?msgs = Inr body"
    by blast
  from produceDraft_ok [OF _ this run] h whole
  show "\<exists>d. pendingDrafts (fst (snd
                (handleInterviewReply E k session userMessage threadTs channel (s, w))))
              (d_id d) = Some d
            \<and> d_version d = 1 \<and> d_ideaId d = i_id idea \<and> d_format d = suggestedFormat idea"
    by simp
qed

text \<open>The judge says no at every moment; the tenth message is drafted all the same.\<close>

theorem enough_material_bounds_witness:
  "hasEnoughMaterial env0 (replicate 3 aMessage) (state0, world0) = (Inr False, (state0, world0))
   \<and> judgeText env0 0 (replicate 10 aMessage) = Inr (Some ''no'')
   \<and> hasEnoughMaterial env0 (replicate 10 aMessage) (state0, world0) = (Inr True, (state0, world0))
   \<and> (\<exists>d. pendingDrafts (fst (snd (handleInterviewReply env0 ''2'' longSession ''that is all''
                ''2'' ''D1'' (withIdea\<lparr>activeSessions := [(''2'', longSession)]\<rparr>, world0))))
             (d_id d) = Some d
           \<and> d_version d = 1 \<and> d_ideaId d = ''a'' \<and> d_format d = Linkedin_post)"
proof -
  have few: "length (replicate 3 aMessage) < 4" and cap: "10 \<le> length (replicate 10 aMessage)"
    by simp_all
  have third: "10 \<le> Suc (length (s_messages longSession))
      \<and> getIdea (withIdea\<lparr>activeSessions := [(''2'', longSession)]\<rparr>) (s_ideaId longSession)
          = Some legacyIdea
      \<and> chatNeverFails env0 \<and> (\<forall>n m. \<exists>body. draftText env0 n legacyIdea m = Inr body)"
    by (simp add: longSession_def getIdea_def withIdea_def state0_def chatNeverFails_def env0_def)
  have "judgeText env0 0 (replicate 10 aMessage) = Inr (Some ''no'')"
    by (simp add: env0_def)
  moreover have "i_id legacyIdea = ''a''" "suggestedFormat legacyIdea = Linkedin_post"
    by (simp_all add: legacyIdea_def)
  ultimately show ?thesis
    using enough_material_bounds [of "replicate 3 aMessage" env0 "(state0, world0)"] few
      enough_material_bounds [of "replicate 10 aMessage" env0 "(state0, world0)"] cap
      enough_material_bounds [of "replicate 10 aMessage" env0 "(state0, world0)" longSession
        "withIdea\<lparr>activeSessions := [(''2'', longSession)]\<rparr>" legacyIdea
        "''2''" "''that is all''" "''2''" "''D1''" world0] third
    by simp
qed

section \<open>Rework\<close>

lemma digit_inj: "a < 10 \<Longrightarrow> b < 10 \<Longrightarrow> digit a = digit b \<Longrightarrow> a = b"
proof -
  assume a: "a < 10" and b: "b < 10" and eq: "digit a = digit b"
  have d: "distinct ''0123456789''" by simp
  have "length ''0123456789'' = 10" by simp
  with a b eq d show ?thesis
    unfolding digit_def by (metis nth_eq_iff_index_eq)
qed

lemma dec_nonempty: "dec n \<noteq> []"
  by (subst dec.simps) simp

lemma dec_inj: "dec m = dec n \<Longrightarrow> m = n"
proof (induction m arbitrary: n rule: dec.induct)
  case (1 m)
  show ?case
  proof (cases "m < 10")
    case True
    show ?thesis
    proof (cases "n < 10")
      case n: True
      from "1.prems" True n have "digit m = digit n"
        by (simp add: dec.simps [of m] dec.simps [of n])
      with True n show ?thesis by (blast intro: digit_inj)
    next
      case False
      with "1.prems" True have "[digit m] = dec (n div 10) @ [digit (n mod 10)]"
        by (simp add: dec.simps [of m] dec.simps [of n])
      then have "dec (n div 10) = []" by simp
      with dec_nonempty show ?thesis by blast
    qed
  next
    case False
    show ?thesis
    proof (cases "n < 10")
      case True
      with "1.prems" False have "dec (m div 10) @ [digit (m mod 10)] = [digit n]"
        by (simp add: dec.simps [of m] dec.simps [of n])
      then have "dec (m div 10) = []" by simp
      with dec_nonempty show ?thesis by blast
    next
      case n: False
      with "1.prems" False
      have eq: "dec (m div 10) @ [digit (m mod 10)] = dec (n div 10) @ [digit (n mod 10)]"
        by (simp add: dec.simps [of m] dec.simps [of n])
      then have "dec (m div 10) = dec (n div 10)" and dg: "digit (m mod 10) = digit (n mod 10)"
        by simp_all
      from "1.IH" [OF False this(1)] have "m div 10 = n div 10" .
      moreover from dg have "m mod 10 = n mod 10"
        by (intro digit_inj) simp_all
      ultimately show ?thesis
        by (metis div_mult_mod_eq)
    qed
  qed
qed

lemma say_state: "say E c t th (s, w) = (r, s', w') \<Longrightarrow> s' = s"
  by (auto simp: say_def chatPost_def io_simps split: sum.splits)

lemma forEach_say_state:
  "forEach (\<lambda>chunk. say E c chunk th) chunks (s, w) = (r, s', w') \<Longrightarrow> s' = s"
proof (induction chunks arbitrary: w)
  case Nil
  then show ?case by (simp add: io_simps)
next
  case (Cons chunk chunks)
  obtain r1 s1 w1 where one: "say E c chunk th (s, w) = (r1, s1, w1)"
    by (cases "say E c chunk th (s, w)") auto
  from say_state [OF one] have s1: "s1 = s" .
  show ?case
  proof (cases r1)
    case (Inl e)
    with Cons.prems one s1 show ?thesis by (simp add: io_simps)
  next
    case (Inr u)
    with Cons.prems one s1 have "forEach (\<lambda>chunk. say E c chunk th) chunks (s, w1) = (r, s', w')"
      by (simp add: io_simps)
    then show ?thesis by (rule Cons.IH)
  qed
qed

lemma sendDraftNotification_state:
  assumes "sendDraftNotification E d i (s, w) = (r, s', w')"
  shows "s' = s \<or> s' = s\<lparr>pendingDrafts := (pendingDrafts s)(d_id d \<mapsto> d)\<rparr>"
proof -
  let ?hdr = "chatPost E (slackUserId E) (''Draft Ready: '' @ hook i) None"
  obtain r1 s1 w1 where a: "?hdr (s, w) = (r1, s1, w1)"
    by (cases "?hdr (s, w)") auto
  then have s1: "s1 = s"
    by (auto simp: chatPost_def io_simps)
  show ?thesis
  proof (cases r1)
    case (Inl e)
    with assms a s1 show ?thesis by (simp add: sendDraftNotification_def io_simps)
  next
    case (Inr ts)
    let ?loop = "forEach (\<lambda>chunk. say E (slackUserId E) chunk ts) (draftChunks (d_body d))"
    obtain r2 s2 w2 where b: "?loop (s, w1) = (r2, s2, w2)"
      by (cases "?loop (s, w1)") auto
    from forEach_say_state [OF b] have s2: "s2 = s" .
    show ?thesis
    proof (cases r2)
      case (Inl e)
      with assms a s1 Inr b s2 show ?thesis by (simp add: sendDraftNotification_def io_simps)
    next
      case r2: (Inr u)
      let ?btn = "say E (slackUserId E) ''What do you want to do with this draft?'' ts"
      obtain r3 s3 w3 where c: "?btn (s, w2) = (r3, s3, w3)"
        by (cases "?btn (s, w2)") auto
      from say_state [OF c] have s3: "s3 = s" .
      from assms a s1 Inr b s2 r2 c s3 show ?thesis
        by (cases r3) (auto simp: sendDraftNotification_def io_simps)
    qed
  qed
qed

lemma persistDraft_result:
  "persistDraft E d (s, w) = (r, s', w') \<Longrightarrow>
     s' = s \<and> (\<exists>page. r = Inr (d\<lparr>d_notionPageId := page\<rparr>))"
proof -
  assume run: "persistDraft E d (s, w) = (r, s', w')"
  show ?thesis
  proof (cases "saveContentDraft E (tick w) d")
    case (Inl e)
    with run have "s' = s" "r = Inr (d\<lparr>d_notionPageId := d_notionPageId d\<rparr>)"
      by (auto simp: persistDraft_def io_simps)
    then show ?thesis by blast
  next
    case (Inr p)
    with run have "s' = s" "r = Inr (d\<lparr>d_notionPageId := Some p\<rparr>)"
      by (auto simp: persistDraft_def io_simps)
    then show ?thesis by blast
  qed
qed

lemma reworkedDraft_fields:
  "d_version (reworkedDraft draft b t) = d_version draft + 1"
  "d_format (reworkedDraft draft b t) = d_format draft"
  "d_ideaId (reworkedDraft draft b t) = d_ideaId draft"
  "d_title (reworkedDraft draft b t) = d_title draft"
  "d_id (reworkedDraft draft b t) = ''draft-'' @ dec t"
  by (simp_all add: reworkedDraft_def)

lemma generateDraft_version:
  "generateDraft E idea msgs fmt \<sigma> = (Inr d, \<sigma>') \<Longrightarrow> d_version d = 1"
  by (cases \<sigma>) (auto simp: generateDraft_def io_simps split: sum.splits)

text \<open>The handler after its synchronous start, for a pending rework whose draft is cached.\<close>

lemma handleReworkFeedback_unfold:
  assumes "pendingRework s = Some rework" and "pendingDrafts s (r_draftId rework) = Some draft"
  shows "handleReworkFeedback E feedback channel (s, w)
     = seq (say E channel ''Reworking the draft with your feedback...'' None)
         (try_catch
            (bnd (reworkDraft E (d_body draft) feedback (d_format draft)) (\<lambda>reworkedBody.
             bnd (clock E) (\<lambda>t.
             bnd (persistDraft E (reworkedDraft draft reworkedBody t)) (\<lambda>newDraft.
             sendDraftNotification E newDraft
               (case getIdea s (r_ideaId rework) of
                  Some i \<Rightarrow> i | None \<Rightarrow> standInIdea rework draft)))))
            (\<lambda>error. say E channel ''Failed to rework the draft.'' None))
         (s\<lparr>pendingRework := None\<rparr>, w)"
  using assms by (simp add: handleReworkFeedback_def io_simps getIdea_def)

lemma handleReworkFeedback_frame:
  assumes pend: "pendingRework s = Some rework"
    and cached: "pendingDrafts s (r_draftId rework) = Some draft"
    and run: "handleReworkFeedback E feedback channel (s, w) = (r, s', w')"
    and k: "k \<noteq> ''draft-'' @ dec (now E (tick w + 2))"
  shows "pendingDrafts s' k = pendingDrafts s k"
proof -
  let ?s0 = "s\<lparr>pendingRework := None\<rparr>"
  let ?i = "case getIdea s (r_ideaId rework) of Some i \<Rightarrow> i | None \<Rightarrow> standInIdea rework draft"
  from run handleReworkFeedback_unfold [OF pend cached, of E feedback channel w]
  have whole: "seq (say E channel ''Reworking the draft with your feedback...'' None)
         (try_catch
            (bnd (reworkDraft E (d_body draft) feedback (d_format draft)) (\<lambda>reworkedBody.
             bnd (clock E) (\<lambda>t.
             bnd (persistDraft E (reworkedDraft draft reworkedBody t)) (\<lambda>newDraft.
             sendDraftNotification E newDraft ?i))))
            (\<lambda>error. say E channel ''Failed to rework the draft.'' None))
         (?s0, w) = (r, s', w')"
    by simp
  obtain r1 s1 w1 where a:
    "say E channel ''Reworking the draft with your feedback...'' None (?s0, w) = (r1, s1, w1)"
    by (cases "say E channel ''Reworking the draft with your feedback...'' None (?s0, w)") auto
  from say_state [OF a] have s1: "s1 = ?s0" .
  from a have w1: "tick w1 = Suc (tick w)"
    by (auto simp: say_def chatPost_def io_simps split: sum.splits)
  show ?thesis
  proof (cases r1)
    case (Inl e)
    with whole a s1 have "s' = ?s0" by (simp add: io_simps)
    then show ?thesis by simp
  next
    case (Inr u)
    show ?thesis
    proof (cases "reworkText E (tick w1) (d_body draft) feedback")
      case rw: (Inl e)
      let ?w2 = "w1\<lparr>tick := Suc (tick w1), calls := calls w1
          @ [(ReworkText (d_body draft) feedback (d_format draft), ?s0)]\<rparr>"
      from whole a s1 Inr rw
      have "say E channel ''Failed to rework the draft.'' None (?s0, ?w2) = (r, s', w')"
        by (simp add: io_simps reworkDraft_def)
      from say_state [OF this] show ?thesis by simp
    next
      case rw: (Inr body)
      let ?w2 = "w1\<lparr>tick := Suc (tick w1), calls := calls w1
          @ [(ReworkText (d_body draft) feedback (d_format draft), ?s0)]\<rparr>"
      let ?t = "now E (tick ?w2)"
      let ?w3 = "?w2\<lparr>tick := Suc (tick ?w2)\<rparr>"
      have t: "?t = now E (tick w + 2)" using w1 by simp
      obtain r4 s4 w4 where p:
        "persistDraft E (reworkedDraft draft body ?t) (?s0, ?w3) = (r4, s4, w4)"
        by (cases "persistDraft E (reworkedDraft draft body ?t) (?s0, ?w3)") auto
      from persistDraft_result [OF p] obtain page where
        s4: "s4 = ?s0" and r4: "r4 = Inr ((reworkedDraft draft body ?t)\<lparr>d_notionPageId := page\<rparr>)"
        by blast
      let ?new = "(reworkedDraft draft body ?t)\<lparr>d_notionPageId := page\<rparr>"
      obtain r5 s5 w5 where n: "sendDraftNotification E ?new ?i (?s0, w4) = (r5, s5, w5)"
        by (cases "sendDraftNotification E ?new ?i (?s0, w4)") auto
      from sendDraftNotification_state [OF n]
      have s5: "pendingDrafts s5 k = pendingDrafts s k"
        using k t by (auto simp: reworkedDraft_fields)
      show ?thesis
      proof (cases r5)
        case (Inl e)
        with whole a s1 Inr rw p s4 r4 n
        have "say E channel ''Failed to rework the draft.'' None (s5, w5) = (r, s', w')"
          by (simp add: io_simps reworkDraft_def)
        from say_state [OF this] s5 show ?thesis by simp
      next
        case r5: (Inr v)
        with whole a s1 Inr rw p s4 r4 n have "s' = s5"
          by (simp add: io_simps reworkDraft_def)
        with s5 show ?thesis by simp
      qed
    qed
  qed
qed

lemma handleReworkFeedback_new:
  assumes pend: "pendingRework s = Some rework"
    and cached: "pendingDrafts s (r_draftId rework) = Some draft"
    and run: "handleReworkFeedback E feedback channel (s, w) = (r, s', w')"
    and chat: "chatNeverFails E"
    and rw: "reworkText E (tick w + 1) (d_body draft) feedback = Inr body"
  shows "\<exists>page. pendingDrafts s' (''draft-'' @ dec (now E (tick w + 2)))
           = Some ((reworkedDraft draft body (now E (tick w + 2)))\<lparr>d_notionPageId := page\<rparr>)"
proof -
  let ?s0 = "s\<lparr>pendingRework := None\<rparr>"
  let ?i = "case getIdea s (r_ideaId rework) of Some i \<Rightarrow> i | None \<Rightarrow> standInIdea rework draft"
  from run handleReworkFeedback_unfold [OF pend cached, of E feedback channel w]
  have whole: "seq (say E channel ''Reworking the draft with your feedback...'' None)
         (try_catch
            (bnd (reworkDraft E (d_body draft) feedback (d_format draft)) (\<lambda>reworkedBody.
             bnd (clock E) (\<lambda>t.
             bnd (persistDraft E (reworkedDraft draft reworkedBody t)) (\<lambda>newDraft.
             sendDraftNotification E newDraft ?i))))
            (\<lambda>error. say E channel ''Failed to rework the draft.'' None))
         (?s0, w) = (r, s', w')"
    by simp
  from say_ok [OF chat] obtain w1 where a:
    "say E channel ''Reworking the draft with your feedback...'' None (?s0, w) = (Inr (), ?s0, w1)"
    by blast
  from a have w1: "tick w1 = Suc (tick w)"
    by (auto simp: say_def chatPost_def io_simps split: sum.splits)
  let ?w2 = "w1\<lparr>tick := Suc (tick w1), calls := calls w1
      @ [(ReworkText (d_body draft) feedback (d_format draft), ?s0)]\<rparr>"
  let ?t = "now E (tick ?w2)"
  let ?w3 = "?w2\<lparr>tick := Suc (tick ?w2)\<rparr>"
  have t: "?t = now E (tick w + 2)" using w1 by simp
  from rw w1 have rw1: "reworkText E (tick w1) (d_body draft) feedback = Inr body" by simp
  obtain r4 s4 w4 where p:
    "persistDraft E (reworkedDraft draft body ?t) (?s0, ?w3) = (r4, s4, w4)"
    by (cases "persistDraft E (reworkedDraft draft body ?t) (?s0, ?w3)") auto
  from persistDraft_result [OF p] obtain page where s4: "s4 = ?s0"
    and r4: "r4 = Inr ((reworkedDraft draft body ?t)\<lparr>d_notionPageId := page\<rparr>)"
    by blast
  define new where "new = (reworkedDraft draft body ?t)\<lparr>d_notionPageId := page\<rparr>"
  have newid: "d_id new = ''draft-'' @ dec ?t"
    unfolding new_def by (simp add: reworkedDraft_fields)
  from r4 have r4': "r4 = Inr new" by (simp add: new_def)
  from sendDraftNotification_ok [OF chat, of new ?i ?s0 w4] obtain w5 where
    n: "sendDraftNotification E new ?i (?s0, w4)
          = (Inr (), ?s0\<lparr>pendingDrafts := (pendingDrafts ?s0)(d_id new \<mapsto> new)\<rparr>, w5)"
    by blast
  from whole a rw1 p s4 r4' n
  have "s' = ?s0\<lparr>pendingDrafts := (pendingDrafts ?s0)(d_id new \<mapsto> new)\<rparr>"
    by (simp add: io_simps reworkDraft_def)
  with newid have "pendingDrafts s' (''draft-'' @ dec ?t) = Some new"
    by simp
  with t show ?thesis unfolding new_def by auto
qed

subsection \<open>The versions of an idea's drafts\<close>

text \<open>Computations that neither touch the cache of drafts nor save a draft.\<close>

lemma savedDrafts_snoc [simp]:
  "savedDrafts (cs @ [(rq, s)])
     = savedDrafts cs @ (case rq of SaveContentDraft d \<Rightarrow> [d] | _ \<Rightarrow> [])"
  by (simp add: savedDrafts_def)

lemma drafts_call:
  "(case rq of SaveContentDraft d \<Rightarrow> False | _ \<Rightarrow> True) \<Longrightarrow>
   preserves (\<lambda>\<sigma>. Q (pendingDrafts (fst \<sigma>)) (savedDrafts (calls (snd \<sigma>)))) (call rq a)"
  by (rule preserves_call) (cases rq; simp)

lemma drafts_clock:
  "preserves (\<lambda>\<sigma>. Q (pendingDrafts (fst \<sigma>)) (savedDrafts (calls (snd \<sigma>)))) (clock E)"
  by (rule preserves_clock) simp

lemma drafts_modify:
  "(\<And>s. pendingDrafts (f s) = pendingDrafts s) \<Longrightarrow>
   preserves (\<lambda>\<sigma>. Q (pendingDrafts (fst \<sigma>)) (savedDrafts (calls (snd \<sigma>)))) (modify f)"
  by (rule preserves_modify) simp

lemmas drafts_rules = control_rules drafts_call drafts_clock drafts_modify

lemma drafts_say:
  "preserves (\<lambda>\<sigma>. Q (pendingDrafts (fst \<sigma>)) (savedDrafts (calls (snd \<sigma>)))) (say E c t th)"
  unfolding say_def chatPost_def by (intro drafts_rules) simp

lemma drafts_updateIdeaStatus:
  "preserves (\<lambda>\<sigma>. Q (pendingDrafts (fst \<sigma>)) (savedDrafts (calls (snd \<sigma>))))
     (updateIdeaStatus E i st)"
  unfolding updateIdeaStatus_def by (intro drafts_rules) simp_all

lemma drafts_sendContentPing:
  "preserves (\<lambda>\<sigma>. Q (pendingDrafts (fst \<sigma>)) (savedDrafts (calls (snd \<sigma>))))
     (sendContentPing E idea)"
  unfolding sendContentPing_def generateInterviewOpener_def chatPost_def
  by (intro drafts_rules drafts_updateIdeaStatus) simp_all

lemma drafts_mineFromTranscripts:
  "preserves (\<lambda>\<sigma>. Q (pendingDrafts (fst \<sigma>)) (savedDrafts (calls (snd \<sigma>))))
     (mineFromTranscripts E ts)"
  unfolding mineFromTranscripts_def fetchContent_def mineBatch_def recordMinedIdea_def
    mineContentIdeas_def
  by (intro drafts_rules) (simp_all add: setIdeaPage_def)

lemma drafts_drainBatch:
  "preserves (\<lambda>\<sigma>. Q (pendingDrafts (fst \<sigma>)) (savedDrafts (calls (snd \<sigma>)))) (drainBatch E)"
  unfolding drainBatch_def recordQueuedIdea_def mineContentIdeas_def
  by (intro drafts_rules) (simp_all add: setIdeaPage_def)

lemma drafts_queueTranscript:
  "preserves (\<lambda>\<sigma>. Q (pendingDrafts (fst \<sigma>)) (savedDrafts (calls (snd \<sigma>))))
     (queueTranscript E t)"
  unfolding queueTranscript_def
  by (intro drafts_rules preserves_processQueue drafts_drainBatch) simp_all

lemma foldl_loadIdea_drafts:
  "pendingDrafts (fst (foldl loadIdea (s, b) loaded)) = pendingDrafts s"
  by (induction loaded arbitrary: s b) (simp_all add: loadIdea_def)

lemma drafts_loadFromNotion:
  "preserves (\<lambda>\<sigma>. Q (pendingDrafts (fst \<sigma>)) (savedDrafts (calls (snd \<sigma>))))
     (loadFromNotion E a)"
  unfolding loadFromNotion_def
proof (intro drafts_rules)
  fix loaded and s :: state
  obtain s1 flag where f: "foldl loadIdea (s, False) loaded = (s1, flag)"
    by (cases "foldl loadIdea (s, False) loaded")
  from foldl_loadIdea_drafts [of s False loaded] f have "pendingDrafts s1 = pendingDrafts s"
    by simp
  then show "pendingDrafts
      (case foldl loadIdea (s, False) loaded of
         (s', hasOrphanedIdeas) \<Rightarrow>
           (case a of
              None \<Rightarrow> s'
            | Some tids \<Rightarrow>
                if hasOrphanedIdeas
                then s'\<lparr>minedTranscriptIds := minedTranscriptIds s' \<union> set tids\<rparr>
                else s')) = pendingDrafts s"
    by (auto simp: f split: option.splits)
qed simp

lemma drafts_runCall:
  "Q (pendingDrafts (fst \<sigma>)) (savedDrafts (calls (snd \<sigma>))) \<Longrightarrow>
   Q (pendingDrafts (fst (runCall E c \<sigma>))) (savedDrafts (calls (snd (runCall E c \<sigma>))))"
proof (cases c)
  case (LoadFromNotion a)
  assume "Q (pendingDrafts (fst \<sigma>)) (savedDrafts (calls (snd \<sigma>)))"
  from preservesD [OF drafts_loadFromNotion, of Q \<sigma>, OF this] LoadFromNotion
  show ?thesis by simp
next
  case (QueueTranscript t)
  assume "Q (pendingDrafts (fst \<sigma>)) (savedDrafts (calls (snd \<sigma>)))"
  from preservesD [OF drafts_queueTranscript, of Q \<sigma>, OF this] QueueTranscript
  show ?thesis by simp
next
  case (MineFromTranscripts ts)
  assume "Q (pendingDrafts (fst \<sigma>)) (savedDrafts (calls (snd \<sigma>)))"
  from preservesD [OF drafts_mineFromTranscripts, of Q \<sigma>, OF this] MineFromTranscripts
  show ?thesis by simp
next
  case (UpdateIdeaStatus i st)
  assume "Q (pendingDrafts (fst \<sigma>)) (savedDrafts (calls (snd \<sigma>)))"
  from preservesD [OF drafts_updateIdeaStatus, of Q \<sigma>, OF this] UpdateIdeaStatus
  show ?thesis by simp
qed

lemma drafts_getRecent:
  "preserves (\<lambda>\<sigma>. Q (pendingDrafts (fst \<sigma>)) (savedDrafts (calls (snd \<sigma>)))) (getRecent E days)"
  unfolding getRecent_def by (intro drafts_rules)

lemma drafts_runContentCycle:
  "preserves (\<lambda>\<sigma>. Q (pendingDrafts (fst \<sigma>)) (savedDrafts (calls (snd \<sigma>)))) (runContentCycle E)"
  unfolding runContentCycle_def
  by (intro control_rules drafts_sendContentPing drafts_getRecent drafts_mineFromTranscripts)

lemma drafts_save:
  "preserves (\<lambda>\<sigma>. Q (pendingDrafts (fst \<sigma>)) (savedDrafts (calls (snd \<sigma>)))) (save E t)"
  unfolding save_def by (intro drafts_rules) simp_all

lemma drafts_loadTranscriptsFromNotion:
  "preserves (\<lambda>\<sigma>. Q (pendingDrafts (fst \<sigma>)) (savedDrafts (calls (snd \<sigma>))))
     (loadTranscriptsFromNotion E)"
  unfolding loadTranscriptsFromNotion_def by (intro drafts_rules) simp_all

lemma drafts_handleCommand:
  "preserves (\<lambda>\<sigma>. Q (pendingDrafts (fst \<sigma>)) (savedDrafts (calls (snd \<sigma>))))
     (handleCommand E text c)"
  unfolding handleCommand_def Let_def handleHelpCommand_def handleStatusCommand_def
    handleIdeasCommand_def handleMineCommand_def handleDraftCommand_def startByIdentifier_def
    updSession_def
  by (intro control_rules drafts_say drafts_getRecent drafts_mineFromTranscripts
      drafts_sendContentPing drafts_modify) simp_all

lemma drafts_askFollowUp:
  "preserves (\<lambda>\<sigma>. Q (pendingDrafts (fst \<sigma>)) (savedDrafts (calls (snd \<sigma>))))
     (askFollowUp E k idea msgs th c)"
  unfolding askFollowUp_def generateFollowUp_def updSession_def
  by (intro drafts_rules drafts_say) simp_all


lemma drafts_hasEnoughMaterial:
  "preserves (\<lambda>\<sigma>. Q (pendingDrafts (fst \<sigma>)) (savedDrafts (calls (snd \<sigma>))))
     (hasEnoughMaterial E msgs)"
  unfolding hasEnoughMaterial_def by (intro drafts_rules) simp

lemma known_mono: "set a \<subseteq> set b \<Longrightarrow> known a d \<Longrightarrow> known b d"
  unfolding known_def by blast

lemma rooted_mono: "set a \<subseteq> set b \<Longrightarrow> rooted a d \<Longrightarrow> rooted b d"
  unfolding rooted_def by blast

lemma lineal_saved: "lineal c sv \<Longrightarrow> rooted sv d \<Longrightarrow> lineal c (sv @ [d])"
  unfolding lineal_def
  by (auto intro: rooted_mono [of sv "sv @ [d]"] known_mono [of sv "sv @ [d]"])

lemma lineal_cache: "lineal c sv \<Longrightarrow> known sv d \<Longrightarrow> lineal (c(k \<mapsto> d)) sv"
  unfolding lineal_def ran_def by auto

lemma known_rework: "known sv d \<Longrightarrow> rooted sv (reworkedDraft d b t)"
  unfolding known_def rooted_def by (auto simp: reworkedDraft_def)

lemma known_same:
  "known sv d \<Longrightarrow> d_ideaId d' = d_ideaId d \<Longrightarrow> d_format d' = d_format d
   \<Longrightarrow> d_version d' = d_version d \<Longrightarrow> known sv d'"
  unfolding known_def by auto

lemma persistDraft_saved:
  assumes "\<And>c sv. Q c sv \<Longrightarrow> Q c (sv @ [d])"
  shows "preserves (\<lambda>\<sigma>. Q (pendingDrafts (fst \<sigma>)) (savedDrafts (calls (snd \<sigma>))))
           (persistDraft E d)"
  unfolding persistDraft_def
  by (intro control_rules preserves_call) (simp add: assms)

lemma persistDraft_known:
  "persistDraft E d \<sigma> = (Inr d', \<sigma>') \<Longrightarrow> known (savedDrafts (calls (snd \<sigma>'))) d'"
  by (cases \<sigma>; cases "saveContentDraft E (tick (snd \<sigma>)) d")
    (auto simp: persistDraft_def io_simps known_def)

lemma sendDraftNotification_cache:
  assumes "\<And>c sv. Q c sv \<Longrightarrow> Q (c(d_id d \<mapsto> d)) sv"
  shows "preserves (\<lambda>\<sigma>. Q (pendingDrafts (fst \<sigma>)) (savedDrafts (calls (snd \<sigma>))))
           (sendDraftNotification E d i)"
  unfolding sendDraftNotification_def chatPost_def
  by (intro control_rules drafts_say drafts_call preserves_modify) (simp_all add: assms)

abbreviation (input) lineally :: "sys \<Rightarrow> bool" where
  "lineally \<sigma> \<equiv> lineal (pendingDrafts (fst \<sigma>)) (savedDrafts (calls (snd \<sigma>)))"

lemma generateDraft_drafts:
  "preserves (\<lambda>\<sigma>. Q (pendingDrafts (fst \<sigma>)) (savedDrafts (calls (snd \<sigma>))))
     (generateDraft E idea msgs fmt)"
  unfolding generateDraft_def by (intro drafts_rules) simp

lemma lineal_produceDraft: "preserves lineally (produceDraft E k idea msgs th c)"
proof -
  let ?K = "\<lambda>d c sv. lineal c sv \<and> known sv d"
  have tail: "preserves (\<lambda>\<sigma>. lineally \<sigma> \<and> known (savedDrafts (calls (snd \<sigma>))) saved)
      (seq (updateIdeaStatus E (i_id idea) Draft_ready)
        (seq (sendDraftNotification E saved idea)
           (if suggestedFormat idea = Linkedin_post then
              bnd (syndicateToXThread E (d_body saved)) (\<lambda>xThread.
                say E (slackUserId E) xThread None)
            else ret ())))" for saved
    unfolding syndicateToXThread_def
    by (intro control_rules drafts_updateIdeaStatus [where Q = "?K saved"]
        sendDraftNotification_cache [where Q = "?K saved"] drafts_say [where Q = "?K saved"]
        drafts_call [where Q = "?K saved"])
      (simp_all add: lineal_cache)
  have persist: "preserves lineally
      (bnd (persistDraft E draft) (\<lambda>saved.
         seq (updateIdeaStatus E (i_id idea) Draft_ready)
        (seq (sendDraftNotification E saved idea)
           (if suggestedFormat idea = Linkedin_post then
              bnd (syndicateToXThread E (d_body saved)) (\<lambda>xThread.
                say E (slackUserId E) xThread None)
            else ret ()))))" if "d_version draft = 1" for draft
  proof (rule preserves_bnd_fact [where G = "\<lambda>x \<sigma>. known (savedDrafts (calls (snd \<sigma>))) x"])
    show "preserves lineally (persistDraft E draft)"
      by (rule persistDraft_saved [where Q = lineal]) (simp add: lineal_saved rooted_def that)
  next
    fix \<sigma> :: sys and x \<sigma>'
    assume "persistDraft E draft \<sigma> = (Inr x, \<sigma>')"
    then show "known (savedDrafts (calls (snd \<sigma>'))) x" by (rule persistDraft_known)
  next
    fix x show "preserves (\<lambda>\<sigma>. lineally \<sigma> \<and> known (savedDrafts (calls (snd \<sigma>))) x)
      (seq (updateIdeaStatus E (i_id idea) Draft_ready)
        (seq (sendDraftNotification E x idea)
           (if suggestedFormat idea = Linkedin_post then
              bnd (syndicateToXThread E (d_body x)) (\<lambda>xThread.
                say E (slackUserId E) xThread None)
            else ret ())))" by (rule tail)
  qed
  have gen: "preserves lineally
      (bnd (generateDraft E idea msgs (suggestedFormat idea)) (\<lambda>draft.
       bnd (persistDraft E draft) (\<lambda>saved.
         seq (updateIdeaStatus E (i_id idea) Draft_ready)
        (seq (sendDraftNotification E saved idea)
           (if suggestedFormat idea = Linkedin_post then
              bnd (syndicateToXThread E (d_body saved)) (\<lambda>xThread.
                say E (slackUserId E) xThread None)
            else ret ())))))"
    by (rule preserves_bnd_pure [where G = "\<lambda>d. d_version d = 1"])
      (rule generateDraft_drafts [where Q = lineal], erule generateDraft_version, erule persist)
  show ?thesis
    unfolding produceDraft_def updSession_def
    by (intro preserves_seq preserves_bnd drafts_say [where Q = lineal]
        drafts_clock [where Q = lineal] drafts_modify [where Q = lineal] gen) simp
qed

lemma lineal_handleInterviewReply:
  "preserves lineally (handleInterviewReply E k session um th c)"
  unfolding handleInterviewReply_def updSession_def
  by (intro control_rules drafts_clock [where Q = lineal] drafts_modify [where Q = lineal]
      drafts_hasEnoughMaterial [where Q = lineal] lineal_produceDraft
      drafts_askFollowUp [where Q = lineal]) simp


lemma lineal_rework_rest:
  "preserves (\<lambda>\<sigma>. lineally \<sigma> \<and> known (savedDrafts (calls (snd \<sigma>))) draft)
     (bnd (gets (\<lambda>s. getIdea s (r_ideaId rework))) (\<lambda>idea.
      seq (say E channel ''Reworking the draft with your feedback...'' None)
        (try_catch
           (bnd (reworkDraft E (d_body draft) feedback (d_format draft)) (\<lambda>reworkedBody.
            bnd (clock E) (\<lambda>t.
            bnd (persistDraft E (reworkedDraft draft reworkedBody t)) (\<lambda>newDraft.
            sendDraftNotification E newDraft
              (case idea of Some i \<Rightarrow> i | None \<Rightarrow> standInIdea rework draft)))))
           (\<lambda>error. say E channel ''Failed to rework the draft.'' None))))"
proof -
  let ?K = "\<lambda>c sv. lineal c sv \<and> known sv draft"
  have persist: "preserves (\<lambda>\<sigma>. lineally \<sigma> \<and> known (savedDrafts (calls (snd \<sigma>))) draft)
      (bnd (persistDraft E (reworkedDraft draft body t)) (\<lambda>newDraft.
         sendDraftNotification E newDraft i))" for body t i
  proof (rule preserves_bnd_fact [where G = "\<lambda>x \<sigma>. known (savedDrafts (calls (snd \<sigma>))) x"])
    show "preserves (\<lambda>\<sigma>. lineally \<sigma> \<and> known (savedDrafts (calls (snd \<sigma>))) draft)
        (persistDraft E (reworkedDraft draft body t))"
      by (rule persistDraft_saved [where Q = ?K])
        (auto intro: lineal_saved known_rework known_mono)
  next
    fix \<sigma> :: sys and x \<sigma>'
    assume "persistDraft E (reworkedDraft draft body t) \<sigma> = (Inr x, \<sigma>')"
    then show "known (savedDrafts (calls (snd \<sigma>'))) x" by (rule persistDraft_known)
  next
    fix x
    show "preserves (\<lambda>\<sigma>. (lineally \<sigma> \<and> known (savedDrafts (calls (snd \<sigma>))) draft)
        \<and> known (savedDrafts (calls (snd \<sigma>))) x) (sendDraftNotification E x i)"
      by (rule sendDraftNotification_cache
          [where Q = "\<lambda>c sv. (lineal c sv \<and> known sv draft) \<and> known sv x"])
        (simp add: lineal_cache)
  qed
  show ?thesis
    unfolding reworkDraft_def
    by (intro control_rules drafts_say [where Q = ?K] drafts_call [where Q = ?K]
        drafts_clock [where Q = ?K] persist) simp
qed

lemma in_ran: "m k = Some v \<Longrightarrow> v \<in> ran m"
  by (auto simp: ran_def)

lemma lineal_rework_cached:
  "preserves lineally
     (bnd (gets (\<lambda>s. pendingDrafts s (r_draftId rework))) (\<lambda>cached.
        case cached of
          None \<Rightarrow> say E c ''Could not find the original draft.'' None
        | Some draft \<Rightarrow>
            bnd (gets (\<lambda>s. getIdea s (r_ideaId rework))) (\<lambda>idea.
            seq (say E c ''Reworking the draft with your feedback...'' None)
              (try_catch
                 (bnd (reworkDraft E (d_body draft) fb (d_format draft)) (\<lambda>reworkedBody.
                  bnd (clock E) (\<lambda>t.
                  bnd (persistDraft E (reworkedDraft draft reworkedBody t)) (\<lambda>newDraft.
                  sendDraftNotification E newDraft
                    (case idea of Some i \<Rightarrow> i | None \<Rightarrow> standInIdea rework draft)))))
                 (\<lambda>error. say E c ''Failed to rework the draft.'' None)))))"
proof (rule preserves_gets_option [where G = "\<lambda>x \<sigma>. known (savedDrafts (calls (snd \<sigma>))) x"])
  show "preserves lineally (say E c ''Could not find the original draft.'' None)"
    by (rule drafts_say [where Q = lineal])
next
  fix draft
  show "preserves (\<lambda>\<sigma>. lineally \<sigma> \<and> known (savedDrafts (calls (snd \<sigma>))) draft)
     (bnd (gets (\<lambda>s. getIdea s (r_ideaId rework))) (\<lambda>idea.
      seq (say E c ''Reworking the draft with your feedback...'' None)
        (try_catch
           (bnd (reworkDraft E (d_body draft) fb (d_format draft)) (\<lambda>reworkedBody.
            bnd (clock E) (\<lambda>t.
            bnd (persistDraft E (reworkedDraft draft reworkedBody t)) (\<lambda>newDraft.
            sendDraftNotification E newDraft
              (case idea of Some i \<Rightarrow> i | None \<Rightarrow> standInIdea rework draft)))))
           (\<lambda>error. say E c ''Failed to rework the draft.'' None))))"
    by (rule lineal_rework_rest)
next
  fix s w x
  assume "lineally (s, w)" and "pendingDrafts s (r_draftId rework) = Some x"
  then show "known (savedDrafts (calls (snd (s, w)))) x"
    by (auto simp: lineal_def dest: in_ran)
qed

lemma lineal_handleReworkFeedback: "preserves lineally (handleReworkFeedback E fb c)"
  unfolding handleReworkFeedback_def
  by (intro lineal_rework_cached preserves_bnd [OF preserves_gets] preserves_case_option
      preserves_ret preserves_seq drafts_modify [where Q = lineal]) simp

lemma lineal_status:
  "lineal c sv \<Longrightarrow> known sv d \<Longrightarrow> lineal (c(k \<mapsto> d\<lparr>d_status := st\<rparr>)) sv"
  by (rule lineal_cache) (auto intro: known_same)

lemma lineal_approve:
  "preserves lineally
     (bnd (gets (\<lambda>s. pendingDrafts s v)) (\<lambda>cached.
        case cached of
          None \<Rightarrow> say E (slackUserId E) ''Could not find that draft.'' None
        | Some draft \<Rightarrow>
            seq (modify (\<lambda>s. s\<lparr>pendingDrafts :=
                   (pendingDrafts s)(v \<mapsto> draft\<lparr>d_status := Approved\<rparr>)\<rparr>))
           (seq (case d_notionPageId draft of
                   None \<Rightarrow> ret ()
                 | Some pageId \<Rightarrow>
                     if pageId \<noteq> [] then
                       call (UpdatePageStatus pageId (DraftPage Approved))
                         (\<lambda>n. updatePageStatus E n pageId (DraftPage Approved))
                     else ret ())
                (say E (slackUserId E) ''Draft approved.'' None))))"
proof (rule preserves_gets_option [where G = "\<lambda>x \<sigma>. known (savedDrafts (calls (snd \<sigma>))) x"])
  show "preserves lineally (say E (slackUserId E) ''Could not find that draft.'' None)"
    by (rule drafts_say [where Q = lineal])
next
  fix draft
  let ?K = "\<lambda>c sv. lineal c sv \<and> known sv draft"
  show "preserves (\<lambda>\<sigma>. lineally \<sigma> \<and> known (savedDrafts (calls (snd \<sigma>))) draft)
     (seq (modify (\<lambda>s. s\<lparr>pendingDrafts :=
             (pendingDrafts s)(v \<mapsto> draft\<lparr>d_status := Approved\<rparr>)\<rparr>))
        (seq (case d_notionPageId draft of
                None \<Rightarrow> ret ()
              | Some pageId \<Rightarrow>
                  if pageId \<noteq> [] then
                    call (UpdatePageStatus pageId (DraftPage Approved))
                      (\<lambda>n. updatePageStatus E n pageId (DraftPage Approved))
                  else ret ())
           (say E (slackUserId E) ''Draft approved.'' None)))"
    by (intro control_rules drafts_say [where Q = ?K] drafts_call [where Q = ?K] preserves_modify)
      (simp_all add: lineal_status)
next
  fix s w x
  assume "lineally (s, w)" and "pendingDrafts s v = Some x"
  then show "known (savedDrafts (calls (snd (s, w)))) x"
    by (auto simp: lineal_def dest: in_ran)
qed

lemma lineal_handleAction: "preserves lineally (handleAction E a)"
  unfolding handleAction_def syndicateToXThread_def
  by (intro control_rules lineal_approve drafts_say [where Q = lineal]
      drafts_call [where Q = lineal] drafts_modify [where Q = lineal]) simp_all

lemma lineal_onInteractive: "preserves lineally (onInteractive E p)"
  unfolding onInteractive_def
  by (intro control_rules lineal_handleAction drafts_say [where Q = lineal]
      drafts_call [where Q = lineal]) simp

lemma lineal_dispatch: "preserves lineally (dispatch E r um c)"
proof (cases r)
  case (ThreadReply k session)
  then show ?thesis by (simp add: dispatch_def lineal_handleInterviewReply)
next
  case (LatestReply k session)
  then show ?thesis by (simp add: dispatch_def lineal_handleInterviewReply)
next
  case CancelRework
  have "preserves lineally
      (seq (modify (\<lambda>s. s\<lparr>pendingRework := None\<rparr>))
         (say E c ''Rework cancelled. What would you like to do?'' None))"
    by (intro control_rules drafts_say [where Q = lineal] drafts_modify [where Q = lineal]) simp
  with CancelRework show ?thesis by (simp add: dispatch_def)
next
  case ReworkFeedback
  then show ?thesis by (simp add: dispatch_def lineal_handleReworkFeedback)
next
  case CommandAfterRework
  have "preserves lineally
      (seq (modify (\<lambda>s. s\<lparr>pendingRework := None\<rparr>)) (handleCommand E um c))"
    by (intro control_rules drafts_handleCommand [where Q = lineal]
        drafts_modify [where Q = lineal]) simp
  with CommandAfterRework show ?thesis by (simp add: dispatch_def)
next
  case Command
  then show ?thesis by (simp add: dispatch_def drafts_handleCommand [where Q = lineal])
qed

lemma lineal_onMessage: "preserves lineally (onMessage E m)"
  unfolding onMessage_def
  by (intro control_rules lineal_dispatch drafts_say [where Q = lineal]
      drafts_call [where Q = lineal]) simp

lemma lineal_step: "lineally \<sigma> \<Longrightarrow> lineally (step E e \<sigma>)"
proof (cases e)
  case (Message m)
  assume "lineally \<sigma>"
  from preservesD [OF lineal_onMessage this] Message show ?thesis by simp
next
  case (Interactive p)
  assume "lineally \<sigma>"
  from preservesD [OF lineal_onInteractive this] Interactive show ?thesis by simp
next
  case ContentCycle
  assume "lineally \<sigma>"
  from preservesD [OF drafts_runContentCycle [where Q = lineal] this] ContentCycle
  show ?thesis by simp
next
  case (ContentPing idea)
  assume l: "lineally \<sigma>"
  have "preserves lineally (try_catch (sendContentPing E idea) (\<lambda>error. ret ()))"
    by (intro control_rules drafts_sendContentPing [where Q = lineal])
  from preservesD [OF this l] ContentPing show ?thesis by simp
next
  case (Miner c)
  assume "lineally \<sigma>"
  with Miner show ?thesis by (simp add: drafts_runCall [where Q = lineal])
next
  case (Store c)
  assume l: "lineally \<sigma>"
  show ?thesis
  proof (cases c)
    case (Save t)
    from preservesD [OF drafts_save [where Q = lineal] l] Store Save show ?thesis by simp
  next
    case LoadTranscriptsFromNotion
    from preservesD [OF drafts_loadTranscriptsFromNotion [where Q = lineal] l]
      Store LoadTranscriptsFromNotion
    show ?thesis by simp
  qed
qed

lemma lineal_run: "lineally \<sigma> \<Longrightarrow> lineally (run E es \<sigma>)"
proof (induction es arbitrary: \<sigma>)
  case Nil
  then show ?case by simp
next
  case (Cons e es)
  from Cons.IH [OF lineal_step [OF Cons.prems, of E e]] show ?case by simp
qed

lemma rooted_versions:
  assumes all: "\<forall>d \<in> set saved. rooted saved d"
  shows "d \<in> set saved \<Longrightarrow> 1 \<le> u \<Longrightarrow> u \<le> d_version d \<Longrightarrow>
         \<exists>d0 \<in> set saved. d_ideaId d0 = d_ideaId d \<and> d_format d0 = d_format d \<and> d_version d0 = u"
proof (induction "d_version d - u" arbitrary: d)
  case 0
  then have "d_version d = u" by simp
  with "0.prems"(1) show ?case by blast
next
  case (Suc n)
  then have "d_version d \<noteq> 1" by simp
  with all Suc.prems(1) obtain d0 where d0: "d0 \<in> set saved" "d_ideaId d0 = d_ideaId d"
      "d_format d0 = d_format d" "d_version d0 + 1 = d_version d"
    unfolding rooted_def by blast
  with Suc.hyps(2) have "n = d_version d0 - u" by simp
  moreover from d0 Suc.hyps(2) have "u \<le> d_version d0" by simp
  ultimately obtain d1 where "d1 \<in> set saved" "d_ideaId d1 = d_ideaId d0"
      "d_format d1 = d_format d0" "d_version d1 = u"
    using Suc.hyps(1) [of d0] d0(1) Suc.prems(2) by blast
  with d0 show ?case by auto
qed


text \<open>The saved drafts of the double rework, and the cache entry after a rework under the stuck clock.\<close>

lemma twice_saved:
  "map (\<lambda>d. (d_id d, d_ideaId d, d_version d))
     (savedDrafts (calls (snd (run env0 twice (interviewing, world0)))))
   = [(''draft-5'', ''a'', 1), (''draft-18'', ''a'', 2), (''draft-28'', ''a'', 2)]"
  by (simp add: rework_eval_defs)

lemma stuck_cached:
  "map_option (\<lambda>d. (d_version d, d_body d))
     (pendingDrafts (fst (snd (handleReworkFeedback stuck ''make it shorter'' ''D1''
        (awaitingFeedback, world0)))) ''draft-5'')
   = Some (2, ''reworked'')"
  by (simp add: rework_eval_defs)

text \<open>
  C6 as stated does not hold of the code. The identifier of the new draft is made from
  the clock: when the clock reads at the rework what it read for the original (draft 5
  under a clock stuck at 5), the new draft takes the original's identifier and its place in
  the cache, where draft 5 is now version 2 with the reworked body. And the version is the
  clicked draft's plus one, whatever was made before: Rework clicked twice on the first
  draft of idea \<open>a\<close> gives the versions 1, 2, 2 after two reworks.
\<close>

theorem rework_not_fresh_not_sequential:
  "map_option d_version (pendingDrafts (fst (snd (handleReworkFeedback stuck ''make it shorter''
       ''D1'' (awaitingFeedback, world0)))) ''draft-5'') = Some 2
   \<and> map_option d_body (pendingDrafts (fst (snd (handleReworkFeedback stuck ''make it shorter''
       ''D1'' (awaitingFeedback, world0)))) ''draft-5'') = Some ''reworked''
   \<and> map d_ideaId (savedDrafts (calls (snd (run env0 twice (interviewing, world0)))))
       = [''a'', ''a'', ''a'']
   \<and> map d_version (savedDrafts (calls (snd (run env0 twice (interviewing, world0)))))
       = [1, 2, 2]"
proof -
  let ?saved = "savedDrafts (calls (snd (run env0 twice (interviewing, world0))))"
  let ?cached = "pendingDrafts (fst (snd (handleReworkFeedback stuck ''make it shorter'' ''D1''
      (awaitingFeedback, world0)))) ''draft-5''"
  have "map d_ideaId ?saved = map (fst \<circ> snd) (map (\<lambda>d. (d_id d, d_ideaId d, d_version d)) ?saved)"
    and "map d_version ?saved = map (snd \<circ> snd) (map (\<lambda>d. (d_id d, d_ideaId d, d_version d)) ?saved)"
    by (simp_all add: comp_def)
  then have saved: "map d_ideaId ?saved = [''a'', ''a'', ''a'']" "map d_version ?saved = [1, 2, 2]"
    unfolding twice_saved by simp_all
  have "map_option d_version ?cached = map_option fst (map_option (\<lambda>d. (d_version d, d_body d)) ?cached)"
    and "map_option d_body ?cached = map_option snd (map_option (\<lambda>d. (d_version d, d_body d)) ?cached)"
    by (simp_all add: option.map_comp comp_def)
  then have "map_option d_version ?cached = Some 2" "map_option d_body ?cached = Some ''reworked''"
    unfolding stuck_cached by simp_all
  with saved show ?thesis by blast
qed

text \<open>
  C6, as amended. With a pending rework whose draft is in the cache,
  \<^verbatim>\<open>handleReworkFeedback\<close> changes no cache entry but the one under the new identifier
  \<^verbatim>\<open>draft-<now>\<close>. That identifier differs from the original's exactly when the clock
  reading differs from the one in the original's identifier, and then the original is
  still cached as it was. When the chat transport delivers and the rework request answers,
  the new entry has the reworked body, the clicked draft's version plus one, its format
  and its idea. Over any sequence of events, the drafts stay lineal: every draft the bot
  saved is a first version or one version above a saved draft of the same idea and format,
  so below every saved draft all the versions down to 1 were saved for its idea (no gaps);
  the versions need not be distinct.
\<close>

theorem rework_makes_new_version:
  "(pendingRework s = Some rework \<and> pendingDrafts s (r_draftId rework) = Some draft
      \<and> handleReworkFeedback E feedback channel (s, w) = (r, s', w')
    \<longrightarrow> (\<forall>k. k \<noteq> ''draft-'' @ dec (now E (tick w + 2)) \<longrightarrow> pendingDrafts s' k = pendingDrafts s k)
      \<and> (\<forall>t0. r_draftId rework = ''draft-'' @ dec t0
            \<longrightarrow> (''draft-'' @ dec (now E (tick w + 2)) \<noteq> r_draftId rework)
                  = (now E (tick w + 2) \<noteq> t0))
      \<and> (''draft-'' @ dec (now E (tick w + 2)) \<noteq> r_draftId rework
            \<longrightarrow> pendingDrafts s' (r_draftId rework) = Some draft)
      \<and> (\<forall>body. chatNeverFails E \<and> reworkText E (tick w + 1) (d_body draft) feedback = Inr body
            \<longrightarrow> (\<exists>d. pendingDrafts s' (''draft-'' @ dec (now E (tick w + 2))) = Some d
                   \<and> d_id d = ''draft-'' @ dec (now E (tick w + 2))
                   \<and> d_body d = body
                   \<and> d_version d = d_version draft + 1
                   \<and> d_format d = d_format draft \<and> d_ideaId d = d_ideaId draft)))
   \<and> (lineal (pendingDrafts s0) (savedDrafts (calls w0)) \<and> run E es (s0, w0) = (s1, w1)
      \<longrightarrow> lineal (pendingDrafts s1) (savedDrafts (calls w1))
        \<and> (\<forall>d \<in> set (savedDrafts (calls w1)). \<forall>u. 1 \<le> u \<and> u \<le> d_version d
             \<longrightarrow> (\<exists>d0 \<in> set (savedDrafts (calls w1)).
                    d_ideaId d0 = d_ideaId d \<and> d_format d0 = d_format d \<and> d_version d0 = u)))"
proof -
  have handler: "(\<forall>k. k \<noteq> ''draft-'' @ dec (now E (tick w + 2)) \<longrightarrow> pendingDrafts s' k = pendingDrafts s k)
      \<and> (\<forall>t0. r_draftId rework = ''draft-'' @ dec t0
            \<longrightarrow> (''draft-'' @ dec (now E (tick w + 2)) \<noteq> r_draftId rework)
                  = (now E (tick w + 2) \<noteq> t0))
      \<and> (''draft-'' @ dec (now E (tick w + 2)) \<noteq> r_draftId rework
            \<longrightarrow> pendingDrafts s' (r_draftId rework) = Some draft)
      \<and> (\<forall>body. chatNeverFails E \<and> reworkText E (tick w + 1) (d_body draft) feedback = Inr body
            \<longrightarrow> (\<exists>d. pendingDrafts s' (''draft-'' @ dec (now E (tick w + 2))) = Some d
                   \<and> d_id d = ''draft-'' @ dec (now E (tick w + 2))
                   \<and> d_body d = body
                   \<and> d_version d = d_version draft + 1
                   \<and> d_format d = d_format draft \<and> d_ideaId d = d_ideaId draft))"
    if pend: "pendingRework s = Some rework"
      and cached: "pendingDrafts s (r_draftId rework) = Some draft"
      and run: "handleReworkFeedback E feedback channel (s, w) = (r, s', w')"
  proof (intro conjI allI impI)
    fix k assume "k \<noteq> ''draft-'' @ dec (now E (tick w + 2))"
    with pend cached run show "pendingDrafts s' k = pendingDrafts s k"
      by (rule handleReworkFeedback_frame)
  next
    fix t0 assume "r_draftId rework = ''draft-'' @ dec t0"
    then show "(''draft-'' @ dec (now E (tick w + 2)) \<noteq> r_draftId rework)
        = (now E (tick w + 2) \<noteq> t0)"
      by (auto dest: dec_inj)
  next
    assume "''draft-'' @ dec (now E (tick w + 2)) \<noteq> r_draftId rework"
    then have "r_draftId rework \<noteq> ''draft-'' @ dec (now E (tick w + 2))" by (rule not_sym)
    from handleReworkFeedback_frame [OF pend cached run this] cached
    show "pendingDrafts s' (r_draftId rework) = Some draft" by simp
  next
    fix body
    assume "chatNeverFails E \<and> reworkText E (tick w + 1) (d_body draft) feedback = Inr body"
    then have chat: "chatNeverFails E"
      and rw: "reworkText E (tick w + 1) (d_body draft) feedback = Inr body"
      by simp_all
    from handleReworkFeedback_new [OF pend cached run chat rw] obtain page where
      "pendingDrafts s' (''draft-'' @ dec (now E (tick w + 2)))
         = Some ((reworkedDraft draft body (now E (tick w + 2)))\<lparr>d_notionPageId := page\<rparr>)"
      by blast
    then show "\<exists>d. pendingDrafts s' (''draft-'' @ dec (now E (tick w + 2))) = Some d
        \<and> d_id d = ''draft-'' @ dec (now E (tick w + 2))
        \<and> d_body d = body
        \<and> d_version d = d_version draft + 1
        \<and> d_format d = d_format draft \<and> d_ideaId d = d_ideaId draft"
      by (simp add: reworkedDraft_def)
  qed
  have runs: "lineal (pendingDrafts s1) (savedDrafts (calls w1))
        \<and> (\<forall>d \<in> set (savedDrafts (calls w1)). \<forall>u. 1 \<le> u \<and> u \<le> d_version d
             \<longrightarrow> (\<exists>d0 \<in> set (savedDrafts (calls w1)).
                    d_ideaId d0 = d_ideaId d \<and> d_format d0 = d_format d \<and> d_version d0 = u))"
    if start: "lineal (pendingDrafts s0) (savedDrafts (calls w0))"
      and r: "run E es (s0, w0) = (s1, w1)"
  proof (intro conjI ballI allI impI)
    from lineal_run [of "(s0, w0)" E es] start r
    show l: "lineal (pendingDrafts s1) (savedDrafts (calls w1))" by simp
    fix d u
    assume "d \<in> set (savedDrafts (calls w1))" and "1 \<le> u \<and> u \<le> d_version d"
    with l rooted_versions [of "savedDrafts (calls w1)" d u]
    show "\<exists>d0 \<in> set (savedDrafts (calls w1)).
        d_ideaId d0 = d_ideaId d \<and> d_format d0 = d_format d \<and> d_version d0 = u"
      by (simp add: lineal_def)
  qed
  from handler runs show ?thesis
    by blast
qed

text \<open>
  Draft 5 is reworked at clock reading 2 and stays cached; the double rework starts and
  ends lineal.
\<close>

theorem rework_makes_new_version_witness:
  "pendingDrafts (fst (snd (handleReworkFeedback env0 ''make it shorter'' ''D1''
       (awaitingFeedback, world0)))) ''draft-5'' = Some firstDraft
   \<and> (\<exists>d. pendingDrafts (fst (snd (handleReworkFeedback env0 ''make it shorter'' ''D1''
             (awaitingFeedback, world0)))) ''draft-2'' = Some d
          \<and> d_id d = ''draft-2'' \<and> d_body d = ''reworked'' \<and> d_version d = 2
          \<and> d_format d = Linkedin_post \<and> d_ideaId d = ''a'')
   \<and> lineal (pendingDrafts interviewing) (savedDrafts (calls world0))
   \<and> lineal (pendingDrafts (fst (run env0 twice (interviewing, world0))))
        (savedDrafts (calls (snd (run env0 twice (interviewing, world0)))))
   \<and> map d_version (savedDrafts (calls (snd (run env0 twice (interviewing, world0)))))
       = [1, 2, 2]"
proof -
  let ?rw = "\<lparr>r_draftId = ''draft-5'', r_ideaId = ''a''\<rparr>"
  obtain r s' w' where run:
    "handleReworkFeedback env0 ''make it shorter'' ''D1'' (awaitingFeedback, world0) = (r, s', w')"
    by (cases "handleReworkFeedback env0 ''make it shorter'' ''D1'' (awaitingFeedback, world0)") auto
  obtain s1 w1 where runs: "run env0 twice (interviewing, world0) = (s1, w1)"
    by (cases "run env0 twice (interviewing, world0)")
  have pend: "pendingRework awaitingFeedback = Some ?rw"
    and cached: "pendingDrafts awaitingFeedback (r_draftId ?rw) = Some firstDraft"
    by (simp_all add: awaitingFeedback_def)
  have t: "now env0 (tick world0 + 2) = 2" and id5: "r_draftId ?rw = ''draft-'' @ dec 5"
    and id2: "''draft-'' @ dec 2 = ''draft-2''"
    by (simp_all add: env0_def world0_def dec.simps digit_def)
  have ok: "chatNeverFails env0
      \<and> reworkText env0 (tick world0 + 1) (d_body firstDraft) ''make it shorter'' = Inr ''reworked''"
    by (simp add: chatNeverFails_def env0_def)
  have start: "lineal (pendingDrafts interviewing) (savedDrafts (calls world0))"
    by (simp add: lineal_def interviewing_def withIdea_def state0_def world0_def savedDrafts_def)
  note inst = rework_makes_new_version [where s = awaitingFeedback and rework = ?rw
      and draft = firstDraft and E = env0 and feedback = "''make it shorter''"
      and channel = "''D1''" and w = world0 and r = r and s' = s' and w' = w'
      and ?s0.0 = interviewing and ?w0.0 = world0 and es = twice and ?s1.0 = s1 and ?w1.0 = w1]
  from inst pend cached run id5
  have "(''draft-'' @ dec (now env0 (tick world0 + 2)) \<noteq> r_draftId ?rw) = (now env0 (tick world0 + 2) \<noteq> 5)"
    by blast
  with t have "''draft-'' @ dec (now env0 (tick world0 + 2)) \<noteq> r_draftId ?rw"
    by simp
  with inst pend cached run have "pendingDrafts s' (r_draftId ?rw) = Some firstDraft"
    by blast
  then have a: "pendingDrafts s' ''draft-5'' = Some firstDraft"
    by simp
  from inst pend cached run ok obtain d where
    "pendingDrafts s' (''draft-'' @ dec (now env0 (tick world0 + 2))) = Some d"
    "d_id d = ''draft-'' @ dec (now env0 (tick world0 + 2))" "d_body d = ''reworked''"
    "d_version d = d_version firstDraft + 1" "d_format d = d_format firstDraft"
    "d_ideaId d = d_ideaId firstDraft"
    by blast
  with t id2 have b: "\<exists>d. pendingDrafts s' ''draft-2'' = Some d \<and> d_id d = ''draft-2''
      \<and> d_body d = ''reworked'' \<and> d_version d = 2 \<and> d_format d = Linkedin_post \<and> d_ideaId d = ''a''"
    by (simp add: firstDraft_def)
  from inst start runs have c: "lineal (pendingDrafts s1) (savedDrafts (calls w1))"
    by blast
  have "map d_version (savedDrafts (calls (snd (run env0 twice (interviewing, world0)))))
      = map (snd \<circ> snd) (map (\<lambda>d. (d_id d, d_ideaId d, d_version d))
          (savedDrafts (calls (snd (run env0 twice (interviewing, world0))))))"
    by (simp add: comp_def)
  then have d: "map d_version (savedDrafts (calls (snd (run env0 twice (interviewing, world0)))))
      = [1, 2, 2]"
    unfolding twice_saved by simp
  from a b start c d show ?thesis
    by (simp add: run runs)
qed

section \<open>The pending rework is cleared first\<close>

lemma take_whole: "take (length b) xs = b \<Longrightarrow> length b \<le> length xs"
  by (metis length_take min.cobounded1)

lemma quiet_call: "preserves (quiet Q base) (call rq a)"
  by (rule preserves_call) (auto simp: quiet_def dest: take_whole)

lemma quiet_clock: "preserves (quiet Q base) (clock E)"
  by (rule preserves_clock) (auto simp: quiet_def)

lemma quiet_modify: "(\<And>s. Q s \<Longrightarrow> Q (f s)) \<Longrightarrow> preserves (quiet Q base) (modify f)"
  by (rule preserves_modify) (auto simp: quiet_def)

lemma quiet_say: "preserves (quiet Q base) (say E c t th)"
  unfolding say_def chatPost_def by (intro preserves_bnd preserves_ret quiet_call)

lemma quiet_persistDraft: "preserves (quiet Q base) (persistDraft E d)"
  unfolding persistDraft_def by (intro preserves_try preserves_bnd preserves_ret quiet_call)

lemma quiet_sendDraftNotification:
  "(\<And>s m. Q s \<Longrightarrow> Q (s\<lparr>pendingDrafts := m\<rparr>)) \<Longrightarrow>
   preserves (quiet Q base) (sendDraftNotification E d i)"
  unfolding sendDraftNotification_def chatPost_def
  by (intro preserves_bnd preserves_seq preserves_forEach quiet_say quiet_call quiet_modify)

lemma quiet_rework_rest:
  assumes "\<And>s m. Q s \<Longrightarrow> Q (s\<lparr>pendingDrafts := m\<rparr>)"
  shows "preserves (quiet Q base)
      (bnd (gets (\<lambda>s. pendingDrafts s (r_draftId rework))) (\<lambda>cached.
         case cached of
           None \<Rightarrow> say E channel ''Could not find the original draft.'' None
         | Some draft \<Rightarrow>
             bnd (gets (\<lambda>s. getIdea s (r_ideaId rework))) (\<lambda>idea.
             seq (say E channel ''Reworking the draft with your feedback...'' None)
               (try_catch
                  (bnd (reworkDraft E (d_body draft) feedback (d_format draft)) (\<lambda>reworkedBody.
                   bnd (clock E) (\<lambda>t.
                   bnd (persistDraft E (reworkedDraft draft reworkedBody t)) (\<lambda>newDraft.
                   sendDraftNotification E newDraft
                     (case idea of Some i \<Rightarrow> i | None \<Rightarrow> standInIdea rework draft)))))
                  (\<lambda>error. say E channel ''Failed to rework the draft.'' None)))))"
  unfolding reworkDraft_def
  by (intro preserves_bnd preserves_gets preserves_case_option preserves_seq preserves_try
      quiet_say quiet_call quiet_clock quiet_persistDraft quiet_sendDraftNotification assms)

lemma handleReworkFeedback_quiet:
  assumes pend: "pendingRework s = Some rework"
    and run: "handleReworkFeedback E feedback channel (s, w) = (r, s', w')"
  shows "quiet (\<lambda>x. pendingRework x = None \<and> activeSessions x = activeSessions s) (calls w) (s', w')"
proof -
  let ?Q = "\<lambda>x. pendingRework x = None \<and> activeSessions x = activeSessions s"
  define rest where "rest = bnd (gets (\<lambda>s. pendingDrafts s (r_draftId rework))) (\<lambda>cached.
         case cached of
           None \<Rightarrow> say E channel ''Could not find the original draft.'' None
         | Some draft \<Rightarrow>
             bnd (gets (\<lambda>s. getIdea s (r_ideaId rework))) (\<lambda>idea.
             seq (say E channel ''Reworking the draft with your feedback...'' None)
               (try_catch
                  (bnd (reworkDraft E (d_body draft) feedback (d_format draft)) (\<lambda>reworkedBody.
                   bnd (clock E) (\<lambda>t.
                   bnd (persistDraft E (reworkedDraft draft reworkedBody t)) (\<lambda>newDraft.
                   sendDraftNotification E newDraft
                     (case idea of Some i \<Rightarrow> i | None \<Rightarrow> standInIdea rework draft)))))
                  (\<lambda>error. say E channel ''Failed to rework the draft.'' None))))"
  have start: "handleReworkFeedback E feedback channel (s, w) = rest (s\<lparr>pendingRework := None\<rparr>, w)"
    unfolding rest_def using pend by (simp add: handleReworkFeedback_def io_simps)
  have "preserves (quiet ?Q (calls w)) rest"
    unfolding rest_def by (rule quiet_rework_rest) simp
  moreover have "quiet ?Q (calls w) (s\<lparr>pendingRework := None\<rparr>, w)"
    by (simp add: quiet_def)
  ultimately have "quiet ?Q (calls w) (snd (rest (s\<lparr>pendingRework := None\<rparr>, w)))"
    by (rule preservesD)
  moreover from start run have "snd (rest (s\<lparr>pendingRework := None\<rparr>, w)) = (s', w')"
    by (metis snd_conv)
  ultimately show ?thesis by simp
qed

lemma route_after_clear:
  assumes "pendingRework x = None" and "activeSessions x = activeSessions s"
    and "routeMessage s threadTs threaded text \<in> {ReworkFeedback, CancelRework, CommandAfterRework}"
  shows "routeMessage x threadTs threaded text = Command"
  using assms
  by (auto simp: routeMessage_def Let_def getLatestActiveSession_def
      split: option.splits if_splits prod.splits)

text \<open>
  C3. When \<^verbatim>\<open>handleReworkFeedback\<close> starts with a pending rework, the flag is cleared in
  the final state and in every state that was visible while one of its requests was in
  flight, whether the requests succeed or raise. A message that would have been taken
  under the pending rework before (as feedback, as a cancel, or as a command that clears
  it) is routed as a plain command in each of those states.
\<close>

theorem rework_flag_cleared_first:
  assumes "pendingRework s = Some rework"
    and "handleReworkFeedback E feedback channel (s, w) = (r, s', w')"
  shows "pendingRework s' = None
       \<and> calls w' = calls w @ newCalls w w'
       \<and> (\<forall>c \<in> set (newCalls w w'). pendingRework (snd c) = None)
       \<and> (\<forall>x \<in> insert s' (snd ` set (newCalls w w')). \<forall>threadTs threaded text.
             routeMessage s threadTs threaded text
               \<in> {ReworkFeedback, CancelRework, CommandAfterRework}
             \<longrightarrow> routeMessage x threadTs threaded text = Command)"
proof -
  let ?Q = "\<lambda>x. pendingRework x = None \<and> activeSessions x = activeSessions s"
  from handleReworkFeedback_quiet [OF assms]
  have now: "?Q s'" and base: "take (length (calls w)) (calls w') = calls w"
    and seen: "list_all (\<lambda>c. ?Q (snd c)) (newCalls w w')"
    by (simp_all add: quiet_def newCalls_def)
  from base have "calls w' = calls w @ newCalls w w'"
    unfolding newCalls_def by (metis append_take_drop_id)
  moreover from seen have all: "\<forall>c \<in> set (newCalls w w'). ?Q (snd c)"
    by (simp add: list_all_iff)
  moreover have "\<forall>x \<in> insert s' (snd ` set (newCalls w w')). ?Q x"
    using now all by auto
  then have "\<forall>x \<in> insert s' (snd ` set (newCalls w w')). \<forall>threadTs threaded text.
      routeMessage s threadTs threaded text \<in> {ReworkFeedback, CancelRework, CommandAfterRework}
      \<longrightarrow> routeMessage x threadTs threaded text = Command"
    by (blast intro: route_after_clear)
  ultimately show ?thesis
    using now by blast
qed

text \<open>
  The rework request raises: three requests were made, each with the flag already
  cleared, and a second feedback message is routed as a command.
\<close>

lemma rework_fails_eval:
  "routeMessage awaitingFeedback ''100'' False ''make it shorter'' = ReworkFeedback
   \<and> map (pendingRework \<circ> snd) (newCalls world0 (snd (snd
        (handleReworkFeedback reworkFails ''make it shorter'' ''D1'' (awaitingFeedback, world0)))))
      = [None, None, None]
   \<and> routeMessage awaitingFeedback ''101'' False ''and punchier'' = ReworkFeedback"
  by (simp add: routeMessage_def Let_def normalizeHook_def toLowerCase_def lowerChar_def
      isLowerAlnum_def isSpace_def trim_def isNumber_def isDigit_def getLatestActiveSession_def
      awaitingFeedback_def withIdea_def state0_def world0_def newCalls_def
      handleReworkFeedback_def io_simps say_def chatPost_def reworkDraft_def getIdea_def
      reworkFails_def env0_def)

theorem rework_flag_cleared_first_witness:
  "routeMessage awaitingFeedback ''100'' False ''make it shorter'' = ReworkFeedback
   \<and> map (pendingRework \<circ> snd) (newCalls world0 (snd (snd
        (handleReworkFeedback reworkFails ''make it shorter'' ''D1'' (awaitingFeedback, world0)))))
      = [None, None, None]
   \<and> pendingRework (fst (snd
        (handleReworkFeedback reworkFails ''make it shorter'' ''D1'' (awaitingFeedback, world0))))
      = None
   \<and> routeMessage (fst (snd
        (handleReworkFeedback reworkFails ''make it shorter'' ''D1'' (awaitingFeedback, world0))))
        ''101'' False ''and punchier'' = Command"
proof -
  obtain r s' w' where run:
    "handleReworkFeedback reworkFails ''make it shorter'' ''D1'' (awaitingFeedback, world0)
       = (r, s', w')"
    by (cases "handleReworkFeedback reworkFails ''make it shorter'' ''D1''
          (awaitingFeedback, world0)") auto
  have pend: "pendingRework awaitingFeedback = Some \<lparr>r_draftId = ''draft-5'', r_ideaId = ''a''\<rparr>"
    by (simp add: awaitingFeedback_def)
  note inst = rework_flag_cleared_first [OF pend run]
  from inst have a: "pendingRework s' = None"
    by blast
  from inst have "routeMessage awaitingFeedback ''101'' False ''and punchier''
        \<in> {ReworkFeedback, CancelRework, CommandAfterRework}
      \<longrightarrow> routeMessage s' ''101'' False ''and punchier'' = Command"
    by blast
  with rework_fails_eval have b: "routeMessage s' ''101'' False ''and punchier'' = Command"
    by simp
  from a b rework_fails_eval show ?thesis
    by (simp add: run)
qed

section \<open>Active sessions\<close>

lemma keyed_Nil [simp]: "keyed []"
  by (simp add: keyed_def)







































text \<open>The registry and the session table under an update.\<close>

lemma targets_Nil [simp]: "targets [] = {}"
  by (simp add: targets_def)















lemma reaches_post: "reaches P m Q \<Longrightarrow> (\<And>\<sigma>. Q \<sigma> \<Longrightarrow> Q' \<sigma>) \<Longrightarrow> reaches P m Q'"
  unfolding reaches_def by blast
























































































end
